theory Spec2Isabelle
  imports Main "HOL-Library.Word" "HOL-Library.Multiset"
begin

unbundle bit_operations_syntax

section \<open>JavaScript numbers used as 32-bit integers\<close>

text \<open>
  The source is TypeScript; every \<open>number\<close> that the modelled functions handle is an
  integer-valued double, modelled as \<open>int\<close>.  The bitwise operators of JavaScript convert
  their operands to signed 32-bit integers (ToInt32), compute on the 32 bits and return a
  signed 32-bit result; the shift count of \<open><<\<close> is taken modulo 32.
\<close>

definition toInt32 :: "int \<Rightarrow> 32 word" where
  "toInt32 x = word_of_int x"

definition js_shl :: "int \<Rightarrow> int \<Rightarrow> int" where
  "js_shl a n = sint (push_bit (nat (n mod 32)) (toInt32 a))"

definition js_and :: "int \<Rightarrow> int \<Rightarrow> int" where
  "js_and a b = sint (toInt32 a AND toInt32 b)"

definition js_or :: "int \<Rightarrow> int \<Rightarrow> int" where
  "js_or a b = sint (toInt32 a OR toInt32 b)"

definition js_not :: "int \<Rightarrow> int" where
  "js_not a = sint (NOT (toInt32 a))"

section \<open>Errors\<close>

text \<open>
  Exceptions of the source are values.  \<open>TypeError\<close> is what reading a property of
  \<open>undefined\<close> raises (an array read out of range followed by \<open>.value\<close>);
  \<open>UnsupportedSize\<close> is the \<open>Error\<close> thrown by \<open>createFullBitmask\<close>;
  \<open>StackOverflow\<close> is the \<open>RangeError\<close> of a recursion deeper than the engine's stack;
  \<open>CallbackError\<close> is an exception raised by a caller-supplied callback.
\<close>

datatype error = TypeError | UnsupportedSize int | StackOverflow | CallbackError string

section \<open>Bitmask primitives (validation/bitmask.ts)\<close>

definition valueToBitmask :: "int \<Rightarrow> int" where
  "valueToBitmask v = (if v \<le> 0 \<or> v > 31 then 0 else js_shl 1 v)"

definition valuesFromBitmask :: "int \<Rightarrow> int list" where
  "valuesFromBitmask bitmask = filter (\<lambda>v. js_and bitmask (js_shl 1 v) \<noteq> 0) [1..31]"

definition hasBit :: "int \<Rightarrow> int \<Rightarrow> bool" where
  "hasBit bitmask v = (if v \<le> 0 \<or> v > 31 then False else js_and bitmask (js_shl 1 v) \<noteq> 0)"

definition addBit :: "int \<Rightarrow> int \<Rightarrow> int" where
  "addBit bitmask v = (if v \<le> 0 \<or> v > 31 then bitmask else js_or bitmask (js_shl 1 v))"

definition removeBit :: "int \<Rightarrow> int \<Rightarrow> int" where
  "removeBit bitmask v =
     (if v \<le> 0 \<or> v > 31 then bitmask else js_and bitmask (js_not (js_shl 1 v)))"

definition countBits :: "int \<Rightarrow> int" where
  "countBits bitmask = int (length (filter (\<lambda>v. js_and bitmask (js_shl 1 v) \<noteq> 0) [1..31]))"

definition createFullBitmask :: "int \<Rightarrow> error + int" where
  "createFullBitmask n =
     (if n \<le> 0 \<or> n > 31 then Inl (UnsupportedSize n)
      else Inr (js_shl 1 (n + 1) - 2))"

section \<open>Data model (types/grid.ts, types/region.ts, types/engine.ts)\<close>

datatype HighlightType =
  Selected | RelatedPeer | RelatedValue | HlError | HlErrorSource | HlRegion | Hint

datatype AnimationState = Changed | Cleared

text \<open>
  \<open>CellState\<close>: the field \<open>value\<close> of the source is \<open>cvalue\<close> here, \<open>error\<close> is
  \<open>cerror\<close>, \<open>notes\<close> is \<open>cnotes\<close>, a \<open>Set<number>\<close>; optional fields are options.
\<close>

record CellState =
  cvalue :: int
  isPuzzle :: bool
  cnotes :: "int set"
  cerror :: "bool option"
  highlight :: "HighlightType option"
  animationState :: "AnimationState option"

type_synonym Grid = "CellState list list"

type_synonym Coord = "nat \<times> nat"

datatype RegionType = Row | Column | Block | Diagonal | Cage | Jigsaw | Window | Custom

text \<open>
  \<open>Region\<close>: of the optional \<open>properties\<close> only \<open>sum\<close> is read by the validation code;
  colour and label are presentation data and are left out.
\<close>

record Region =
  rid :: string
  rtype :: RegionType
  cells :: "Coord list"
  rsum :: "int option"

text \<open>
  \<open>SudokuConfig\<close>.  A variant rule's methods receive the configuration; the three rules of
  the repository read only its size and regions, so the rule methods are given the
  configuration without its rule list (\<open>ConfigCore\<close>).  The field \<open>size\<close> is \<open>gsize\<close>.
\<close>

record ConfigCore =
  gsize :: int
  blockWidth :: int
  blockHeight :: int
  regions :: "Region list"

record VariantRule =
  ruleId :: string
  getExcludedCandidates :: "(Grid \<Rightarrow> nat \<Rightarrow> nat \<Rightarrow> ConfigCore \<Rightarrow> error + int list) option"

record SudokuConfig = ConfigCore +
  variantRules :: "VariantRule list"

text \<open>
  \<open>grid[r][c]\<close> followed by a property read: out of range the array read gives
  \<open>undefined\<close> and the property read raises a TypeError.
\<close>

definition cellAt :: "Grid \<Rightarrow> nat \<Rightarrow> nat \<Rightarrow> error + CellState" where
  "cellAt grid r c =
     (if r < length grid \<and> c < length (grid ! r) then Inr (grid ! r ! c) else Inl TypeError)"

section \<open>Duplicate check (validation/standard.ts)\<close>

text \<open>
  \<open>valuePositions\<close> is a \<open>Map\<close> from value to the positions holding it; a \<open>Map\<close> iterates
  in insertion order of its keys, so it is an association list.  \<open>recordPosition\<close> is the
  pair of statements that creates the entry of a value when it is missing and pushes the
  position onto it.
\<close>

type_synonym ValuePositions = "(int \<times> Coord list) list"

fun recordPosition :: "ValuePositions \<Rightarrow> int \<Rightarrow> Coord \<Rightarrow> ValuePositions" where
  "recordPosition [] v p = [(v, [p])]"
| "recordPosition ((w, ps) # m) v p =
     (if w = v then (w, ps @ [p]) # m else (w, ps) # recordPosition m v p)"

fun collectPositions ::
  "Grid \<Rightarrow> Coord list \<Rightarrow> ValuePositions \<times> int \<Rightarrow> error + ValuePositions \<times> int" where
  "collectPositions grid [] st = Inr st"
| "collectPositions grid ((row, col) # rest) (valuePositions, usedValues) =
     (case cellAt grid row col of
        Inl e \<Rightarrow> Inl e
      | Inr cell \<Rightarrow>
          if cvalue cell = 0 then collectPositions grid rest (valuePositions, usedValues)
          else
            let valuePositions' = recordPosition valuePositions (cvalue cell) (row, col);
                valueMask = valueToBitmask (cvalue cell)
            in if js_and usedValues valueMask \<noteq> 0
               then collectPositions grid rest (valuePositions', usedValues)
               else collectPositions grid rest (valuePositions', js_or usedValues valueMask))"

record DuplicateReport =
  duplicates :: "Coord list"
  sources :: "Coord list"

fun reportDuplicates :: "ValuePositions \<Rightarrow> DuplicateReport \<Rightarrow> DuplicateReport" where
  "reportDuplicates [] rep = rep"
| "reportDuplicates ((v, positions) # m) rep =
     (if length positions > 1
      then reportDuplicates m
             \<lparr>duplicates = duplicates rep @ positions, sources = sources rep @ [hd positions]\<rparr>
      else reportDuplicates m rep)"

definition checkDuplicatesBitmask :: "Grid \<Rightarrow> Coord list \<Rightarrow> error + DuplicateReport" where
  "checkDuplicatesBitmask grid cellCoords =
     (case collectPositions grid cellCoords ([], 0) of
        Inl e \<Rightarrow> Inl e
      | Inr (valuePositions, usedValues) \<Rightarrow>
          Inr (reportDuplicates valuePositions \<lparr>duplicates = [], sources = []\<rparr>))"

section \<open>Move check (validation/standard.ts)\<close>

definition containsCell :: "nat \<Rightarrow> nat \<Rightarrow> Region \<Rightarrow> bool" where
  "containsCell row col region = list_ex (\<lambda>(r, c). r = row \<and> c = col) (cells region)"

text \<open>The inner loop of both the move check and the candidate computation: the mask of
  the values of a region's cells other than \<open>(row, col)\<close>.\<close>

fun regionUsedValues :: "Grid \<Rightarrow> nat \<Rightarrow> nat \<Rightarrow> Coord list \<Rightarrow> int \<Rightarrow> error + int" where
  "regionUsedValues grid row col [] usedValues = Inr usedValues"
| "regionUsedValues grid row col ((r, c) # rest) usedValues =
     (if r = row \<and> c = col then regionUsedValues grid row col rest usedValues
      else case cellAt grid r c of
             Inl e \<Rightarrow> Inl e
           | Inr cell \<Rightarrow>
               if cvalue cell \<noteq> 0
               then regionUsedValues grid row col rest
                      (js_or usedValues (valueToBitmask (cvalue cell)))
               else regionUsedValues grid row col rest usedValues)"

fun isValidMoveRegions :: "Grid \<Rightarrow> nat \<Rightarrow> nat \<Rightarrow> int \<Rightarrow> Region list \<Rightarrow> error + bool" where
  "isValidMoveRegions grid row col v [] = Inr True"
| "isValidMoveRegions grid row col v (region # rest) =
     (case regionUsedValues grid row col (cells region) 0 of
        Inl e \<Rightarrow> Inl e
      | Inr usedValues \<Rightarrow>
          if js_and usedValues (valueToBitmask v) \<noteq> 0 then Inr False
          else isValidMoveRegions grid row col v rest)"

definition isValidMoveBitmask ::
  "Grid \<Rightarrow> nat \<Rightarrow> nat \<Rightarrow> int \<Rightarrow> Region list \<Rightarrow> error + bool" where
  "isValidMoveBitmask grid row col v rs =
     (if v = 0 then Inr True
      else isValidMoveRegions grid row col v (filter (containsCell row col) rs))"

section \<open>Candidates (candidates/optimized.ts)\<close>

fun removeUsedByRegions :: "Grid \<Rightarrow> nat \<Rightarrow> nat \<Rightarrow> Region list \<Rightarrow> int \<Rightarrow> error + int" where
  "removeUsedByRegions grid row col [] candidatesBitmask = Inr candidatesBitmask"
| "removeUsedByRegions grid row col (region # rest) candidatesBitmask =
     (case regionUsedValues grid row col (cells region) 0 of
        Inl e \<Rightarrow> Inl e
      | Inr usedValues \<Rightarrow>
          removeUsedByRegions grid row col rest (js_and candidatesBitmask (js_not usedValues)))"

fun removeExcluded :: "int list \<Rightarrow> int \<Rightarrow> int" where
  "removeExcluded [] candidatesBitmask = candidatesBitmask"
| "removeExcluded (excludedValue # rest) candidatesBitmask =
     removeExcluded rest (js_and candidatesBitmask (js_not (valueToBitmask excludedValue)))"

fun applyVariantExclusions ::
  "Grid \<Rightarrow> nat \<Rightarrow> nat \<Rightarrow> ConfigCore \<Rightarrow> VariantRule list \<Rightarrow> int \<Rightarrow> error + int" where
  "applyVariantExclusions grid row col cfg [] candidatesBitmask = Inr candidatesBitmask"
| "applyVariantExclusions grid row col cfg (rule # rest) candidatesBitmask =
     (case getExcludedCandidates rule of
        None \<Rightarrow> applyVariantExclusions grid row col cfg rest candidatesBitmask
      | Some f \<Rightarrow>
          (case f grid row col cfg of
             Inl e \<Rightarrow> Inl e
           | Inr excludedByRule \<Rightarrow>
               applyVariantExclusions grid row col cfg rest
                 (removeExcluded excludedByRule candidatesBitmask)))"

text \<open>The returned \<open>Set\<close> is built from the ascending list of \<open>valuesFromBitmask\<close>; the
  model returns that list.\<close>

definition getCandidatesForCellBitmask ::
  "Grid \<Rightarrow> nat \<Rightarrow> nat \<Rightarrow> SudokuConfig \<Rightarrow> error + int list" where
  "getCandidatesForCellBitmask grid row col config =
     (case cellAt grid row col of
        Inl e \<Rightarrow> Inl e
      | Inr cell \<Rightarrow>
          if cvalue cell \<noteq> 0 then Inr []
          else
            (case createFullBitmask (gsize config) of
               Inl e \<Rightarrow> Inl e
             | Inr full \<Rightarrow>
                 (case removeUsedByRegions grid row col
                         (filter (containsCell row col) (regions config)) full of
                    Inl e \<Rightarrow> Inl e
                  | Inr afterRegions \<Rightarrow>
                      (case applyVariantExclusions grid row col (ConfigCore.truncate config)
                              (variantRules config) afterRegions of
                         Inl e \<Rightarrow> Inl e
                       | Inr candidatesBitmask \<Rightarrow> Inr (valuesFromBitmask candidatesBitmask)))))"

section \<open>Grid construction (grid/create.ts)\<close>

definition createEmptyCell :: CellState where
  "createEmptyCell =
     \<lparr>cvalue = 0, isPuzzle = False, cnotes = {}, cerror = Some False,
      highlight = None, animationState = None\<rparr>"

definition createEmptyGrid :: "nat \<Rightarrow> Grid" where
  "createEmptyGrid n = replicate n (replicate n createEmptyCell)"

text \<open>\<open>cloneGrid\<close> copies every cell with a fresh copy of its notes.\<close>

definition cloneGrid :: "Grid \<Rightarrow> Grid" where
  "cloneGrid grid = map (\<lambda>row. map (\<lambda>cell. cell\<lparr>cnotes := cnotes cell\<rparr>) row) grid"

section \<open>Standard regions (regions/standard.ts)\<close>

text \<open>Decimal digits of an index, as the template strings of the source print it.\<close>

fun showNat :: "nat \<Rightarrow> string" where
  "showNat n =
     (if n < 10 then [char_of (48 + n)] else showNat (n div 10) @ [char_of (48 + n mod 10)])"

declare showNat.simps [simp del]

definition generateRowRegions :: "nat \<Rightarrow> Region list" where
  "generateRowRegions n =
     map (\<lambda>row. \<lparr>rid = ''row-'' @ showNat row, rtype = Row,
                   cells = map (\<lambda>col. (row, col)) [0..<n], rsum = None\<rparr>) [0..<n]"

definition generateColumnRegions :: "nat \<Rightarrow> Region list" where
  "generateColumnRegions n =
     map (\<lambda>col. \<lparr>rid = ''column-'' @ showNat col, rtype = Column,
                   cells = map (\<lambda>row. (row, col)) [0..<n], rsum = None\<rparr>) [0..<n]"

text \<open>
  \<open>generateStandardRegions\<close> (regions/index.ts).  The source computes
  \<open>blocksPerRow = size / blockWidth\<close> in floating point; the model is for a block width
  that divides the size, where the quotient is the integer one.
\<close>

definition generateStandardRegions :: "nat \<Rightarrow> nat \<Rightarrow> nat \<Rightarrow> Region list" where
  "generateStandardRegions n blockW blockH =
     map (\<lambda>row. \<lparr>rid = ''row-'' @ showNat row, rtype = Row,
                   cells = map (\<lambda>col. (row, col)) [0..<n], rsum = None\<rparr>) [0..<n]
     @ map (\<lambda>col. \<lparr>rid = ''col-'' @ showNat col, rtype = Column,
                     cells = map (\<lambda>row. (row, col)) [0..<n], rsum = None\<rparr>) [0..<n]
     @ map (\<lambda>blockIndex.
              let blocksPerRow = n div blockW;
                  blockRow = blockIndex div blocksPerRow;
                  blockCol = blockIndex mod blocksPerRow;
                  startRow = blockRow * blockH;
                  startCol = blockCol * blockW
              in \<lparr>rid = ''block-'' @ showNat blockIndex, rtype = Block,
                  cells = concat (map (\<lambda>r. map (\<lambda>c. (startRow + r, startCol + c)) [0..<blockW])
                                      [0..<blockH]),
                  rsum = None\<rparr>) [0..<n]"

section \<open>Diagonal variant rule (variants/diagonal.ts)\<close>

text \<open>\<open>Set.add\<close> on a set kept in insertion order.\<close>

definition setAdd :: "'a list \<Rightarrow> 'a \<Rightarrow> 'a list" where
  "setAdd xs x = (if x \<in> set xs then xs else xs @ [x])"

text \<open>One of the two loops of \<open>getExcludedCandidates\<close>; \<open>colOf i\<close> is the column of the
  diagonal in row \<open>i\<close>.\<close>

fun collectDiagonal ::
  "Grid \<Rightarrow> nat \<Rightarrow> (nat \<Rightarrow> nat) \<Rightarrow> nat list \<Rightarrow> int list \<Rightarrow> error + int list" where
  "collectDiagonal grid row colOf [] excluded = Inr excluded"
| "collectDiagonal grid row colOf (i # rest) excluded =
     (if i \<noteq> row
      then (case cellAt grid i (colOf i) of
              Inl e \<Rightarrow> Inl e
            | Inr cell \<Rightarrow>
                if cvalue cell > 0
                then collectDiagonal grid row colOf rest (setAdd excluded (cvalue cell))
                else collectDiagonal grid row colOf rest excluded)
      else collectDiagonal grid row colOf rest excluded)"

definition diagonalExcludedCandidates ::
  "Grid \<Rightarrow> nat \<Rightarrow> nat \<Rightarrow> ConfigCore \<Rightarrow> error + int list" where
  "diagonalExcludedCandidates grid row col cfg =
     (let n = gsize cfg;
          isOnMainDiagonal = (row = col);
          isOnAntiDiagonal = (int row + int col = n - 1)
      in if \<not> isOnMainDiagonal \<and> \<not> isOnAntiDiagonal then Inr []
         else
           (case (if isOnMainDiagonal
                  then collectDiagonal grid row (\<lambda>i. i) [0..<nat n] []
                  else Inr []) of
              Inl e \<Rightarrow> Inl e
            | Inr excluded \<Rightarrow>
                if isOnAntiDiagonal
                then collectDiagonal grid row (\<lambda>i. nat (n - 1 - int i)) [0..<nat n] excluded
                else Inr excluded))"

definition DiagonalVariant :: VariantRule where
  "DiagonalVariant =
     \<lparr>ruleId = ''diagonal'', getExcludedCandidates = Some diagonalExcludedCandidates\<rparr>"

definition StandardVariant :: VariantRule where
  "StandardVariant =
     \<lparr>ruleId = ''standard'', getExcludedCandidates = Some (\<lambda>grid row col cfg. Inr [])\<rparr>"

section \<open>Grid access (grid/access.ts)\<close>

definition isValidPosition :: "Grid \<Rightarrow> nat \<Rightarrow> nat \<Rightarrow> bool" where
  "isValidPosition grid row col =
     (row < length grid \<and> col < (case grid of [] \<Rightarrow> 0 | firstRow # _ \<Rightarrow> length firstRow))"

text \<open>
  \<open>setCellValue\<close> returns the grid it was given for a position outside the grid and for a
  given cell outside editing mode; otherwise it builds a new grid in which the cell holds
  the value, is a given only in editing mode, and has its notes cleared.  The position
  check uses the length of the first row; in a row shorter than that the read of the cell
  gives \<open>undefined\<close> and \<open>cell.isPuzzle\<close> raises.
\<close>

definition setCellValue :: "Grid \<Rightarrow> nat \<Rightarrow> nat \<Rightarrow> int \<Rightarrow> bool \<Rightarrow> error + Grid" where
  "setCellValue grid row col v isEditingPuzzle =
     (if \<not> isValidPosition grid row col then Inr grid
      else case cellAt grid row col of
             Inl e \<Rightarrow> Inl e
           | Inr cell \<Rightarrow>
               if isPuzzle cell \<and> \<not> isEditingPuzzle then Inr grid
               else Inr (map (\<lambda>(rIndex, r).
                            map (\<lambda>(cIndex, c).
                                   if rIndex = row \<and> cIndex = col
                                   then c\<lparr>cvalue := v, isPuzzle := (isEditingPuzzle \<and> v \<noteq> 0),
                                          cnotes := {}, animationState := Some Changed\<rparr>
                                   else c)
                                (enumerate 0 r))
                         (enumerate 0 grid)))"

text \<open>Where \<open>setCellValue\<close> returns the grid it was given, its result is that very object:
  what is later written into the one is written into the other.\<close>

definition returnsItsGrid :: "Grid \<Rightarrow> nat \<Rightarrow> nat \<Rightarrow> bool \<Rightarrow> bool" where
  "returnsItsGrid grid row col isEditingPuzzle =
     (\<not> isValidPosition grid row col
      \<or> (case cellAt grid row col of
            Inl e \<Rightarrow> False
          | Inr cell \<Rightarrow> isPuzzle cell \<and> \<not> isEditingPuzzle))"

section \<open>Region validation (validation/standard.ts, validation/collector.ts)\<close>

text \<open>The error messages are formatted strings; the model keeps what they are built from.\<close>

datatype Message = DuplicateCellsMessage string nat | SumMessage int int

record ValidationResult =
  isValid :: bool
  errorCells :: "Coord list"
  conflictSources :: "Coord list option"
  errorMessages :: "Message list option"

definition validateRegionBitmask :: "Grid \<Rightarrow> Region \<Rightarrow> error + ValidationResult" where
  "validateRegionBitmask grid region =
     (case checkDuplicatesBitmask grid (cells region) of
        Inl e \<Rightarrow> Inl e
      | Inr rep \<Rightarrow>
          Inr \<lparr>isValid = (length (duplicates rep) = 0),
               errorCells = duplicates rep,
               conflictSources = Some (sources rep),
               errorMessages =
                 Some (if length (duplicates rep) > 0
                       then [DuplicateCellsMessage (rid region) (length (duplicates rep))]
                       else [])\<rparr>)"

text \<open>\<open>Array.every\<close> stops at the first cell that fails the test.\<close>

fun allFilled :: "Grid \<Rightarrow> Coord list \<Rightarrow> error + bool" where
  "allFilled grid [] = Inr True"
| "allFilled grid ((row, col) # rest) =
     (case cellAt grid row col of
        Inl e \<Rightarrow> Inl e
      | Inr cell \<Rightarrow> if cvalue cell \<noteq> 0 then allFilled grid rest else Inr False)"

fun sumValues :: "Grid \<Rightarrow> Coord list \<Rightarrow> int \<Rightarrow> error + int" where
  "sumValues grid [] actualSum = Inr actualSum"
| "sumValues grid ((row, col) # rest) actualSum =
     (case cellAt grid row col of
        Inl e \<Rightarrow> Inl e
      | Inr cell \<Rightarrow> sumValues grid rest (actualSum + cvalue cell))"

definition validResult :: ValidationResult where
  "validResult =
     \<lparr>isValid = True, errorCells = [], conflictSources = None, errorMessages = None\<rparr>"

definition validateSum :: "Grid \<Rightarrow> Region \<Rightarrow> error + ValidationResult" where
  "validateSum grid region =
     (case rsum region of
        None \<Rightarrow> Inr validResult
      | Some expectedSum \<Rightarrow>
          (case allFilled grid (cells region) of
             Inl e \<Rightarrow> Inl e
           | Inr filled \<Rightarrow>
               if \<not> filled then Inr validResult
               else (case sumValues grid (cells region) 0 of
                       Inl e \<Rightarrow> Inl e
                     | Inr actualSum \<Rightarrow>
                         Inr \<lparr>isValid = (actualSum = expectedSum),
                              errorCells = (if actualSum = expectedSum then [] else cells region),
                              conflictSources = None,
                              errorMessages =
                                Some (if actualSum = expectedSum then []
                                      else [SumMessage expectedSum actualSum])\<rparr>)))"

text \<open>\<open>mergeValidationResults\<close> collects cells in sets keyed by \<open>"row,col"\<close>, which keep
  the first occurrence of each coordinate in order.\<close>

definition mergeValidationResults :: "ValidationResult list \<Rightarrow> ValidationResult" where
  "mergeValidationResults results =
     (if results = [] then validResult
      else
        let errorCellSet = foldl (\<lambda>acc r. foldl setAdd acc (errorCells r)) [] results;
            conflictSourceSet =
              foldl (\<lambda>acc r. case conflictSources r of
                                None \<Rightarrow> acc
                              | Some cs \<Rightarrow> foldl setAdd acc cs) [] results;
            messages =
              concat (map (\<lambda>r. case errorMessages r of None \<Rightarrow> [] | Some ms \<Rightarrow> ms) results)
        in \<lparr>isValid = list_all isValid results,
            errorCells = errorCellSet,
            conflictSources = (if length conflictSourceSet > 0 then Some conflictSourceSet else None),
            errorMessages = (if length messages > 0 then Some messages else None)\<rparr>)"

fun validateRegions :: "Grid \<Rightarrow> Region list \<Rightarrow> error + ValidationResult list" where
  "validateRegions grid [] = Inr []"
| "validateRegions grid (region # rest) =
     (case validateRegionBitmask grid region of
        Inl e \<Rightarrow> Inl e
      | Inr duplicateResult \<Rightarrow>
          (case (if rsum region \<noteq> None
                 then (case validateSum grid region of
                         Inl e \<Rightarrow> Inl e
                       | Inr sumResult \<Rightarrow>
                           Inr (mergeValidationResults [duplicateResult, sumResult]))
                 else Inr duplicateResult) of
             Inl e \<Rightarrow> Inl e
           | Inr result \<Rightarrow>
               (case validateRegions grid rest of
                  Inl e \<Rightarrow> Inl e
                | Inr results \<Rightarrow> Inr (result # results))))"

definition validateAllRegions :: "Grid \<Rightarrow> Region list \<Rightarrow> error + ValidationResult" where
  "validateAllRegions grid rs =
     (case validateRegions grid rs of
        Inl e \<Rightarrow> Inl e
      | Inr results \<Rightarrow> Inr (mergeValidationResults results))"

section \<open>Grids handed to callbacks\<close>

text \<open>
  The solver and the generator hand grids of their own to the caller's progress callback
  and go on using them, so what a callback writes into such a grid is part of the run.
  In the model a callback returns, next to its answer, the grids as it leaves them.  Its
  writes are writes into cells: \<open>writtenGrid grid written\<close> takes from \<open>written\<close> the cell
  at every position \<open>grid\<close> has and keeps the shape of \<open>grid\<close>.  Outside the model are a
  callback that adds or removes rows or cells, one that stores something that is not an
  integer as a value, and one that changes the arguments of the run (the caller's grid,
  configuration and options) while it runs.
\<close>

fun overlay :: "('a \<Rightarrow> 'a \<Rightarrow> 'a) \<Rightarrow> 'a list \<Rightarrow> 'a list \<Rightarrow> 'a list" where
  "overlay f [] ys = []"
| "overlay f (x # xs) [] = x # xs"
| "overlay f (x # xs) (y # ys) = f x y # overlay f xs ys"

definition writtenGrid :: "Grid \<Rightarrow> Grid \<Rightarrow> Grid" where
  "writtenGrid grid written = overlay (overlay (\<lambda>old new. new)) grid written"

definition writtenGrids :: "Grid list \<Rightarrow> Grid list \<Rightarrow> Grid list" where
  "writtenGrids grids written = overlay writtenGrid grids written"

section \<open>Solver context (solvers/backtracking.ts, types/solver.ts)\<close>

datatype ProgressEvent = SolutionEvent Grid | StepEvent nat nat int

text \<open>
  \<open>SolveCallback\<close>.  The callback answers \<open>true\<close>, \<open>false\<close> or \<open>undefined\<close>, or raises; it
  may keep state of its own, so it is given the number of callback calls made before.  The
  solution of a \<open>"solution"\<close> event is the very object the search has stored in
  \<open>context.solutions\<close>, and a callback can keep it: at every call it is given the stored
  solutions, all of which it has been handed, and returns them as it leaves them.
\<close>

type_synonym SolveCallback =
  "nat \<Rightarrow> ProgressEvent \<Rightarrow> Grid list \<Rightarrow> (error + bool option) \<times> Grid list"

record SolverStats =
  timeMs :: int
  backtracks :: nat
  assignments :: nat
  candidateCalculations :: nat
  steps :: nat

text \<open>
  \<open>BacktrackingContext\<close> is the one mutable object the search threads through its calls;
  the model passes it in and returns it.  \<open>getCandidatesForCell\<close> returns its \<open>Set\<close> as the list of
  its elements in iteration order.  Three fields are the environment of the run and not in
  the source object: \<open>dateNow k\<close> is what the \<open>k\<close>-th reading of \<open>Date.now()\<close> returns,
  \<open>clockReads\<close> and \<open>progressCalls\<close> count the readings and the callback calls so far.
\<close>

record BacktrackingContext =
  config :: SudokuConfig
  onProgress :: "SolveCallback option"
  findAllSolutions :: bool
  maxSolutions :: int
  timeoutTimestamp :: "int option"
  solutions :: "Grid list"
  interrupted :: bool
  stats :: SolverStats
  getCandidatesForCell :: "nat \<Rightarrow> nat \<Rightarrow> error + int list"
  recursionCounter :: "nat option"
  dateNow :: "nat \<Rightarrow> int"
  clockReads :: nat
  progressCalls :: nat

definition countBacktrack :: "BacktrackingContext \<Rightarrow> BacktrackingContext" where
  "countBacktrack ctx = ctx\<lparr>stats := (stats ctx)\<lparr>backtracks := backtracks (stats ctx) + 1\<rparr>\<rparr>"

definition countAssignment :: "BacktrackingContext \<Rightarrow> BacktrackingContext" where
  "countAssignment ctx = ctx\<lparr>stats := (stats ctx)\<lparr>assignments := assignments (stats ctx) + 1\<rparr>\<rparr>"

text \<open>A call of \<open>context.getCandidatesForCell\<close>: the function built by \<open>solveSudoku\<close>
  counts the call in the statistics before it computes.\<close>

definition callGetCandidates ::
  "BacktrackingContext \<Rightarrow> nat \<Rightarrow> nat \<Rightarrow> (error + int list) \<times> BacktrackingContext" where
  "callGetCandidates ctx row col =
     (getCandidatesForCell ctx row col,
      ctx\<lparr>stats := (stats ctx)\<lparr>candidateCalculations := candidateCalculations (stats ctx) + 1\<rparr>\<rparr>)"

text \<open>A call of the progress callback; the result is whether the search goes on
  (\<open>shouldContinue !== false\<close>).  The stored solutions are afterwards what the callback
  left in them.\<close>

definition notify ::
  "BacktrackingContext \<Rightarrow> ProgressEvent \<Rightarrow> (error + bool) \<times> BacktrackingContext" where
  "notify ctx ev =
     (case onProgress ctx of
        None \<Rightarrow> (Inr True, ctx)
      | Some f \<Rightarrow>
          (case f (progressCalls ctx) ev (solutions ctx) of
             (answer, written) \<Rightarrow>
               let ctx1 = ctx\<lparr>progressCalls := progressCalls ctx + 1,
                              solutions := writtenGrids (solutions ctx) written\<rparr>
               in (case answer of
                     Inl e \<Rightarrow> (Inl e, ctx1)
                   | Inr a \<Rightarrow> (Inr (a \<noteq> Some False), ctx1))))"

definition TIMEOUT_CHECK_INTERVAL :: nat where
  "TIMEOUT_CHECK_INTERVAL = 100"

definition bumpRecursionCounter :: "BacktrackingContext \<Rightarrow> BacktrackingContext" where
  "bumpRecursionCounter ctx =
     (case recursionCounter ctx of
        None \<Rightarrow> ctx\<lparr>recursionCounter := Some 0\<rparr>
      | Some n \<Rightarrow> ctx\<lparr>recursionCounter := Some (n + 1)\<rparr>)"

text \<open>The timeout test; \<open>Date.now()\<close> is read only when there is a (non-zero) deadline and
  the counter is a multiple of the interval.\<close>

definition timedOut :: "BacktrackingContext \<Rightarrow> bool \<times> BacktrackingContext" where
  "timedOut ctx =
     (case timeoutTimestamp ctx of
        None \<Rightarrow> (False, ctx)
      | Some deadline \<Rightarrow>
          if deadline \<noteq> 0
             \<and> (case recursionCounter ctx of None \<Rightarrow> False
                 | Some n \<Rightarrow> n mod TIMEOUT_CHECK_INTERVAL = 0)
          then (dateNow ctx (clockReads ctx) > deadline, ctx\<lparr>clockReads := clockReads ctx + 1\<rparr>)
          else (False, ctx))"

section \<open>Cell selection (solvers/heuristics.ts)\<close>

record CellCandidateInfo =
  ciRow :: nat
  ciCol :: nat
  ciCandidates :: "int list"
  ciCount :: nat
  constraintDegree :: "nat option"

text \<open>The coordinates of the empty cells, row by row.\<close>

definition emptyCoords :: "Grid \<Rightarrow> Coord list" where
  "emptyCoords grid =
     concat (map (\<lambda>(row, r). map (\<lambda>(col, c). (row, col))
                                  (filter (\<lambda>(col, c). cvalue c = 0) (enumerate 0 r)))
                 (enumerate 0 grid))"

fun candidateInfos ::
  "BacktrackingContext \<Rightarrow> Coord list \<Rightarrow>
   (error + CellCandidateInfo list) \<times> BacktrackingContext" where
  "candidateInfos ctx [] = (Inr [], ctx)"
| "candidateInfos ctx ((row, col) # rest) =
     (case callGetCandidates ctx row col of
        (Inl e, ctx1) \<Rightarrow> (Inl e, ctx1)
      | (Inr candidates, ctx1) \<Rightarrow>
          (case candidateInfos ctx1 rest of
             (Inl e, ctx2) \<Rightarrow> (Inl e, ctx2)
           | (Inr infos, ctx2) \<Rightarrow>
               (Inr (\<lparr>ciRow = row, ciCol = col, ciCandidates = candidates,
                       ciCount = length candidates, constraintDegree = None\<rparr> # infos), ctx2)))"

definition getAllEmptyCellsCandidates ::
  "Grid \<Rightarrow> BacktrackingContext \<Rightarrow> (error + CellCandidateInfo list) \<times> BacktrackingContext" where
  "getAllEmptyCellsCandidates grid ctx = candidateInfos ctx (emptyCoords grid)"

fun affectedCells :: "Grid \<Rightarrow> nat \<Rightarrow> nat \<Rightarrow> Coord list \<Rightarrow> Coord list \<Rightarrow> error + Coord list" where
  "affectedCells grid row col [] acc = Inr acc"
| "affectedCells grid row col ((r, c) # rest) acc =
     (if r \<noteq> row \<or> c \<noteq> col
      then (case cellAt grid r c of
              Inl e \<Rightarrow> Inl e
            | Inr cell \<Rightarrow>
                if cvalue cell = 0 then affectedCells grid row col rest (setAdd acc (r, c))
                else affectedCells grid row col rest acc)
      else affectedCells grid row col rest acc)"

fun affectedByRegions ::
  "Grid \<Rightarrow> nat \<Rightarrow> nat \<Rightarrow> Region list \<Rightarrow> Coord list \<Rightarrow> error + Coord list" where
  "affectedByRegions grid row col [] acc = Inr acc"
| "affectedByRegions grid row col (region # rest) acc =
     (case affectedCells grid row col (cells region) acc of
        Inl e \<Rightarrow> Inl e
      | Inr acc' \<Rightarrow> affectedByRegions grid row col rest acc')"

definition calculateConstraintDegree :: "Grid \<Rightarrow> SudokuConfig \<Rightarrow> nat \<Rightarrow> nat \<Rightarrow> error + nat" where
  "calculateConstraintDegree grid cfg row col =
     (if length (regions cfg) = 0 then Inr 0
      else (case affectedByRegions grid row col
                   (filter (containsCell row col) (regions cfg)) [] of
              Inl e \<Rightarrow> Inl e
            | Inr affected \<Rightarrow> Inr (length affected)))"

fun withDegrees ::
  "Grid \<Rightarrow> SudokuConfig \<Rightarrow> CellCandidateInfo list \<Rightarrow> error + CellCandidateInfo list" where
  "withDegrees grid cfg [] = Inr []"
| "withDegrees grid cfg (cell # rest) =
     (case calculateConstraintDegree grid cfg (ciRow cell) (ciCol cell) of
        Inl e \<Rightarrow> Inl e
      | Inr d \<Rightarrow>
          (case withDegrees grid cfg rest of
             Inl e \<Rightarrow> Inl e
           | Inr rest' \<Rightarrow> Inr (cell\<lparr>constraintDegree := Some d\<rparr> # rest')))"

text \<open>\<open>Array.prototype.sort\<close> is stable, as \<open>sort_key\<close> is; the comparator
  \<open>(b.constraintDegree ?? 0) - (a.constraintDegree ?? 0)\<close> sorts by falling degree.\<close>

definition degreeOf :: "CellCandidateInfo \<Rightarrow> int" where
  "degreeOf cell = (case constraintDegree cell of None \<Rightarrow> 0 | Some d \<Rightarrow> int d)"

definition breakTiesByDegreeHeuristic ::
  "Grid \<Rightarrow> SudokuConfig \<Rightarrow> CellCandidateInfo list \<Rightarrow> error + CellCandidateInfo" where
  "breakTiesByDegreeHeuristic grid cfg tiedCells =
     (case withDegrees grid cfg tiedCells of
        Inl e \<Rightarrow> Inl e
      | Inr cellsWithDegree \<Rightarrow>
          (case sort_key (\<lambda>cell. - degreeOf cell) cellsWithDegree of
             [] \<Rightarrow> Inl TypeError
           | selected # _ \<Rightarrow> Inr selected))"

type_synonym Selection = "nat \<times> nat \<times> int list"

definition selectionOf :: "CellCandidateInfo \<Rightarrow> Selection" where
  "selectionOf cell = (ciRow cell, ciCol cell, ciCandidates cell)"

definition selectCellWithMRV ::
  "Grid \<Rightarrow> BacktrackingContext \<Rightarrow> (error + Selection option) \<times> BacktrackingContext" where
  "selectCellWithMRV grid ctx =
     (case getAllEmptyCellsCandidates grid ctx of
        (Inl e, ctx1) \<Rightarrow> (Inl e, ctx1)
      | (Inr emptyCells, ctx1) \<Rightarrow>
          (case sort_key ciCount emptyCells of
             [] \<Rightarrow> (Inr None, ctx1)
           | first # others \<Rightarrow>
               if ciCount first = 0 then (Inr (Some (selectionOf first)), ctx1)
               else
                 let mrvCells = filter (\<lambda>cell. ciCount cell = ciCount first) (first # others)
                 in if length mrvCells = 1 then (Inr (Some (selectionOf (hd mrvCells))), ctx1)
                    else (case breakTiesByDegreeHeuristic grid (config ctx) mrvCells of
                            Inl e \<Rightarrow> (Inl e, ctx1)
                          | Inr selected \<Rightarrow> (Inr (Some (selectionOf selected)), ctx1))))"

section \<open>Backtracking search (solvers/backtracking.ts)\<close>

text \<open>
  The two searches are recursive functions of the source; each nested call takes a stack
  frame, and a JavaScript engine raises a RangeError when its stack is exhausted.  The
  first argument of the model is the number of nested calls the stack still holds:
  with none left the call raises \<open>StackOverflow\<close>.  The \<open>for\<close> loop over the
  candidates is a function of its own, on the candidates still to try.

  A result is a pair of what the call returned or raised and the context after it.
\<close>

text \<open>The grid is complete: validate it again, record a copy, tell the callback.\<close>

definition recordSolution ::
  "bool \<Rightarrow> Grid \<Rightarrow> BacktrackingContext \<Rightarrow> (error + bool) \<times> BacktrackingContext" where
  "recordSolution checkMaxSolutions grid ctx =
     (case validateAllRegions grid (regions (config ctx)) of
        Inl e \<Rightarrow> (Inl e, ctx)
      | Inr validation \<Rightarrow>
          if \<not> isValid validation then (Inr False, countBacktrack ctx)
          else
            let solution = cloneGrid grid;
                ctx1 = ctx\<lparr>solutions := solutions ctx @ [solution]\<rparr>
            in (case notify ctx1 (SolutionEvent solution) of
                  (Inl e, ctx2) \<Rightarrow> (Inl e, ctx2)
                | (Inr shouldContinue, ctx2) \<Rightarrow>
                    if \<not> shouldContinue then (Inr False, ctx2\<lparr>interrupted := True\<rparr>)
                    else if checkMaxSolutions
                            \<and> int (length (solutions ctx2)) \<ge> maxSolutions ctx2
                    then (Inr True, ctx2)
                    else (Inr (\<not> findAllSolutions ctx2), ctx2)))"

fun solveWithBacktracking ::
  "nat \<Rightarrow> Grid \<Rightarrow> BacktrackingContext \<Rightarrow> (error + bool) \<times> BacktrackingContext"
and tryCandidates ::
  "nat \<Rightarrow> Grid \<Rightarrow> nat \<Rightarrow> nat \<Rightarrow> int list \<Rightarrow> BacktrackingContext \<Rightarrow>
   (error + bool) \<times> BacktrackingContext" where
  "solveWithBacktracking 0 grid ctx = (Inl StackOverflow, ctx)"
| "solveWithBacktracking (Suc stack) grid ctx =
     (case timedOut (bumpRecursionCounter ctx) of
        (True, ctx1) \<Rightarrow> (Inr False, ctx1)
      | (False, ctx1) \<Rightarrow>
          if interrupted ctx1 then (Inr False, ctx1)
          else
            (case selectCellWithMRV grid ctx1 of
               (Inl e, ctx2) \<Rightarrow> (Inl e, ctx2)
             | (Inr None, ctx2) \<Rightarrow> recordSolution True grid ctx2
             | (Inr (Some (row, col, candidates)), ctx2) \<Rightarrow>
                 if length candidates = 0 then (Inr False, countBacktrack ctx2)
                 else tryCandidates stack grid row col candidates ctx2))"
| "tryCandidates stack grid row col [] ctx = (Inr False, countBacktrack ctx)"
| "tryCandidates stack grid row col (v # rest) ctx =
     (case setCellValue grid row col v False of
        Inl e \<Rightarrow> (Inl e, ctx)
      | Inr newGrid \<Rightarrow>
          (case notify (countAssignment ctx) (StepEvent row col v) of
             (Inl e, ctx1) \<Rightarrow> (Inl e, ctx1)
           | (Inr shouldContinue, ctx1) \<Rightarrow>
               if \<not> shouldContinue then (Inr False, ctx1\<lparr>interrupted := True\<rparr>)
               else
                 (case solveWithBacktracking stack newGrid ctx1 of
                    (Inl e, ctx2) \<Rightarrow> (Inl e, ctx2)
                  | (Inr solved, ctx2) \<Rightarrow>
                      if solved \<and> \<not> findAllSolutions ctx2 then (Inr True, ctx2)
                      else if interrupted ctx2
                              \<or> int (length (solutions ctx2)) \<ge> maxSolutions ctx2
                      then (Inr False, ctx2)
                      else tryCandidates stack grid row col rest ctx2)))"

text \<open>The simple search: it validates the grid at every call, takes the first empty cell
  and tries the numbers \<open>1..size\<close>, asking for the candidates of the cell at each number.\<close>

fun solveWithSimpleBacktracking ::
  "nat \<Rightarrow> Grid \<Rightarrow> BacktrackingContext \<Rightarrow> (error + bool) \<times> BacktrackingContext"
and tryNumbers ::
  "nat \<Rightarrow> Grid \<Rightarrow> nat \<Rightarrow> nat \<Rightarrow> int list \<Rightarrow> BacktrackingContext \<Rightarrow>
   (error + bool) \<times> BacktrackingContext" where
  "solveWithSimpleBacktracking 0 grid ctx = (Inl StackOverflow, ctx)"
| "solveWithSimpleBacktracking (Suc stack) grid ctx =
     (case timedOut (bumpRecursionCounter ctx) of
        (True, ctx1) \<Rightarrow> (Inr False, ctx1)
      | (False, ctx1) \<Rightarrow>
          if interrupted ctx1 then (Inr False, ctx1)
          else
            (case validateAllRegions grid (regions (config ctx1)) of
               Inl e \<Rightarrow> (Inl e, ctx1)
             | Inr validation \<Rightarrow>
                 if \<not> isValid validation then (Inr False, countBacktrack ctx1)
                 else
                   (case emptyCoords grid of
                      [] \<Rightarrow> recordSolution False grid ctx1
                    | (row, col) # _ \<Rightarrow>
                        tryNumbers stack grid row col [1..gsize (config ctx1)] ctx1)))"
| "tryNumbers stack grid row col [] ctx = (Inr False, countBacktrack ctx)"
| "tryNumbers stack grid row col (num # rest) ctx =
     (case callGetCandidates ctx row col of
        (Inl e, ctx1) \<Rightarrow> (Inl e, ctx1)
      | (Inr candidates, ctx1) \<Rightarrow>
          if num \<notin> set candidates then tryNumbers stack grid row col rest ctx1
          else
            (case setCellValue grid row col num False of
               Inl e \<Rightarrow> (Inl e, ctx1)
             | Inr newGrid \<Rightarrow>
                 (case notify (countAssignment ctx1) (StepEvent row col num) of
                    (Inl e, ctx2) \<Rightarrow> (Inl e, ctx2)
                  | (Inr shouldContinue, ctx2) \<Rightarrow>
                      if \<not> shouldContinue then (Inr False, ctx2\<lparr>interrupted := True\<rparr>)
                      else
                        (case solveWithSimpleBacktracking stack newGrid ctx2 of
                           (Inl e, ctx3) \<Rightarrow> (Inl e, ctx3)
                         | (Inr solved, ctx3) \<Rightarrow>
                             if solved then (Inr True, ctx3)
                             else if interrupted ctx3
                                     \<or> int (length (solutions ctx3)) \<ge> maxSolutions ctx3
                             then (Inr False, ctx3)
                             else tryNumbers stack grid row col rest ctx3))))"

section \<open>The solver's entry point (solvers/index.ts)\<close>

datatype Strategy = Fastest | Humanlike

record SolverOptions =
  optFindAllSolutions :: "bool option"
  optMaxSolutions :: "int option"
  optTimeoutMs :: "int option"
  optCollectStats :: "bool option"
  optOnProgress :: "SolveCallback option"
  optStrategy :: "Strategy option"

datatype FinishReason =
  Solved | NoSolution | Timeout | Interrupted | InterruptedWithSolution | FinishError

text \<open>\<open>failReason\<close> is a text: the fixed one for an invalid initial grid, or the message of
  the exception that was caught.\<close>

datatype FailReason = InitialGridInvalid | ErrorMessage error

record SolverResult =
  success :: bool
  resSolutions :: "Grid list"
  resStats :: "SolverStats option"
  finishReason :: FinishReason
  failReason :: "FailReason option"

definition createDefaultSolverStats :: SolverStats where
  "createDefaultSolverStats =
     \<lparr>timeMs = 0, backtracks = 0, assignments = 0, candidateCalculations = 0, steps = 0\<rparr>"

text \<open>
  The candidate function \<open>solveSudoku\<close> puts into the context.  It reads the grid
  \<open>solveSudoku\<close> was called with, not the grid of the search, and caches its results by
  cell; the grid it reads is never changed, so a cached result is what computing again
  would give, and the model computes.
\<close>

fun validNumbers :: "Grid \<Rightarrow> nat \<Rightarrow> nat \<Rightarrow> Region list \<Rightarrow> int list \<Rightarrow> error + int list" where
  "validNumbers grid row col rs [] = Inr []"
| "validNumbers grid row col rs (num # rest) =
     (case isValidMoveBitmask grid row col num rs of
        Inl e \<Rightarrow> Inl e
      | Inr ok \<Rightarrow>
          (case validNumbers grid row col rs rest of
             Inl e \<Rightarrow> Inl e
           | Inr candidates \<Rightarrow> Inr (if ok then num # candidates else candidates)))"

definition solverCandidates :: "Grid \<Rightarrow> SudokuConfig \<Rightarrow> nat \<Rightarrow> nat \<Rightarrow> error + int list" where
  "solverCandidates grid cfg row col =
     (case cellAt grid row col of
        Inl e \<Rightarrow> Inl e
      | Inr cell \<Rightarrow>
          if cvalue cell \<noteq> 0 then Inr []
          else validNumbers grid row col (regions cfg) [1..gsize cfg])"

text \<open>The classification of the outcome after the search returned; it can raise, in the
  validation of the last solution.  The result record is updated in place in the source,
  so what was assigned before an exception stays.\<close>

definition classifyOutcome ::
  "SudokuConfig \<Rightarrow> BacktrackingContext \<Rightarrow> SolverResult \<Rightarrow>
   error option \<times> SolverResult \<times> BacktrackingContext" where
  "classifyOutcome cfg ctx result0 =
     (let result = result0\<lparr>resSolutions := solutions ctx\<rparr> in
      if interrupted ctx then
        (if length (solutions ctx) > 0 then
           (case validateAllRegions (last (solutions ctx)) (regions cfg) of
              Inl e \<Rightarrow> (Some e, result, ctx)
            | Inr validation \<Rightarrow>
                if isValid validation
                then (None, result\<lparr>finishReason := InterruptedWithSolution, success := True\<rparr>, ctx)
                else (None, result\<lparr>resSolutions := butlast (solutions ctx),
                                    finishReason := Interrupted,
                                    success := (length (butlast (solutions ctx)) > 0)\<rparr>, ctx))
         else (None, result\<lparr>finishReason := Interrupted\<rparr>, ctx))
      else if (case timeoutTimestamp ctx of None \<Rightarrow> False | Some deadline \<Rightarrow> deadline \<noteq> 0)
      then
        (let ctx1 = ctx\<lparr>clockReads := clockReads ctx + 1\<rparr> in
         if dateNow ctx (clockReads ctx) > the (timeoutTimestamp ctx) then
           (if length (solutions ctx) > 0 then
              (case validateAllRegions (last (solutions ctx)) (regions cfg) of
                 Inl e \<Rightarrow> (Some e, result, ctx1)
               | Inr validation \<Rightarrow>
                   (None, result\<lparr>success := isValid validation, finishReason := Timeout\<rparr>, ctx1))
            else (None, result\<lparr>finishReason := Timeout\<rparr>, ctx1))
         else if length (solutions ctx) > 0
         then (None, result\<lparr>finishReason := Solved, success := True\<rparr>, ctx1)
         else (None, result\<lparr>finishReason := NoSolution\<rparr>, ctx1))
      else if length (solutions ctx) > 0
      then (None, result\<lparr>finishReason := Solved, success := True\<rparr>, ctx)
      else (None, result\<lparr>finishReason := NoSolution\<rparr>, ctx))"

text \<open>The \<open>try\<close> block of \<open>solveSudoku\<close>: the exception it raised, if any, the result record
  and the context as they are when the block is left.\<close>

definition solveSudokuTry ::
  "nat \<Rightarrow> Grid \<Rightarrow> SudokuConfig \<Rightarrow> Strategy \<Rightarrow> BacktrackingContext \<Rightarrow> SolverResult \<Rightarrow>
   error option \<times> SolverResult \<times> BacktrackingContext" where
  "solveSudokuTry stack grid cfg strategy ctx result =
     (case validateAllRegions grid (regions cfg) of
        Inl e \<Rightarrow> (Some e, result, ctx)
      | Inr initialValidation \<Rightarrow>
          if \<not> isValid initialValidation
          then (None, result\<lparr>finishReason := NoSolution, failReason := Some InitialGridInvalid\<rparr>, ctx)
          else
            (case (if strategy = Fastest
                   then solveWithBacktracking stack (cloneGrid grid) ctx
                   else solveWithSimpleBacktracking stack (cloneGrid grid) ctx) of
               (Inl e, ctx1) \<Rightarrow> (Some e, result, ctx1)
             | (Inr solved, ctx1) \<Rightarrow> classifyOutcome cfg ctx1 result))"

text \<open>
  \<open>solveSudoku\<close>.  \<open>now\<close> gives the readings of \<open>Date.now()\<close> in the order they are
  made, \<open>stack\<close> is the depth of recursion the engine's stack holds.  The \<open>catch\<close> block
  turns an exception into the finish reason \<open>error\<close> with the exception's message; the
  \<open>finally\<close> block stores the elapsed time.
\<close>

definition solveSudoku ::
  "(nat \<Rightarrow> int) \<Rightarrow> nat \<Rightarrow> Grid \<Rightarrow> SudokuConfig \<Rightarrow> SolverOptions \<Rightarrow> SolverResult" where
  "solveSudoku now stack grid cfg options =
     (let startTime = now 0;
          findAll = (case optFindAllSolutions options of None \<Rightarrow> False | Some b \<Rightarrow> b);
          maxS = (case optMaxSolutions options of None \<Rightarrow> 1 | Some n \<Rightarrow> n);
          timeoutMs = (case optTimeoutMs options of None \<Rightarrow> 30000 | Some t \<Rightarrow> t);
          collectStats = (case optCollectStats options of None \<Rightarrow> True | Some b \<Rightarrow> b);
          strategy = (case optStrategy options of None \<Rightarrow> Fastest | Some s \<Rightarrow> s);
          deadline = (if timeoutMs \<noteq> 0 then Some (startTime + timeoutMs) else None);
          result0 = \<lparr>success = False, resSolutions = [], resStats = None,
                     finishReason = FinishError, failReason = None\<rparr>;
          ctx0 = \<lparr>config = cfg, onProgress = optOnProgress options, findAllSolutions = findAll,
                  maxSolutions = maxS, timeoutTimestamp = deadline, solutions = [],
                  interrupted = False, stats = createDefaultSolverStats,
                  getCandidatesForCell = solverCandidates grid cfg,
                  recursionCounter = Some 0, dateNow = now, clockReads = 1, progressCalls = 0\<rparr>
      in case solveSudokuTry stack grid cfg strategy ctx0 result0 of
           (raised, result, ctx) \<Rightarrow>
             let result1 = (case raised of
                              None \<Rightarrow> result
                            | Some e \<Rightarrow> result\<lparr>finishReason := FinishError,
                                                failReason := Some (ErrorMessage e)\<rparr>);
                 finalStats = (stats ctx)\<lparr>timeMs := now (clockReads ctx) - startTime\<rparr>
             in result1\<lparr>resStats := (if collectStats then Some finalStats else None)\<rparr>)"

section \<open>Double-precision products (the target givens of the generator)\<close>

text \<open>
  The generator computes \<open>Math.floor(totalCells * 0.45)\<close> and the like in IEEE 754 double
  precision.  A literal such as \<open>0.45\<close> denotes the double nearest to it, here written as an
  integer mantissa of 53 bits with the exponent \<open>-54\<close>; the product of that double and an
  integer is the exact product rounded to 53 significant bits, ties to even.
\<close>

function bitLength :: "int \<Rightarrow> nat" where
  "bitLength p = (if p \<le> 0 then 0 else Suc (bitLength (p div 2)))"
  by pat_completeness auto
termination
  by (relation "measure nat") auto

declare bitLength.simps [simp del]

text \<open>\<open>roundMantissa p\<close>: the mantissa \<open>p\<close> rounded to 53 bits, with the number of bits
  dropped.\<close>

definition roundMantissa :: "int \<Rightarrow> int \<times> nat" where
  "roundMantissa p =
     (if bitLength p \<le> 53 then (p, 0)
      else
        let s = bitLength p - 53;
            q = p div 2 ^ s;
            r = p mod 2 ^ s;
            half = 2 ^ (s - 1)
        in (if r > half \<or> (r = half \<and> odd q) then q + 1 else q, s))"

text \<open>\<open>floorTimes n m\<close> is \<open>Math.floor(n * d)\<close> for the double \<open>d = m * 2^-54\<close> and an
  integer \<open>n\<close> from 0 to \<open>2^53\<close>.\<close>

definition floorTimes :: "int \<Rightarrow> int \<Rightarrow> int" where
  "floorTimes n m =
     (case roundMantissa (n * m) of (q, s) \<Rightarrow> (q * 2 ^ s) div 2 ^ 54)"

definition double_0_45 :: int where "double_0_45 = 8106479329266893"
definition double_0_35 :: int where "double_0_35 = 6305039478318694"
definition double_0_3 :: int where "double_0_3 = 5404319552844595"
definition double_0_25 :: int where "double_0_25 = 4503599627370496"

section \<open>Puzzle generator (generators/generator.ts)\<close>

datatype DifficultyLevel = Easy | Medium | Hard | Expert

datatype SymmetryType = Rotational | Mirror | DiagonalSymmetry

datatype GeneratorPhase = GridPhase | PuzzlePhase

text \<open>
  \<open>GeneratorCallback\<close>.  The callback answers \<open>true\<close>, \<open>false\<close> or \<open>undefined\<close>, or raises;
  it is given the number of callback calls made before.  The grid it is handed is the grid
  the generator goes on working in, and it returns that grid as it leaves it.  Writes it
  makes later, through a reference it kept, are not modelled.
\<close>

type_synonym GeneratorCallback =
  "nat \<Rightarrow> GeneratorPhase \<Rightarrow> Grid \<Rightarrow> (error + bool option) \<times> Grid"

record GeneratorStats =
  genTimeMs :: int
  attempts :: nat
  fullGridsGenerated :: nat
  digAttempts :: nat
  refillAttempts :: nat

record GeneratorOptions =
  optDifficulty :: "DifficultyLevel option"
  optUniqueSolution :: "bool option"
  optMinGivens :: "int option"
  optMaxGivens :: "int option"
  optSymmetrical :: "bool option"
  optSymmetryType :: "SymmetryType option"
  optGenTimeoutMs :: "int option"
  optGenOnProgress :: "GeneratorCallback option"

datatype GeneratorFinishReason =
  GenSuccess | GenTimeout | GenInterrupted | GenError | GenNoSolution

record GeneratorResult =
  genSuccess :: bool
  puzzle :: "Grid option"
  solution :: "Grid option"
  genStats :: GeneratorStats
  genFinishReason :: GeneratorFinishReason
  errorMessage :: "error option"
  givensCount :: "nat option"
  difficulty :: "DifficultyLevel option"

text \<open>
  The environment of a run of the generator: \<open>genNow k\<close> is the \<open>k\<close>-th reading of
  \<open>Date.now()\<close> (readings that only go to the log are left out), \<open>genRandom k\<close> decides the
  \<open>k\<close>-th call of \<open>Math.random()\<close>: \<open>Math.floor(Math.random() * n)\<close> is
  \<open>genRandom k mod n\<close>, any index below \<open>n\<close>.  The state of a run holds the statistics
  and the numbers of readings, random calls and callback calls made so far.
\<close>

record GeneratorEnv =
  genNow :: "nat \<Rightarrow> int"
  genRandom :: "nat \<Rightarrow> nat"
  genOnProgress :: "GeneratorCallback option"

record GeneratorState =
  runStats :: GeneratorStats
  randomCalls :: nat
  genClockReads :: nat
  genProgressCalls :: nat

definition createDefaultGeneratorStats :: GeneratorStats where
  "createDefaultGeneratorStats =
     \<lparr>genTimeMs = 0, attempts = 0, fullGridsGenerated = 0, digAttempts = 0, refillAttempts = 0\<rparr>"

text \<open>\<open>shuffleArray\<close>: Fisher-Yates from the last index down to 1.\<close>

fun shuffleFrom :: "GeneratorEnv \<Rightarrow> nat \<Rightarrow> 'a list \<Rightarrow> GeneratorState \<Rightarrow> 'a list \<times> GeneratorState" where
  "shuffleFrom env 0 shuffled st = (shuffled, st)"
| "shuffleFrom env (Suc i) shuffled st =
     (let j = genRandom env (randomCalls st) mod (Suc i + 1)
      in shuffleFrom env i (shuffled[Suc i := shuffled ! j, j := shuffled ! Suc i])
           (st\<lparr>randomCalls := randomCalls st + 1\<rparr>))"

definition shuffleArray :: "GeneratorEnv \<Rightarrow> 'a list \<Rightarrow> GeneratorState \<Rightarrow> 'a list \<times> GeneratorState" where
  "shuffleArray env array st = shuffleFrom env (length array - 1) array st"

definition countGivens :: "Grid \<Rightarrow> nat" where
  "countGivens grid = length (filter (\<lambda>cell. cvalue cell \<noteq> 0) (concat grid))"

definition getSymmetricPosition :: "nat \<Rightarrow> nat \<Rightarrow> nat \<Rightarrow> SymmetryType \<Rightarrow> int \<times> int" where
  "getSymmetricPosition row col n t =
     (case t of
        Rotational \<Rightarrow> (int n - 1 - int row, int n - 1 - int col)
      | Mirror \<Rightarrow> (int n - 1 - int row, int col)
      | DiagonalSymmetry \<Rightarrow> (int col, int row))"

text \<open>A call of the generator's progress callback; the result is whether to go on, and
  the grid that was handed to the callback as the callback left it.\<close>

definition genNotify ::
  "GeneratorEnv \<Rightarrow> GeneratorPhase \<Rightarrow> Grid \<Rightarrow> GeneratorState \<Rightarrow>
   (error + bool) \<times> Grid \<times> GeneratorState" where
  "genNotify env phase grid st =
     (case genOnProgress env of
        None \<Rightarrow> (Inr True, grid, st)
      | Some f \<Rightarrow>
          (case f (genProgressCalls st) phase grid of
             (answer, written) \<Rightarrow>
               let st1 = st\<lparr>genProgressCalls := genProgressCalls st + 1\<rparr>;
                   grid1 = writtenGrid grid written
               in (case answer of
                     Inl e \<Rightarrow> (Inl e, grid1, st1)
                   | Inr a \<Rightarrow> (Inr (a \<noteq> Some False), grid1, st1))))"

text \<open>The \<open>while\<close> loop of \<open>fillGridWithBacktracking\<close> that looks for the next cell to fill.\<close>

function nextEmptyCell :: "Grid \<Rightarrow> nat \<Rightarrow> nat \<Rightarrow> nat \<Rightarrow> error + nat \<times> nat" where
  "nextEmptyCell grid n row col =
     (if row < n
      then (case cellAt grid row col of
              Inl e \<Rightarrow> Inl e
            | Inr cell \<Rightarrow>
                if cvalue cell \<noteq> 0
                then (if col + 1 \<ge> n then nextEmptyCell grid n (row + 1) 0
                      else nextEmptyCell grid n row (col + 1))
                else Inr (row, col))
      else Inr (row, col))"
  by pat_completeness auto
termination
  by (relation "measures [\<lambda>(grid, n, row, col). n - row, \<lambda>(grid, n, row, col). n - col]") auto

declare nextEmptyCell.simps [simp del]

text \<open>
  \<open>fillGridWithBacktracking\<close> fills the grid in place when it succeeds (it copies the
  filled grid of the recursive call back into its own); the model returns with \<open>True\<close> or
  \<open>False\<close> what the grid holds when the call returns.  The callback is handed \<open>tempGrid\<close>,
  in which the recursive call goes on; where \<open>setCellValue\<close> returned the grid itself,
  \<open>tempGrid\<close> and \<open>grid\<close> are one object and hold the same afterwards.  The first argument
  is the stack depth left, as for the solver.
\<close>

fun fillGridWithBacktracking ::
  "nat \<Rightarrow> GeneratorEnv \<Rightarrow> SudokuConfig \<Rightarrow> Grid \<Rightarrow> nat \<Rightarrow> nat \<Rightarrow> GeneratorState \<Rightarrow>
   (error + bool \<times> Grid) \<times> GeneratorState"
and fillNumbers ::
  "nat \<Rightarrow> GeneratorEnv \<Rightarrow> SudokuConfig \<Rightarrow> Grid \<Rightarrow> nat \<Rightarrow> nat \<Rightarrow> int list \<Rightarrow> GeneratorState \<Rightarrow>
   (error + bool \<times> Grid) \<times> GeneratorState" where
  "fillGridWithBacktracking 0 env cfg grid startRow startCol st = (Inl StackOverflow, st)"
| "fillGridWithBacktracking (Suc stack) env cfg grid startRow startCol st =
     (case nextEmptyCell grid (length grid) startRow startCol of
        Inl e \<Rightarrow> (Inl e, st)
      | Inr (row, col) \<Rightarrow>
          if row \<ge> length grid then (Inr (True, grid), st)
          else
            (case shuffleArray env (map int [1..<length grid + 1]) st of
               (numbers, st1) \<Rightarrow> fillNumbers stack env cfg grid row col numbers st1))"
| "fillNumbers stack env cfg grid row col [] st = (Inr (False, grid), st)"
| "fillNumbers stack env cfg grid row col (num # rest) st =
     (case setCellValue grid row col num False of
        Inl e \<Rightarrow> (Inl e, st)
      | Inr tempGrid \<Rightarrow>
          (case validateAllRegions tempGrid (regions cfg) of
             Inl e \<Rightarrow> (Inl e, st)
           | Inr validation \<Rightarrow>
               if isValid validation then
                 (case genNotify env GridPhase tempGrid st of
                    (Inl e, tempGrid1, st1) \<Rightarrow> (Inl e, st1)
                  | (Inr shouldContinue, tempGrid1, st1) \<Rightarrow>
                      if \<not> shouldContinue
                      then (Inr (False, if returnsItsGrid grid row col False
                                        then tempGrid1 else grid), st1)
                      else
                        (case fillGridWithBacktracking stack env cfg tempGrid1
                                (if col + 1 \<ge> length grid then row + 1 else row)
                                ((col + 1) mod length grid) st1 of
                           (Inl e, st2) \<Rightarrow> (Inl e, st2)
                         | (Inr (filled, tempGrid2), st2) \<Rightarrow>
                             if filled then (Inr (True, tempGrid2), st2)
                             else fillNumbers stack env cfg
                                    (if returnsItsGrid grid row col False
                                     then tempGrid2 else grid)
                                    row col rest st2))
               else fillNumbers stack env cfg grid row col rest st))"

definition generateFilledGrid ::
  "nat \<Rightarrow> GeneratorEnv \<Rightarrow> SudokuConfig \<Rightarrow> GeneratorState \<Rightarrow>
   (error + Grid option) \<times> GeneratorState" where
  "generateFilledGrid stack env cfg st =
     (case fillGridWithBacktracking stack env cfg (createEmptyGrid (nat (gsize cfg))) 0 0 st of
        (Inl e, st1) \<Rightarrow> (Inl e, st1)
      | (Inr (filled, grid), st1) \<Rightarrow> (Inr (if filled then Some grid else None), st1))"

text \<open>A direct write \<open>grid[row][col].value = v\<close> (and with it \<open>isPuzzle\<close>, when the source
  writes both); out of range the read of the cell gives \<open>undefined\<close> and the write raises.\<close>

definition writeCell :: "Grid \<Rightarrow> nat \<Rightarrow> nat \<Rightarrow> (CellState \<Rightarrow> CellState) \<Rightarrow> error + Grid" where
  "writeCell grid row col f =
     (case cellAt grid row col of
        Inl e \<Rightarrow> Inl e
      | Inr cell \<Rightarrow> Inr (grid[row := (grid ! row)[col := f cell]]))"

text \<open>\<open>hasUniqueSolution\<close>: the source's placeholder check.  It looks at the first empty
  cell only and answers \<open>false\<close> when some value other than the known solution's passes
  the region validation there.\<close>

fun otherValueFits :: "Grid \<Rightarrow> SudokuConfig \<Rightarrow> nat \<Rightarrow> nat \<Rightarrow> int \<Rightarrow> int list \<Rightarrow> error + bool" where
  "otherValueFits grid cfg r c correctValue [] = Inr False"
| "otherValueFits grid cfg r c correctValue (v # rest) =
     (if v \<noteq> correctValue
      then (case writeCell (cloneGrid grid) r c (\<lambda>cell. cell\<lparr>cvalue := v\<rparr>) of
              Inl e \<Rightarrow> Inl e
            | Inr testGrid \<Rightarrow>
                (case validateAllRegions testGrid (regions cfg) of
                   Inl e \<Rightarrow> Inl e
                 | Inr validation \<Rightarrow>
                     if isValid validation then Inr True
                     else otherValueFits grid cfg r c correctValue rest))
      else otherValueFits grid cfg r c correctValue rest)"

definition hasUniqueSolution ::
  "Grid \<Rightarrow> Grid \<Rightarrow> SudokuConfig \<Rightarrow> GeneratorState \<Rightarrow> (error + bool) \<times> GeneratorState" where
  "hasUniqueSolution grid sol cfg st =
     (let st1 = st\<lparr>runStats := (runStats st)\<lparr>refillAttempts := refillAttempts (runStats st) + 1\<rparr>\<rparr>
      in case emptyCoords grid of
           [] \<Rightarrow> (Inr True, st1)
         | (r, c) # _ \<Rightarrow>
             (case cellAt sol r c of
                Inl e \<Rightarrow> (Inl e, st1)
              | Inr solved \<Rightarrow>
                  (case otherValueFits grid cfg r c (cvalue solved)
                          (map int [1..<length grid + 1]) of
                     Inl e \<Rightarrow> (Inl e, st1)
                   | Inr fits \<Rightarrow> (Inr (\<not> fits), st1))))"

record DigOptions =
  digDifficulty :: DifficultyLevel
  digUniqueSolution :: bool
  digMinGivens :: int
  digMaxGivens :: int
  digSymmetrical :: bool
  digSymmetryType :: SymmetryType
  digTimeoutTimestamp :: int

text \<open>The target number of givens: the floor of the double-precision product, clamped by
  \<open>Math.max(minGivens, Math.min(targetGivens, maxGivens))\<close>.\<close>

definition targetGivensFor :: "DifficultyLevel \<Rightarrow> nat \<Rightarrow> int" where
  "targetGivensFor d totalCells =
     (case d of
        Easy \<Rightarrow> floorTimes (int totalCells) double_0_45
      | Medium \<Rightarrow> floorTimes (int totalCells) double_0_35
      | Hard \<Rightarrow> floorTimes (int totalCells) double_0_3
      | Expert \<Rightarrow> floorTimes (int totalCells) double_0_25)"

definition clampedTarget :: "DigOptions \<Rightarrow> nat \<Rightarrow> int" where
  "clampedTarget options totalCells =
     max (digMinGivens options)
         (min (targetGivensFor (digDifficulty options) totalCells) (digMaxGivens options))"

text \<open>What one attempt to remove a clue clears: the cell, and under symmetry its
  counterpart when that is another cell of the grid holding a value.\<close>

definition clearForDig :: "Grid \<Rightarrow> nat \<Rightarrow> nat \<Rightarrow> DigOptions \<Rightarrow> error + Grid" where
  "clearForDig workingGrid row col options =
     (case writeCell (cloneGrid workingGrid) row col
             (\<lambda>cell. cell\<lparr>cvalue := 0, isPuzzle := False\<rparr>) of
        Inl e \<Rightarrow> Inl e
      | Inr tempGrid \<Rightarrow>
          if digSymmetrical options then
            (case getSymmetricPosition row col (length workingGrid) (digSymmetryType options) of
               (symRow, symCol) \<Rightarrow>
                 if symRow \<ge> 0 \<and> symRow < int (length workingGrid)
                    \<and> symCol \<ge> 0 \<and> symCol < int (length workingGrid)
                    \<and> \<not> (symRow = int row \<and> symCol = int col)
                 then (case cellAt tempGrid (nat symRow) (nat symCol) of
                         Inl e \<Rightarrow> Inl e
                       | Inr symCell \<Rightarrow>
                           if cvalue symCell \<noteq> 0
                           then writeCell tempGrid (nat symRow) (nat symCol)
                                  (\<lambda>cell. cell\<lparr>cvalue := 0, isPuzzle := False\<rparr>)
                           else Inr tempGrid)
                 else Inr tempGrid)
          else Inr tempGrid)"

text \<open>The digging loop over the shuffled positions.  \<open>cannotRemove\<close> is a set of
  \<open>"row,col"\<close> keys; under symmetry the key of the counterpart is added whatever it is.
  The callback is handed the new working grid, in which the loop goes on and which
  \<open>digHoles\<close> returns.\<close>

fun digLoop ::
  "GeneratorEnv \<Rightarrow> SudokuConfig \<Rightarrow> Grid \<Rightarrow> DigOptions \<Rightarrow> int \<Rightarrow> Coord list \<Rightarrow>
   Grid \<Rightarrow> (int \<times> int) list \<Rightarrow> GeneratorState \<Rightarrow> (error + Grid) \<times> GeneratorState" where
  "digLoop env cfg sol options targetGivens [] workingGrid cannotRemove st =
     (Inr workingGrid, st)"
| "digLoop env cfg sol options targetGivens ((row, col) # rest) workingGrid cannotRemove st =
     (let st1 = st\<lparr>genClockReads := genClockReads st + 1\<rparr> in
      if genNow env (genClockReads st) > digTimeoutTimestamp options then (Inr workingGrid, st1)
      else
        (case cellAt workingGrid row col of
           Inl e \<Rightarrow> (Inl e, st1)
         | Inr cell \<Rightarrow>
             if cvalue cell = 0
             then digLoop env cfg sol options targetGivens rest workingGrid cannotRemove st1
             else if (int row, int col) \<in> set cannotRemove
             then digLoop env cfg sol options targetGivens rest workingGrid cannotRemove st1
             else
               let st2 = st1\<lparr>runStats :=
                              (runStats st1)\<lparr>digAttempts := digAttempts (runStats st1) + 1\<rparr>\<rparr>
               in if int (countGivens workingGrid) \<le> targetGivens then (Inr workingGrid, st2)
                  else
                    (case clearForDig workingGrid row col options of
                       Inl e \<Rightarrow> (Inl e, st2)
                     | Inr tempGrid \<Rightarrow>
                         (case (if digUniqueSolution options
                                then hasUniqueSolution tempGrid sol cfg st2
                                else (Inr True, st2)) of
                            (Inl e, st3) \<Rightarrow> (Inl e, st3)
                          | (Inr canRemove, st3) \<Rightarrow>
                              if canRemove then
                                (case genNotify env PuzzlePhase tempGrid st3 of
                                   (Inl e, workingGrid1, st4) \<Rightarrow> (Inl e, st4)
                                 | (Inr shouldContinue, workingGrid1, st4) \<Rightarrow>
                                     if \<not> shouldContinue then (Inr workingGrid1, st4)
                                     else digLoop env cfg sol options targetGivens rest
                                            workingGrid1 cannotRemove st4)
                              else
                                digLoop env cfg sol options targetGivens rest workingGrid
                                  (if digSymmetrical options
                                   then setAdd (setAdd cannotRemove (int row, int col))
                                          (getSymmetricPosition row col (length workingGrid)
                                             (digSymmetryType options))
                                   else setAdd cannotRemove (int row, int col))
                                  st3))))"

definition digHoles ::
  "GeneratorEnv \<Rightarrow> SudokuConfig \<Rightarrow> Grid \<Rightarrow> Grid \<Rightarrow> DigOptions \<Rightarrow> GeneratorState \<Rightarrow>
   (error + Grid) \<times> GeneratorState" where
  "digHoles env cfg grid sol options st =
     (let n = length grid;
          positions = concat (map (\<lambda>row. map (\<lambda>col. (row, col)) [0..<n]) [0..<n])
      in case shuffleArray env positions st of
           (shuffledPositions, st1) \<Rightarrow>
             digLoop env cfg sol options (clampedTarget options (n * n)) shuffledPositions
               (cloneGrid grid) [] st1)"

text \<open>The loop of \<open>generateSudoku\<close> that asks for a full grid, at most ten times; the
  finish reason it leaves is \<open>timeout\<close> when it saw the deadline passed.\<close>

fun fullGridAttempts ::
  "nat \<Rightarrow> nat \<Rightarrow> GeneratorEnv \<Rightarrow> SudokuConfig \<Rightarrow> int \<Rightarrow> GeneratorFinishReason \<Rightarrow> GeneratorState \<Rightarrow>
   (error + Grid option \<times> GeneratorFinishReason) \<times> GeneratorState" where
  "fullGridAttempts 0 stack env cfg deadline reason st = (Inr (None, reason), st)"
| "fullGridAttempts (Suc left) stack env cfg deadline reason st =
     (let st1 = st\<lparr>runStats := (runStats st)\<lparr>attempts := attempts (runStats st) + 1\<rparr>,
                   genClockReads := genClockReads st + 1\<rparr>
      in if genNow env (genClockReads st) > deadline then (Inr (None, GenTimeout), st1)
         else (case generateFilledGrid stack env cfg st1 of
                 (Inl e, st2) \<Rightarrow> (Inl e, st2)
               | (Inr (Some filledGrid), st2) \<Rightarrow> (Inr (Some filledGrid, reason), st2)
               | (Inr None, st2) \<Rightarrow>
                   fullGridAttempts left stack env cfg deadline reason st2))"

definition markGivens :: "Grid \<Rightarrow> Grid" where
  "markGivens grid =
     map (\<lambda>row. map (\<lambda>cell. if cvalue cell \<noteq> 0 then cell\<lparr>isPuzzle := True\<rparr> else cell) row) grid"

text \<open>The \<open>try\<close> block of \<open>generateSudoku\<close>: the exception it raised, if any, with the
  result record and the state as they are when the block is left.\<close>

definition generateSudokuTry ::
  "nat \<Rightarrow> GeneratorEnv \<Rightarrow> SudokuConfig \<Rightarrow> DigOptions \<Rightarrow> GeneratorResult \<Rightarrow> GeneratorState \<Rightarrow>
   error option \<times> GeneratorResult \<times> GeneratorState" where
  "generateSudokuTry stack env cfg options result st =
     (case fullGridAttempts 10 stack env cfg (digTimeoutTimestamp options)
             (genFinishReason result) st of
        (Inl e, st1) \<Rightarrow> (Some e, result, st1)
      | (Inr (None, reason), st1) \<Rightarrow> (None, result\<lparr>genFinishReason := GenError\<rparr>, st1)
      | (Inr (Some filledGrid, reason), st1) \<Rightarrow>
          let st2 = st1\<lparr>runStats := (runStats st1)
                          \<lparr>fullGridsGenerated := fullGridsGenerated (runStats st1) + 1\<rparr>\<rparr>;
              sol = cloneGrid filledGrid;
              result1 = result\<lparr>solution := Some sol, genFinishReason := reason\<rparr>;
              puzzleGrid = markGivens (cloneGrid sol)
          in (case digHoles env cfg puzzleGrid sol options st2 of
                (Inl e, st3) \<Rightarrow> (Some e, result1, st3)
              | (Inr modifiedPuzzle, st3) \<Rightarrow>
                  (None,
                   result1\<lparr>genSuccess := True, puzzle := Some modifiedPuzzle,
                           genFinishReason := GenSuccess,
                           givensCount := Some (countGivens modifiedPuzzle),
                           difficulty := Some (digDifficulty options)\<rparr>,
                   st3)))"

text \<open>
  \<open>generateSudoku\<close>.  The defaults of the options are those of the source (a quarter and a
  half of the cells for the bounds on the givens, both exact in double precision).  The
  \<open>catch\<close> block turns an exception into the finish reason \<open>error\<close> with the exception's
  message; the \<open>finally\<close> block stores the elapsed time.
\<close>

definition generateSudoku ::
  "nat \<Rightarrow> GeneratorEnv \<Rightarrow> SudokuConfig \<Rightarrow> GeneratorOptions \<Rightarrow> GeneratorResult" where
  "generateSudoku stack env cfg options =
     (let startTime = genNow env 0;
          digOptions =
            \<lparr>digDifficulty = (case optDifficulty options of None \<Rightarrow> Medium | Some d \<Rightarrow> d),
             digUniqueSolution = (case optUniqueSolution options of None \<Rightarrow> True | Some b \<Rightarrow> b),
             digMinGivens = (case optMinGivens options of
                               None \<Rightarrow> (gsize cfg * gsize cfg) div 4 | Some n \<Rightarrow> n),
             digMaxGivens = (case optMaxGivens options of
                               None \<Rightarrow> (gsize cfg * gsize cfg) div 2 | Some n \<Rightarrow> n),
             digSymmetrical = (case optSymmetrical options of None \<Rightarrow> False | Some b \<Rightarrow> b),
             digSymmetryType = (case optSymmetryType options of
                                  None \<Rightarrow> Rotational | Some t \<Rightarrow> t),
             digTimeoutTimestamp =
               startTime + (case optGenTimeoutMs options of None \<Rightarrow> 30000 | Some t \<Rightarrow> t)\<rparr>;
          result0 = \<lparr>genSuccess = False, puzzle = None, solution = None,
                     genStats = createDefaultGeneratorStats, genFinishReason = GenError,
                     errorMessage = None, givensCount = None, difficulty = None\<rparr>;
          st0 = \<lparr>runStats = createDefaultGeneratorStats, randomCalls = 0, genClockReads = 1,
                 genProgressCalls = 0\<rparr>
      in case generateSudokuTry stack (env\<lparr>genOnProgress := optGenOnProgress options\<rparr>) cfg
                digOptions result0 st0 of
           (raised, result, st) \<Rightarrow>
             let result1 = (case raised of
                              None \<Rightarrow> result
                            | Some e \<Rightarrow> result\<lparr>genFinishReason := GenError,
                                                errorMessage := Some e\<rparr>)
             in result1\<lparr>genStats := (runStats st)
                          \<lparr>genTimeMs := genNow env (genClockReads st) - startTime\<rparr>\<rparr>)"

section \<open>Auxiliary notions for the statements\<close>

text \<open>The value a grid holds at a coordinate inside it.\<close>

definition valueAt :: "Grid \<Rightarrow> Coord \<Rightarrow> int" where
  "valueAt grid p = cvalue (grid ! fst p ! snd p)"

definition positionsOf :: "ValuePositions \<Rightarrow> int \<Rightarrow> Coord list" where
  "positionsOf m v = (case map_of m v of None \<Rightarrow> [] | Some ps \<Rightarrow> ps)"

text \<open>The values \<open>1..31\<close> whose bit is set in a mask.\<close>

definition maskValues :: "int \<Rightarrow> int set" where
  "maskValues m = {v. 1 \<le> v \<and> v \<le> 31 \<and> bit (toInt32 m) (nat v)}"

text \<open>The values \<open>1..31\<close> held by the cells of a region other than \<open>(row, col)\<close>.\<close>

definition conflicts :: "Grid \<Rightarrow> nat \<Rightarrow> nat \<Rightarrow> Region \<Rightarrow> int set" where
  "conflicts grid row col region =
     {v. 1 \<le> v \<and> v \<le> 31 \<and> (\<exists>p \<in> set (cells region). p \<noteq> (row, col) \<and> valueAt grid p = v)}"

text \<open>The values some active variant rule excludes at a cell.\<close>

definition excludedByRules :: "Grid \<Rightarrow> nat \<Rightarrow> nat \<Rightarrow> SudokuConfig \<Rightarrow> int set" where
  "excludedByRules grid row col cfg =
     {v. \<exists>rule \<in> set (variantRules cfg). \<exists>f xs.
           getExcludedCandidates rule = Some f
           \<and> f grid row col (ConfigCore.truncate cfg) = Inr xs \<and> v \<in> set xs}"

text \<open>A grid given by its values, row by row; a cell with a non-zero value is a given.  For
  a square array of numbers it is the grid \<open>createGridFromValues\<close> of grid/create.ts builds.\<close>

definition gridOfValues :: "int list list \<Rightarrow> Grid" where
  "gridOfValues values =
     map (map (\<lambda>v. \<lparr>cvalue = v, isPuzzle = (v \<noteq> 0), cnotes = {}, cerror = Some False,
                      highlight = None, animationState = None\<rparr>))
         values"

text \<open>An example: a 4x4 grid holding a single 1 in the top left corner, under the standard
  regions with the diagonal rule active (the configuration of the repository's
  documentation: standard regions, \<open>variantRules: [new DiagonalVariant()]\<close>).\<close>

definition cornerGrid :: Grid where
  "cornerGrid = gridOfValues [[1, 0, 0, 0], [0, 0, 0, 0], [0, 0, 0, 0], [0, 0, 0, 0]]"

definition diagonalConfig :: SudokuConfig where
  "diagonalConfig =
     \<lparr>gsize = 4, blockWidth = 2, blockHeight = 2, regions = generateStandardRegions 4 2 2,
      variantRules = [DiagonalVariant]\<rparr>"

text \<open>\<open>agreesOnGivens g h\<close>: every given cell of \<open>g\<close> is the same cell in \<open>h\<close>.\<close>

definition agreesOnGivens :: "Grid \<Rightarrow> Grid \<Rightarrow> bool" where
  "agreesOnGivens g h =
     (\<forall>r c cell. cellAt g r c = Inr cell \<and> isPuzzle cell \<longrightarrow> cellAt h r c = Inr cell)"

text \<open>The cell \<open>setCellValue\<close> writes outside editing mode.\<close>

definition filledCell :: "CellState \<Rightarrow> int \<Rightarrow> CellState" where
  "filledCell c v = c\<lparr>cvalue := v, isPuzzle := False, cnotes := {}, animationState := Some Changed\<rparr>"

text \<open>A callback that leaves the grids it is handed as they are: there is none, or it
  returns them unchanged at every call.\<close>

definition leavesSolutions :: "SolveCallback option \<Rightarrow> bool" where
  "leavesSolutions cb =
     (case cb of None \<Rightarrow> True | Some f \<Rightarrow> \<forall>k ev grids. snd (f k ev grids) = grids)"

definition leavesGrid :: "GeneratorCallback option \<Rightarrow> bool" where
  "leavesGrid cb =
     (case cb of None \<Rightarrow> True | Some f \<Rightarrow> \<forall>k phase grid. snd (f k phase grid) = grid)"

text \<open>The later context has the callback of the earlier one, and its solutions if the
  callback leaves them as they are.\<close>

definition kept :: "BacktrackingContext \<Rightarrow> BacktrackingContext \<Rightarrow> bool" where
  "kept ctx ctx' =
     (onProgress ctx' = onProgress ctx
      \<and> (leavesSolutions (onProgress ctx) \<longrightarrow> solutions ctx' = solutions ctx))"

text \<open>The later context has the callback of the earlier one; if the callback leaves the
  solutions as they are, every solution of the later context is one of the earlier context
  or agrees with \<open>g\<close> on the givens of \<open>g\<close>.\<close>

definition grows :: "Grid \<Rightarrow> BacktrackingContext \<Rightarrow> BacktrackingContext \<Rightarrow> bool" where
  "grows g ctx ctx' =
     (onProgress ctx' = onProgress ctx
      \<and> (leavesSolutions (onProgress ctx) \<longrightarrow>
           (\<forall>h \<in> set (solutions ctx'). h \<in> set (solutions ctx) \<or> agreesOnGivens g h)))"

text \<open>Callbacks that write: one puts 9 into the top left cell of every solution it has
  been handed, one puts 1 into the top left cell of the puzzle it is handed.  Both answer
  \<open>undefined\<close>.\<close>

definition writeCorner :: "int \<Rightarrow> Grid \<Rightarrow> Grid" where
  "writeCorner v grid =
     (case grid of
        (cell # others) # rows \<Rightarrow> (cell\<lparr>cvalue := v\<rparr> # others) # rows
      | _ \<Rightarrow> grid)"

definition scribblingSolveCallback :: SolveCallback where
  "scribblingSolveCallback k ev grids = (Inr None, map (writeCorner 9) grids)"

definition scribblingGeneratorCallback :: GeneratorCallback where
  "scribblingGeneratorCallback k phase grid =
     (Inr None, if phase = PuzzlePhase then writeCorner 1 grid else grid)"

text \<open>Example data: the regions of a Latin square (rows and columns, as in the
  candidate tests of the repository), and the options left at their defaults.\<close>

definition latinConfig :: "nat \<Rightarrow> SudokuConfig" where
  "latinConfig n =
     \<lparr>gsize = int n, blockWidth = int n, blockHeight = 1,
      regions = generateRowRegions n @ generateColumnRegions n, variantRules = []\<rparr>"

definition defaultSolverOptions :: SolverOptions where
  "defaultSolverOptions =
     \<lparr>optFindAllSolutions = None, optMaxSolutions = None, optTimeoutMs = None,
      optCollectStats = None, optOnProgress = None, optStrategy = None\<rparr>"

definition oneGivenGrid :: Grid where
  "oneGivenGrid = gridOfValues [[1, 0], [0, 0]]"

text \<open>The fractions of the difficulty tiers, in percent: 0.45, 0.35, 0.30 and 0.25.\<close>

definition difficultyPercent :: "DifficultyLevel \<Rightarrow> int" where
  "difficultyPercent d = (case d of Easy \<Rightarrow> 45 | Medium \<Rightarrow> 35 | Hard \<Rightarrow> 30 | Expert \<Rightarrow> 25)"

text \<open>Example data for runs of the generator: a clock that stands still, a random source
  that always returns 0, no callback; and the options left at their defaults.\<close>

definition stillEnv :: GeneratorEnv where
  "stillEnv = \<lparr>genNow = (\<lambda>k. 0), genRandom = (\<lambda>k. 0), genOnProgress = None\<rparr>"

definition initialGeneratorState :: GeneratorState where
  "initialGeneratorState =
     \<lparr>runStats = createDefaultGeneratorStats, randomCalls = 0, genClockReads = 1,
      genProgressCalls = 0\<rparr>"

definition defaultGeneratorOptions :: GeneratorOptions where
  "defaultGeneratorOptions =
     \<lparr>optDifficulty = None, optUniqueSolution = None, optMinGivens = None,
      optMaxGivens = None, optSymmetrical = None, optSymmetryType = None,
      optGenTimeoutMs = None, optGenOnProgress = None\<rparr>"

definition mediumDigOptions :: DigOptions where
  "mediumDigOptions =
     \<lparr>digDifficulty = Medium, digUniqueSolution = True, digMinGivens = 4, digMaxGivens = 8,
      digSymmetrical = False, digSymmetryType = Rotational, digTimeoutTimestamp = 30000\<rparr>"

text \<open>Grids without givens, and what a dug puzzle is to its solution, cell by cell: a
  cell with a value holds the solution's value and is a given, an empty cell is not a
  given.\<close>

definition noGivens :: "Grid \<Rightarrow> bool" where
  "noGivens g = (\<forall>row \<in> set g. \<forall>cell \<in> set row. \<not> isPuzzle cell)"

definition holeOf :: "CellState \<Rightarrow> CellState \<Rightarrow> bool" where
  "holeOf sc pc =
     ((cvalue pc \<noteq> 0 \<longrightarrow> cvalue pc = cvalue sc \<and> isPuzzle pc)
      \<and> (cvalue pc = 0 \<longrightarrow> \<not> isPuzzle pc))"

definition dugFrom :: "Grid \<Rightarrow> Grid \<Rightarrow> bool" where
  "dugFrom sol w = list_all2 (list_all2 holeOf) sol w"

text \<open>The \<open>try\<close> block of \<open>generateSudoku\<close> after the full grid and after the digging,
  by cases on what they returned.\<close>

fun afterDig ::
  "DigOptions \<Rightarrow> GeneratorResult \<Rightarrow> (error + Grid) \<times> GeneratorState \<Rightarrow>
   error option \<times> GeneratorResult \<times> GeneratorState" where
  "afterDig options result1 (Inl e, st3) = (Some e, result1, st3)"
| "afterDig options result1 (Inr modifiedPuzzle, st3) =
     (None,
      result1\<lparr>genSuccess := True, puzzle := Some modifiedPuzzle,
              genFinishReason := GenSuccess,
              givensCount := Some (countGivens modifiedPuzzle),
              difficulty := Some (digDifficulty options)\<rparr>,
      st3)"

fun afterFill ::
  "GeneratorEnv \<Rightarrow> SudokuConfig \<Rightarrow> DigOptions \<Rightarrow> GeneratorResult \<Rightarrow>
   (error + Grid option \<times> GeneratorFinishReason) \<times> GeneratorState \<Rightarrow>
   error option \<times> GeneratorResult \<times> GeneratorState" where
  "afterFill env cfg options result (Inl e, st1) = (Some e, result, st1)"
| "afterFill env cfg options result (Inr (None, reason), st1) =
     (None, result\<lparr>genFinishReason := GenError\<rparr>, st1)"
| "afterFill env cfg options result (Inr (Some filledGrid, reason), st1) =
     afterDig options (result\<lparr>solution := Some filledGrid, genFinishReason := reason\<rparr>)
       (digHoles env cfg (markGivens filledGrid) filledGrid options
          (st1\<lparr>runStats := (runStats st1)
                   \<lparr>fullGridsGenerated := fullGridsGenerated (runStats st1) + 1\<rparr>\<rparr>))"

text \<open>The options of \<open>generateSudoku\<close> with the defaults of the source filled in (a
  quarter and a half of the cells for the bounds on the givens), the result record the run
  starts from, and the environment with the callback of the options.\<close>

definition digOptionsOf :: "GeneratorEnv \<Rightarrow> SudokuConfig \<Rightarrow> GeneratorOptions \<Rightarrow> DigOptions" where
  "digOptionsOf env cfg options =
     \<lparr>digDifficulty = (case optDifficulty options of None \<Rightarrow> Medium | Some d \<Rightarrow> d),
      digUniqueSolution = (case optUniqueSolution options of None \<Rightarrow> True | Some b \<Rightarrow> b),
      digMinGivens = (case optMinGivens options of
                        None \<Rightarrow> (gsize cfg * gsize cfg) div 4 | Some n \<Rightarrow> n),
      digMaxGivens = (case optMaxGivens options of
                        None \<Rightarrow> (gsize cfg * gsize cfg) div 2 | Some n \<Rightarrow> n),
      digSymmetrical = (case optSymmetrical options of None \<Rightarrow> False | Some b \<Rightarrow> b),
      digSymmetryType = (case optSymmetryType options of None \<Rightarrow> Rotational | Some t \<Rightarrow> t),
      digTimeoutTimestamp =
        genNow env 0 + (case optGenTimeoutMs options of None \<Rightarrow> 30000 | Some t \<Rightarrow> t)\<rparr>"

definition emptyResult :: GeneratorResult where
  "emptyResult =
     \<lparr>genSuccess = False, puzzle = None, solution = None,
      genStats = createDefaultGeneratorStats, genFinishReason = GenError,
      errorMessage = None, givensCount = None, difficulty = None\<rparr>"

definition callbackEnv :: "GeneratorEnv \<Rightarrow> GeneratorOptions \<Rightarrow> GeneratorEnv" where
  "callbackEnv env options = env\<lparr>genOnProgress := optGenOnProgress options\<rparr>"

text \<open>Options of a digging run without the uniqueness check, for a 2 by 2 grid.\<close>

definition plainDigOptions :: DigOptions where
  "plainDigOptions = mediumDigOptions\<lparr>digUniqueSolution := False, digMinGivens := 1, digMaxGivens := 2\<rparr>"

text \<open>The default options of the generator with the callback that writes.\<close>

definition scribbledGeneratorOptions :: GeneratorOptions where
  "scribbledGeneratorOptions =
     defaultGeneratorOptions\<lparr>optGenOnProgress := Some scribblingGeneratorCallback\<rparr>"

text \<open>The default options of the solver with the callback that writes.\<close>

definition scribbledSolverOptions :: SolverOptions where
  "scribbledSolverOptions =
     defaultSolverOptions\<lparr>optOnProgress := Some scribblingSolveCallback\<rparr>"

text \<open>The options of a digging run as \<open>generateSudoku\<close> makes them by default for a 2 by 2
  grid: at least one given, at most two.\<close>

definition smallDigOptions :: DigOptions where
  "smallDigOptions = mediumDigOptions\<lparr>digMinGivens := 1, digMaxGivens := 2\<rparr>"

text \<open>Clocks that pass the default deadline of 30000 ms: one at the first reading after
  the start of the run, one at the first reading of the digging loop.\<close>

definition lateEnv :: GeneratorEnv where
  "lateEnv = \<lparr>genNow = (\<lambda>k. if k = 0 then 0 else 40000), genRandom = (\<lambda>k. 0),
              genOnProgress = None\<rparr>"

definition lateDigEnv :: GeneratorEnv where
  "lateDigEnv = \<lparr>genNow = (\<lambda>k. if k < 2 then 0 else 40000), genRandom = (\<lambda>k. 0),
                 genOnProgress = None\<rparr>"

text \<open>What \<open>solveSudoku\<close> makes of its options: the strategy, the context the search starts
  from, and the result record the run starts from.\<close>

definition strategyOf :: "SolverOptions \<Rightarrow> Strategy" where
  "strategyOf options = (case optStrategy options of None \<Rightarrow> Fastest | Some s \<Rightarrow> s)"

definition contextOf ::
  "(nat \<Rightarrow> int) \<Rightarrow> Grid \<Rightarrow> SudokuConfig \<Rightarrow> SolverOptions \<Rightarrow> BacktrackingContext" where
  "contextOf now grid cfg options =
     \<lparr>config = cfg, onProgress = optOnProgress options,
      findAllSolutions = (case optFindAllSolutions options of None \<Rightarrow> False | Some b \<Rightarrow> b),
      maxSolutions = (case optMaxSolutions options of None \<Rightarrow> 1 | Some n \<Rightarrow> n),
      timeoutTimestamp =
        (if (case optTimeoutMs options of None \<Rightarrow> 30000 | Some t \<Rightarrow> t) \<noteq> 0
         then Some (now 0 + (case optTimeoutMs options of None \<Rightarrow> 30000 | Some t \<Rightarrow> t))
         else None),
      solutions = [], interrupted = False, stats = createDefaultSolverStats,
      getCandidatesForCell = solverCandidates grid cfg,
      recursionCounter = Some 0, dateNow = now, clockReads = 1, progressCalls = 0\<rparr>"

definition emptySolverResult :: SolverResult where
  "emptySolverResult =
     \<lparr>success = False, resSolutions = [], resStats = None,
      finishReason = FinishError, failReason = None\<rparr>"

text \<open>A configuration whose regions reach outside the grid of its size: the regions of the
  2 by 2 Latin square with size 1.\<close>

definition brokenConfig :: SudokuConfig where
  "brokenConfig = (latinConfig 2)\<lparr>gsize := 1\<rparr>"

text \<open>The standard 4 by 4 configuration (rows, columns and 2 by 2 blocks, no variant rule),
  and three grids: a puzzle with five clues and two full grids.\<close>

definition standardConfig4 :: SudokuConfig where
  "standardConfig4 =
     \<lparr>gsize = 4, blockWidth = 2, blockHeight = 2, regions = generateStandardRegions 4 2 2,
      variantRules = []\<rparr>"

definition fiveClues :: "int list list" where
  "fiveClues = [[2, 0, 0, 0], [0, 1, 0, 0], [0, 0, 0, 0], [0, 4, 3, 2]]"

definition firstSolution :: "int list list" where
  "firstSolution = [[2, 3, 4, 1], [4, 1, 2, 3], [3, 2, 1, 4], [1, 4, 3, 2]]"

definition secondSolution :: "int list list" where
  "secondSolution = [[2, 3, 1, 4], [4, 1, 2, 3], [3, 2, 4, 1], [1, 4, 3, 2]]"

text \<open>A full grid of values solves a puzzle of values: it has no 0, holds the clues of the
  puzzle, and passes the validation of the configuration.\<close>

definition solves :: "SudokuConfig \<Rightarrow> int list list \<Rightarrow> int list list \<Rightarrow> bool" where
  "solves cfg puzzleValues values =
     (list_all2 (list_all2 (\<lambda>p v. v \<in> {1..gsize cfg} \<and> (p = 0 \<or> p = v))) puzzleValues values
      \<and> (case validateAllRegions (gridOfValues values) (regions cfg) of
            Inl e \<Rightarrow> False
          | Inr validation \<Rightarrow> isValid validation))"

section \<open>Properties of the bitmask primitives\<close>

text \<open>
  Claim C9.  Outside \<open>1..31\<close> the guarded primitives do nothing: \<open>valueToBitmask\<close> gives the
  empty mask, \<open>hasBit\<close> is false, \<open>addBit\<close> and \<open>removeBit\<close> return the mask they were
  given, for every mask; \<open>createFullBitmask\<close> is the only primitive with an error result,
  and it has one exactly for a size outside \<open>1..31\<close>.
\<close>

theorem bitmask_guards:
  "(v \<le> 0 \<or> v > 31 \<longrightarrow>
      valueToBitmask v = 0 \<and> \<not> hasBit m v \<and> addBit m v = m \<and> removeBit m v = m)
   \<and> ((\<exists>e. createFullBitmask n = Inl e) \<longleftrightarrow> (n \<le> 0 \<or> n > 31))"
  by (simp add: valueToBitmask_def hasBit_def addBit_def removeBit_def createFullBitmask_def)

theorem bitmask_guards_witness:
  "((32::int) \<le> 0 \<or> (32::int) > 31) \<and> valueToBitmask 32 = 0 \<and> \<not> hasBit 6 32
   \<and> addBit 6 32 = 6 \<and> removeBit 6 32 = 6
   \<and> (\<exists>e. createFullBitmask 0 = Inl e) \<and> (\<nexists>e. createFullBitmask 9 = Inl e)"
  using bitmask_guards [of 32 6 0] bitmask_guards [of 32 6 9] by simp

section \<open>Duplicate check: what the report contains\<close>

lemma recordPosition_keys:
  "map fst (recordPosition m v p) = (if v \<in> fst ` set m then map fst m else map fst m @ [v])"
  by (induction m v p rule: recordPosition.induct) auto

lemma recordPosition_positionsOf:
  "positionsOf (recordPosition m v p) w =
     (if w = v then positionsOf m v @ [p] else positionsOf m w)"
  by (induction m v p rule: recordPosition.induct) (auto simp: positionsOf_def)

lemma recordPosition_keyset:
  "fst ` set (recordPosition m v p) = insert v (fst ` set m)"
  by (induction m v p rule: recordPosition.induct) auto

lemma recordPosition_distinct:
  "distinct (map fst m) \<Longrightarrow> distinct (map fst (recordPosition m v p))"
  by (simp add: recordPosition_keys)

lemma collectPositions_spec:
  assumes "\<forall>(r, c) \<in> set coords. r < length grid \<and> c < length (grid ! r)"
  shows "\<exists>m' u'. collectPositions grid coords (m, u) = Inr (m', u')
     \<and> (distinct (map fst m) \<longrightarrow> distinct (map fst m'))
     \<and> fst ` set m' = fst ` set m \<union> {valueAt grid p | p. p \<in> set coords \<and> valueAt grid p \<noteq> 0}
     \<and> (\<forall>v. positionsOf m' v =
            positionsOf m v @ filter (\<lambda>p. valueAt grid p = v \<and> v \<noteq> 0) coords)"
  using assms
proof (induction coords arbitrary: m u)
  case Nil
  then show ?case by simp
next
  case (Cons p coords)
  obtain row col where p: "p = (row, col)" by (cases p)
  from Cons.prems p have inr: "cellAt grid row col = Inr (grid ! row ! col)"
    by (simp add: cellAt_def)
  from Cons.prems have rest: "\<forall>(r, c) \<in> set coords. r < length grid \<and> c < length (grid ! r)"
    by simp
  show ?case
  proof (cases "cvalue (grid ! row ! col) = 0")
    case True
    from Cons.IH [OF rest, of m u] obtain m' u' where
      "collectPositions grid coords (m, u) = Inr (m', u')"
      "distinct (map fst m) \<longrightarrow> distinct (map fst m')"
      "fst ` set m' = fst ` set m \<union> {valueAt grid p | p. p \<in> set coords \<and> valueAt grid p \<noteq> 0}"
      "\<forall>v. positionsOf m' v = positionsOf m v @ filter (\<lambda>p. valueAt grid p = v \<and> v \<noteq> 0) coords"
      by blast
    with True p inr show ?thesis
      by (auto simp: valueAt_def)
  next
    case False
    let ?m1 = "recordPosition m (cvalue (grid ! row ! col)) (row, col)"
    let ?u1 = "if js_and u (valueToBitmask (cvalue (grid ! row ! col))) \<noteq> 0 then u
               else js_or u (valueToBitmask (cvalue (grid ! row ! col)))"
    from Cons.IH [OF rest, of ?m1 ?u1] obtain m' u' where r:
      "collectPositions grid coords (?m1, ?u1) = Inr (m', u')"
      "distinct (map fst ?m1) \<longrightarrow> distinct (map fst m')"
      "fst ` set m' = fst ` set ?m1 \<union> {valueAt grid p | p. p \<in> set coords \<and> valueAt grid p \<noteq> 0}"
      "\<forall>v. positionsOf m' v = positionsOf ?m1 v @ filter (\<lambda>p. valueAt grid p = v \<and> v \<noteq> 0) coords"
      by blast
    have step: "collectPositions grid (p # coords) (m, u) = collectPositions grid coords (?m1, ?u1)"
      using False p inr by (simp add: Let_def)
    have keys: "fst ` set ?m1 = insert (cvalue (grid ! row ! col)) (fst ` set m)"
      by (rule recordPosition_keyset)
    show ?thesis
      unfolding step
      apply (rule exI [of _ m'], rule exI [of _ u'])
      using r False p keys
      by (auto simp: recordPosition_distinct recordPosition_positionsOf valueAt_def)
  qed
qed

lemma reportDuplicates_spec:
  "duplicates (reportDuplicates m rep) =
     duplicates rep @ concat (map snd (filter (\<lambda>e. length (snd e) > 1) m))
   \<and> sources (reportDuplicates m rep) =
     sources rep @ map (\<lambda>e. hd (snd e)) (filter (\<lambda>e. length (snd e) > 1) m)"
  by (induction m rep rule: reportDuplicates.induct) auto

lemma mset_concat_groups:
  "distinct ks \<Longrightarrow>
   mset (concat (map (\<lambda>k. filter (\<lambda>p. f p = k) xs) ks)) = mset (filter (\<lambda>p. f p \<in> set ks) xs)"
proof (induction ks)
  case Nil
  then show ?case by simp
next
  case (Cons k ks)
  have "mset (filter (\<lambda>p. f p \<in> set (k # ks)) xs)
      = mset (filter (\<lambda>p. f p = k) xs) + mset (filter (\<lambda>p. f p \<in> set ks) xs)"
    using Cons.prems by (induction xs) auto
  with Cons show ?case by simp
qed

lemma find_filter_hd:
  "filter P xs \<noteq> [] \<Longrightarrow> List.find P xs = Some (hd (filter P xs))"
  by (induction xs) auto

lemma entries_by_key:
  assumes "distinct (map fst m)"
  shows "m = map (\<lambda>k. (k, positionsOf m k)) (map fst m)"
proof -
  have "\<And>e. e \<in> set m \<Longrightarrow> positionsOf m (fst e) = snd e"
    using assms by (auto simp: positionsOf_def)
  then have "map (\<lambda>e. (fst e, positionsOf m (fst e))) m = map (\<lambda>e. e) m"
    by (intro map_cong) auto
  then show ?thesis by (simp add: comp_def)
qed

lemma hd_filter_sat: "filter P xs \<noteq> [] \<Longrightarrow> P (hd (filter P xs))"
  by (induction xs) auto

text \<open>
  Claim C7.  For coordinates inside the grid, \<open>checkDuplicatesBitmask\<close> returns a report
  whose \<open>duplicates\<close> are exactly the listed coordinates, each as often as it is listed,
  that hold a non-zero value occurring at two or more listed coordinates (cells holding 0
  never appear), and whose \<open>sources\<close> are, one for each such value, the first listed
  coordinate holding it.
\<close>

theorem checkDuplicatesBitmask_spec:
  assumes "\<forall>(r, c) \<in> set cellCoords. r < length grid \<and> c < length (grid ! r)"
  shows "\<exists>rep. checkDuplicatesBitmask grid cellCoords = Inr rep
     \<and> mset (duplicates rep) =
         mset (filter (\<lambda>p. valueAt grid p \<noteq> 0 \<and>
                 2 \<le> length (filter (\<lambda>q. valueAt grid q = valueAt grid p) cellCoords)) cellCoords)
     \<and> set (sources rep) =
         {s. \<exists>v. v \<noteq> 0 \<and> 2 \<le> length (filter (\<lambda>q. valueAt grid q = v) cellCoords)
                \<and> List.find (\<lambda>q. valueAt grid q = v) cellCoords = Some s}
     \<and> distinct (map (valueAt grid) (sources rep))"
proof -
  define occ where "occ v = filter (\<lambda>q. valueAt grid q = v) cellCoords" for v
  from collectPositions_spec [OF assms, of "[]" 0] obtain m' u' where
    run: "collectPositions grid cellCoords ([], 0) = Inr (m', u')"
    and dist: "distinct (map fst m')"
    and keys: "fst ` set m' = {valueAt grid p | p. p \<in> set cellCoords \<and> valueAt grid p \<noteq> 0}"
    and pos: "\<forall>v. positionsOf m' v = filter (\<lambda>p. valueAt grid p = v \<and> v \<noteq> 0) cellCoords"
    by (auto simp: positionsOf_def)
  define ks where "ks = map fst m'"
  have ks_nz: "\<And>k. k \<in> set ks \<Longrightarrow> k \<noteq> 0" using keys by (auto simp: ks_def)
  have ks_set: "set ks = {valueAt grid p | p. p \<in> set cellCoords \<and> valueAt grid p \<noteq> 0}"
    using keys by (simp add: ks_def)
  have pos_occ: "\<And>k. k \<in> set ks \<Longrightarrow> positionsOf m' k = occ k"
    using pos ks_nz by (simp add: occ_def)
  have m'_eq: "m' = map (\<lambda>k. (k, occ k)) ks"
  proof -
    have "m' = map (\<lambda>k. (k, positionsOf m' k)) ks"
      unfolding ks_def by (rule entries_by_key [OF dist])
    also have "\<dots> = map (\<lambda>k. (k, occ k)) ks"
      by (intro map_cong) (auto simp: pos_occ)
    finally show ?thesis .
  qed
  define dk where "dk = filter (\<lambda>k. length (occ k) > 1) ks"
  have dk_dist: "distinct dk" using dist by (simp add: dk_def ks_def)
  have fl: "filter (\<lambda>e. length (snd e) > 1) m' = map (\<lambda>k. (k, occ k)) dk"
    by (subst m'_eq) (simp add: dk_def filter_map comp_def)
  define rep where "rep = reportDuplicates m' \<lparr>duplicates = [], sources = []\<rparr>"
  have res: "checkDuplicatesBitmask grid cellCoords = Inr rep"
    by (simp add: checkDuplicatesBitmask_def run rep_def)
  have dups: "duplicates rep = concat (map occ dk)"
    and srcs: "sources rep = map (\<lambda>k. hd (occ k)) dk"
    using reportDuplicates_spec [of m' "\<lparr>duplicates = [], sources = []\<rparr>"]
    using fl by (simp_all add: rep_def comp_def)
  have dk_set: "set dk = {v. v \<noteq> 0 \<and> 2 \<le> length (occ v)}"
  proof (intro set_eqI iffI)
    fix v assume "v \<in> set dk"
    then show "v \<in> {v. v \<noteq> 0 \<and> 2 \<le> length (occ v)}"
      using ks_nz by (auto simp: dk_def)
  next
    fix v assume "v \<in> {v. v \<noteq> 0 \<and> 2 \<le> length (occ v)}"
    then have nz: "v \<noteq> 0" and two: "2 \<le> length (occ v)" by auto
    from two have "occ v \<noteq> []" by auto
    then obtain p where "p \<in> set (occ v)" by (cases "occ v") auto
    then have "p \<in> set cellCoords" "valueAt grid p = v" by (auto simp: occ_def)
    with nz have "v \<in> set ks" unfolding ks_set by (cases p) auto
    with two show "v \<in> set dk" by (simp add: dk_def)
  qed
  have "mset (duplicates rep) = mset (filter (\<lambda>p. valueAt grid p \<in> set dk) cellCoords)"
    unfolding dups occ_def using mset_concat_groups [OF dk_dist, of "valueAt grid" cellCoords]
    by simp
  then have c1: "mset (duplicates rep) =
         mset (filter (\<lambda>p. valueAt grid p \<noteq> 0 \<and>
                 2 \<le> length (filter (\<lambda>q. valueAt grid q = valueAt grid p) cellCoords)) cellCoords)"
    by (simp add: dk_set occ_def)
  have hd_find: "\<And>k. k \<in> set dk \<Longrightarrow>
      List.find (\<lambda>q. valueAt grid q = k) cellCoords = Some (hd (occ k))"
    unfolding occ_def by (rule find_filter_hd) (auto simp: dk_set occ_def)
  have c2: "set (sources rep) =
         {s. \<exists>v. v \<noteq> 0 \<and> 2 \<le> length (filter (\<lambda>q. valueAt grid q = v) cellCoords)
                \<and> List.find (\<lambda>q. valueAt grid q = v) cellCoords = Some s}"
  proof (intro set_eqI iffI)
    fix s assume "s \<in> set (sources rep)"
    then obtain k where k: "k \<in> set dk" "s = hd (occ k)" by (auto simp: srcs)
    with hd_find [OF k(1)] show "s \<in> {s. \<exists>v. v \<noteq> 0 \<and> 2 \<le> length (filter (\<lambda>q. valueAt grid q = v) cellCoords)
                \<and> List.find (\<lambda>q. valueAt grid q = v) cellCoords = Some s}"
      using dk_set by (auto simp: occ_def)
  next
    fix s assume "s \<in> {s. \<exists>v. v \<noteq> 0 \<and> 2 \<le> length (filter (\<lambda>q. valueAt grid q = v) cellCoords)
                \<and> List.find (\<lambda>q. valueAt grid q = v) cellCoords = Some s}"
    then obtain v where v: "v \<noteq> 0" "2 \<le> length (occ v)"
      "List.find (\<lambda>q. valueAt grid q = v) cellCoords = Some s" by (auto simp: occ_def)
    then have "v \<in> set dk" by (simp add: dk_set)
    with hd_find [of v] v(3) show "s \<in> set (sources rep)" by (auto simp: srcs)
  qed
  have "map (valueAt grid) (sources rep) = map (\<lambda>k. k) dk"
    unfolding srcs map_map
  proof (intro map_cong refl)
    fix k assume "k \<in> set dk"
    then have "occ k \<noteq> []" by (auto simp: dk_set)
    then show "(valueAt grid \<circ> (\<lambda>k. hd (occ k))) k = k"
      unfolding occ_def comp_def by (rule hd_filter_sat)
  qed
  then have c3: "distinct (map (valueAt grid) (sources rep))" using dk_dist by simp
  from res c1 c2 c3 show ?thesis by blast
qed

theorem checkDuplicatesBitmask_spec_witness:
  "list_all (\<lambda>(r, c). r < length (gridOfValues [[5, 0], [5, 5]])
                \<and> c < length (gridOfValues [[5, 0], [5, 5]] ! r))
      [(0, 0), (0, 1), (1, 0), (1, 1)]
   \<and> checkDuplicatesBitmask (gridOfValues [[5, 0], [5, 5]])
        [(0, 0), (0, 1), (1, 0), (1, 1)]
      = Inr \<lparr>duplicates = [(0, 0), (1, 0), (1, 1)], sources = [(0, 0)]\<rparr>
   \<and> (\<exists>rep. checkDuplicatesBitmask (gridOfValues [[5, 0], [5, 5]])
                [(0, 0), (0, 1), (1, 0), (1, 1)] = Inr rep
          \<and> distinct (map (valueAt (gridOfValues [[5, 0], [5, 5]])) (sources rep)))"
proof -
  have pre: "\<forall>(r, c) \<in> set [(0, 0), (0, 1), (1, 0), (1, 1)].
       r < length (gridOfValues [[5, 0], [5, 5]])
       \<and> c < length (gridOfValues [[5, 0], [5, 5]] ! r)"
    by (simp add: gridOfValues_def)
  have run: "checkDuplicatesBitmask (gridOfValues [[5, 0], [5, 5]])
        [(0, 0), (0, 1), (1, 0), (1, 1)]
      = Inr \<lparr>duplicates = [(0, 0), (1, 0), (1, 1)], sources = [(0, 0)]\<rparr>"
    by (simp add: checkDuplicatesBitmask_def gridOfValues_def cellAt_def
        valueToBitmask_def js_and_def js_or_def js_shl_def toInt32_def)
  from checkDuplicatesBitmask_spec [OF pre] pre run show ?thesis
    unfolding list_all_iff by blast
qed

section \<open>Candidates against the move check\<close>

lemma toInt32_sint [simp]: "toInt32 (sint w) = w"
  by (simp add: toInt32_def)

lemma toInt32_bit: "1 \<le> v \<Longrightarrow> v \<le> 31 \<Longrightarrow> toInt32 (js_shl 1 v) = push_bit (nat v) 1"
  by (simp add: js_shl_def toInt32_def)

lemma sint_eq_0_iff: "sint (w :: 32 word) = 0 \<longleftrightarrow> w = 0"
  by (rule signed_eq_0_iff)

lemma test_bit:
  assumes "1 \<le> v" "v \<le> 31"
  shows "js_and m (js_shl 1 v) \<noteq> 0 \<longleftrightarrow> bit (toInt32 m) (nat v)"
proof -
  have n: "nat v < 32" using assms by simp
  have "toInt32 m AND push_bit (nat v) 1 \<noteq> 0 \<longleftrightarrow> bit (toInt32 m) (nat v)"
    using and_exp_eq_0_iff_not_bit [of "toInt32 m" "nat v"] by (simp add: push_bit_eq_mult)
  then show ?thesis
    using assms by (simp add: js_and_def toInt32_bit sint_eq_0_iff)
qed

lemma maskValues_or [simp]: "maskValues (js_or a b) = maskValues a \<union> maskValues b"
  by (auto simp: maskValues_def js_or_def bit_simps)

lemma maskValues_and_not [simp]: "maskValues (js_and a (js_not b)) = maskValues a - maskValues b"
  by (auto simp: maskValues_def js_and_def js_not_def bit_simps)

lemma maskValues_0 [simp]: "maskValues 0 = {}"
  by (simp add: maskValues_def toInt32_def)

lemma maskValues_valueToBitmask [simp]:
  "maskValues (valueToBitmask v) = (if 1 \<le> v \<and> v \<le> 31 then {v} else {})"
  using toInt32_bit [of v]
  by (auto simp: maskValues_def valueToBitmask_def bit_simps toInt32_def [of 0])

lemma set_valuesFromBitmask [simp]: "set (valuesFromBitmask m) = maskValues m"
proof -
  have "\<And>v. v \<in> set [1..31] \<Longrightarrow>
          (js_and m (js_shl 1 v) \<noteq> 0) = (1 \<le> v \<and> v \<le> 31 \<and> bit (toInt32 m) (nat v))"
    using test_bit by simp
  then have "filter (\<lambda>v. js_and m (js_shl 1 v) \<noteq> 0) [1..31]
           = filter (\<lambda>v. 1 \<le> v \<and> v \<le> 31 \<and> bit (toInt32 m) (nat v)) [1..31]"
    by (intro filter_cong refl)
  then show ?thesis
    unfolding valuesFromBitmask_def maskValues_def by auto
qed

lemma and_valueToBitmask:
  "1 \<le> v \<Longrightarrow> v \<le> 31 \<Longrightarrow> js_and m (valueToBitmask v) \<noteq> 0 \<longleftrightarrow> v \<in> maskValues m"
  by (simp add: valueToBitmask_def test_bit maskValues_def)

lemma maskValues_full:
  assumes "createFullBitmask n = Inr f"
  shows "maskValues f = {1..n}"
proof -
  from assms have n: "1 \<le> n" "n \<le> 31" and f: "f = js_shl 1 (n + 1) - 2"
    by (auto simp: createFullBitmask_def split: if_splits)
  show ?thesis
  proof (cases "n = 31")
    case True
    then have "f = -1" using f by (simp add: js_shl_def toInt32_def)
    then show ?thesis using True by (auto simp: maskValues_def toInt32_def)
  next
    case False
    with n have n30: "n \<le> 30" by simp
    have "toInt32 f = push_bit (nat n + 1) 1 - 2"
      using n n30 unfolding f toInt32_def js_shl_def
      by (simp add: nat_add_distrib)
    also have "\<dots> = push_bit 1 (mask (nat n))"
      by (simp add: push_bit_eq_mult mask_eq_exp_minus_1 algebra_simps)
    finally have tf: "toInt32 f = push_bit 1 (mask (nat n))" .
    have "\<And>j. bit (push_bit 1 (mask (nat n)) :: 32 word) j \<longleftrightarrow> 1 \<le> j \<and> j < 32 \<and> j - 1 < nat n"
      unfolding bit_push_bit_iff bit_mask_iff by auto
    then have "\<And>v. bit (push_bit 1 (mask (nat n)) :: 32 word) (nat v) \<longleftrightarrow> 1 \<le> nat v \<and> nat v < 32 \<and> nat v - 1 < nat n"
      by blast
    then have "maskValues f = {v. 1 \<le> v \<and> v \<le> 31 \<and> 1 \<le> nat v \<and> nat v < 32 \<and> nat v - 1 < nat n}"
      unfolding maskValues_def tf by simp
    also have "\<dots> = {1..n}" using n n30 by (auto simp: nat_less_iff)
    finally show ?thesis .
  qed
qed

lemma maskValues_range: "v \<in> maskValues m \<Longrightarrow> 1 \<le> v \<and> v \<le> 31"
  by (simp add: maskValues_def)

lemma regionUsedValues_spec:
  "regionUsedValues grid row col cs u = Inr u' \<Longrightarrow>
   maskValues u' = maskValues u \<union>
     {v. 1 \<le> v \<and> v \<le> 31 \<and> (\<exists>p \<in> set cs. p \<noteq> (row, col) \<and> valueAt grid p = v)}"
proof (induction grid row col cs u rule: regionUsedValues.induct)
  case (1 grid row col usedValues)
  then show ?case by simp
next
  case (2 grid row col r c rest usedValues)
  show ?case
  proof (cases "r = row \<and> c = col")
    case True
    with 2 show ?thesis by auto
  next
    case False
    with "2.prems" obtain cell where cell: "cellAt grid r c = Inr cell"
      by (auto split: sum.splits)
    then have v: "valueAt grid (r, c) = cvalue cell"
      by (auto simp: cellAt_def valueAt_def split: if_splits)
    show ?thesis
    proof (cases "cvalue cell = 0")
      case True
      with False cell "2.prems" have "regionUsedValues grid row col rest usedValues = Inr u'"
        by (auto split: if_splits)
      from "2.IH"(3) [OF False cell _ this] True
      have "maskValues u' = maskValues usedValues \<union>
          {v. 1 \<le> v \<and> v \<le> 31 \<and> (\<exists>p \<in> set rest. p \<noteq> (row, col) \<and> valueAt grid p = v)}"
        by simp
      with True v False show ?thesis by auto
    next
      case nz: False
      with False cell "2.prems"
      have "regionUsedValues grid row col rest
              (js_or usedValues (valueToBitmask (cvalue cell))) = Inr u'"
        by (auto split: if_splits)
      from "2.IH"(2) [OF False cell nz this]
      have "maskValues u' = maskValues (js_or usedValues (valueToBitmask (cvalue cell))) \<union>
          {v. 1 \<le> v \<and> v \<le> 31 \<and> (\<exists>p \<in> set rest. p \<noteq> (row, col) \<and> valueAt grid p = v)}" .
      with v False show ?thesis by auto
    qed
  qed
qed

lemma regionUsedValues_conflicts:
  "regionUsedValues grid row col (cells region) 0 = Inr u \<Longrightarrow>
   maskValues u = conflicts grid row col region"
  using regionUsedValues_spec [of grid row col "cells region" 0 u]
  by (simp add: conflicts_def)

lemma removeUsedByRegions_spec:
  "removeUsedByRegions grid row col rs m = Inr m' \<Longrightarrow>
   (\<forall>region \<in> set rs. \<exists>u. regionUsedValues grid row col (cells region) 0 = Inr u)
   \<and> maskValues m' = maskValues m - \<Union> (conflicts grid row col ` set rs)"
proof (induction rs arbitrary: m)
  case Nil
  then show ?case by simp
next
  case (Cons region rs)
  from Cons.prems obtain u where
    u: "regionUsedValues grid row col (cells region) 0 = Inr u"
    and rest: "removeUsedByRegions grid row col rs (js_and m (js_not u)) = Inr m'"
    by (auto split: sum.splits)
  from Cons.IH [OF rest] u regionUsedValues_conflicts [OF u]
  show ?case by auto
qed

lemma isValidMoveRegions_spec:
  assumes "\<forall>region \<in> set rs. \<exists>u. regionUsedValues grid row col (cells region) 0 = Inr u"
    and "1 \<le> v" "v \<le> 31"
  shows "isValidMoveRegions grid row col v rs
           = Inr (v \<notin> \<Union> (conflicts grid row col ` set rs))"
  using assms(1)
proof (induction rs)
  case Nil
  then show ?case by simp
next
  case (Cons region rs)
  then obtain u where u: "regionUsedValues grid row col (cells region) 0 = Inr u"
    by auto
  have "js_and u (valueToBitmask v) \<noteq> 0 \<longleftrightarrow> v \<in> conflicts grid row col region"
    using and_valueToBitmask [OF assms(2,3), of u] regionUsedValues_conflicts [OF u] by simp
  with Cons u show ?case by auto
qed

lemma removeExcluded_spec:
  "maskValues (removeExcluded xs m) = maskValues m - set xs"
  by (induction xs m rule: removeExcluded.induct) (auto dest: maskValues_range)

lemma applyVariantExclusions_spec:
  "applyVariantExclusions grid row col cfg rules m = Inr m' \<Longrightarrow>
   maskValues m' = maskValues m -
     {v. \<exists>rule \<in> set rules. \<exists>f xs. getExcludedCandidates rule = Some f
            \<and> f grid row col cfg = Inr xs \<and> v \<in> set xs}"
proof (induction rules arbitrary: m)
  case Nil
  then show ?case by simp
next
  case (Cons rule rules)
  show ?case
  proof (cases "getExcludedCandidates rule")
    case None
    with Cons.prems have "applyVariantExclusions grid row col cfg rules m = Inr m'" by simp
    from Cons.IH [OF this] None show ?thesis by auto
  next
    case (Some f)
    with Cons.prems obtain xs where xs: "f grid row col cfg = Inr xs"
      and rest: "applyVariantExclusions grid row col cfg rules (removeExcluded xs m) = Inr m'"
      by (auto split: sum.splits)
    from Cons.IH [OF rest] Some xs show ?thesis
      by (auto simp: removeExcluded_spec)
  qed
qed

text \<open>
  Claim C2, amended.  When \<open>getCandidatesForCellBitmask\<close> returns a set for an empty cell,
  the returned values lie in \<open>1..size\<close>, the move check gives a boolean for every value
  of \<open>1..size\<close>, and such a value is returned exactly when the move check accepts it and
  no active variant rule excludes it.  So every returned value is a valid move, and a value
  that is not returned is an invalid move or one excluded by a rule.
\<close>

theorem candidates_vs_valid_move:
  assumes "getCandidatesForCellBitmask grid row col cfg = Inr cands"
    and "cellAt grid row col = Inr cell" and "cvalue cell = 0"
  shows "set cands \<subseteq> {1..gsize cfg}
     \<and> (\<forall>v \<in> {1..gsize cfg}.
           (isValidMoveBitmask grid row col v (regions cfg) = Inr True
            \<or> isValidMoveBitmask grid row col v (regions cfg) = Inr False)
         \<and> (v \<in> set cands \<longleftrightarrow>
              isValidMoveBitmask grid row col v (regions cfg) = Inr True
              \<and> v \<notin> excludedByRules grid row col cfg))"
proof -
  let ?rs = "filter (containsCell row col) (regions cfg)"
  from assms obtain full afterRegions m where
    full: "createFullBitmask (gsize cfg) = Inr full"
    and ar: "removeUsedByRegions grid row col ?rs full = Inr afterRegions"
    and ve: "applyVariantExclusions grid row col (ConfigCore.truncate cfg)
               (variantRules cfg) afterRegions = Inr m"
    and cands: "cands = valuesFromBitmask m"
    by (auto simp: getCandidatesForCellBitmask_def split: sum.splits)
  from full have sz: "1 \<le> gsize cfg" "gsize cfg \<le> 31"
    by (auto simp: createFullBitmask_def split: if_splits)
  from removeUsedByRegions_spec [OF ar] maskValues_full [OF full]
  have ok: "\<forall>region \<in> set ?rs. \<exists>u. regionUsedValues grid row col (cells region) 0 = Inr u"
    and m1: "maskValues afterRegions = {1..gsize cfg} - \<Union> (conflicts grid row col ` set ?rs)"
    by auto
  from applyVariantExclusions_spec [OF ve]
  have m2: "maskValues m = maskValues afterRegions - excludedByRules grid row col cfg"
    by (simp add: excludedByRules_def)
  have valid: "isValidMoveBitmask grid row col v (regions cfg)
                 = Inr (v \<notin> \<Union> (conflicts grid row col ` set ?rs))"
    if "v \<in> {1..gsize cfg}" for v
    using that sz isValidMoveRegions_spec [OF ok, of v]
    by (simp add: isValidMoveBitmask_def)
  show ?thesis
    using valid m1 m2 cands by auto
qed

theorem candidates_vs_valid_move_witness:
  "getCandidatesForCellBitmask cornerGrid 2 2 diagonalConfig = Inr [2, 3, 4]
   \<and> cellAt cornerGrid 2 2 = Inr (cornerGrid ! 2 ! 2) \<and> cvalue (cornerGrid ! 2 ! 2) = 0
   \<and> set [2, 3, 4] \<subseteq> {1..gsize diagonalConfig}
   \<and> isValidMoveBitmask cornerGrid 2 2 2 (regions diagonalConfig) = Inr True
   \<and> 2 \<notin> excludedByRules cornerGrid 2 2 diagonalConfig
   \<and> isValidMoveBitmask cornerGrid 2 2 1 (regions diagonalConfig) = Inr True
   \<and> 1 \<in> excludedByRules cornerGrid 2 2 diagonalConfig"
proof -
  have h1: "getCandidatesForCellBitmask cornerGrid 2 2 diagonalConfig = Inr [2, 3, 4]"
    by code_simp
  have h2: "cellAt cornerGrid 2 2 = Inr (cornerGrid ! 2 ! 2)"
    by code_simp
  have h3: "cvalue (cornerGrid ! 2 ! 2) = 0"
    by code_simp
  have g: "gsize diagonalConfig = 4"
    by (simp add: diagonalConfig_def)
  have v1: "isValidMoveBitmask cornerGrid 2 2 1 (regions diagonalConfig) = Inr True"
    by code_simp
  from candidates_vs_valid_move [OF h1 h2 h3]
  have sub: "set [2, 3, 4] \<subseteq> {1..gsize diagonalConfig}"
    and all: "\<forall>v \<in> {1..4}.
         (isValidMoveBitmask cornerGrid 2 2 v (regions diagonalConfig) = Inr True
          \<or> isValidMoveBitmask cornerGrid 2 2 v (regions diagonalConfig) = Inr False)
       \<and> (v \<in> set [2, 3, 4] \<longleftrightarrow>
            isValidMoveBitmask cornerGrid 2 2 v (regions diagonalConfig) = Inr True
            \<and> v \<notin> excludedByRules cornerGrid 2 2 diagonalConfig)"
    unfolding g by blast+
  from all [THEN bspec, of 2]
  have c2: "isValidMoveBitmask cornerGrid 2 2 2 (regions diagonalConfig) = Inr True
            \<and> 2 \<notin> excludedByRules cornerGrid 2 2 diagonalConfig"
    by simp
  from all [THEN bspec, of 1] v1
  have c1: "1 \<in> excludedByRules cornerGrid 2 2 diagonalConfig"
    by simp
  from h1 h2 h3 sub c2 v1 c1 show ?thesis
    by blast
qed

text \<open>
  Claim C2 as stated fails: with the diagonal rule active and the diagonals not listed
  among the regions, the value 1 is not a candidate of cell (2, 2), whose diagonal holds a
  1, and yet the move check over the regions accepts it.
\<close>

theorem candidates_vs_valid_move_counterexample:
  "valueAt cornerGrid (2, 2) = 0
   \<and> getCandidatesForCellBitmask cornerGrid 2 2 diagonalConfig = Inr [2, 3, 4]
   \<and> (1::int) \<in> {1..gsize diagonalConfig} \<and> (1::int) \<notin> set [2, 3, 4]
   \<and> isValidMoveBitmask cornerGrid 2 2 1 (regions diagonalConfig) = Inr True"
  by code_simp

section \<open>The solver keeps the givens\<close>

lemma cloneGrid_id [simp]: "cloneGrid g = g"
  by (simp add: cloneGrid_def map_idI)

lemma agreesOnGivens_refl [simp]: "agreesOnGivens g g"
  by (simp add: agreesOnGivens_def)

lemma agreesOnGivens_trans: "agreesOnGivens g h \<Longrightarrow> agreesOnGivens h k \<Longrightarrow> agreesOnGivens g k"
  by (simp add: agreesOnGivens_def)

lemma setCellValue_given:
  "cellAt grid row col = Inr cell \<Longrightarrow> isPuzzle cell \<Longrightarrow>
   setCellValue grid row col v False = Inr grid"
  by (simp add: setCellValue_def)

lemma map_enumerate_update:
  "i < length xs \<Longrightarrow>
   map (\<lambda>(j, x). if j = i then f x else x) (enumerate 0 xs) = xs[i := f (xs ! i)]"
  by (auto simp: list_eq_iff_nth_eq nth_enumerate_eq)

lemma map_enumerate_grid:
  assumes "row < length grid" "col < length (grid ! row)"
  shows "map (\<lambda>(rIndex, r). map (\<lambda>(cIndex, c). if rIndex = row \<and> cIndex = col then f c else c)
                                (enumerate 0 r)) (enumerate 0 grid)
         = grid[row := (grid ! row)[col := f (grid ! row ! col)]]"
proof -
  have inner: "\<And>rIndex r. map (\<lambda>(cIndex, c). if rIndex = row \<and> cIndex = col then f c else c)
                                (enumerate 0 r)
       = (if rIndex = row then map (\<lambda>(cIndex, c). if cIndex = col then f c else c) (enumerate 0 r)
          else r)"
    by (auto simp: list_eq_iff_nth_eq nth_enumerate_eq)
  show ?thesis
    unfolding inner using assms
    by (auto simp: list_eq_iff_nth_eq nth_enumerate_eq map_enumerate_update)
qed

lemma setCellValue_cases:
  assumes "setCellValue grid row col v False = Inr h"
  shows "h = grid \<or>
         (\<exists>cell. cellAt grid row col = Inr cell \<and> \<not> isPuzzle cell
            \<and> row < length grid \<and> col < length (grid ! row)
            \<and> h = grid[row := (grid ! row)[col := filledCell cell v]])"
proof (cases "isValidPosition grid row col")
  case False
  with assms show ?thesis by (simp add: setCellValue_def)
next
  case True
  with assms obtain cell where cell: "cellAt grid row col = Inr cell"
    by (auto simp: setCellValue_def split: sum.splits)
  then have rng: "row < length grid" "col < length (grid ! row)" and c: "cell = grid ! row ! col"
    by (auto simp: cellAt_def split: if_splits)
  show ?thesis
  proof (cases "isPuzzle cell")
    case True
    with assms cell \<open>isValidPosition grid row col\<close> show ?thesis by (simp add: setCellValue_def)
  next
    case False
    with assms cell \<open>isValidPosition grid row col\<close>
    have "h = map (\<lambda>(rIndex, r). map (\<lambda>(cIndex, c). if rIndex = row \<and> cIndex = col
                      then filledCell c v else c) (enumerate 0 r)) (enumerate 0 grid)"
      by (auto simp: setCellValue_def filledCell_def)
    with map_enumerate_grid [OF rng, of "\<lambda>c. filledCell c v"] c cell False rng
    show ?thesis by auto
  qed
qed

lemma cellAt_update:
  "cellAt (grid[row := (grid ! row)[col := x]]) r c =
     (if r = row \<and> c = col \<and> row < length grid \<and> col < length (grid ! row) then Inr x
      else cellAt grid r c)"
proof (cases "r = row")
  case True
  then show ?thesis
    by (cases "row < length grid"; cases "c = col") (auto simp: cellAt_def nth_list_update)
next
  case False
  then show ?thesis by (simp add: cellAt_def)
qed

lemma setCellValue_frame:
  assumes "setCellValue grid row col v False = Inr h"
  shows "agreesOnGivens grid h"
  using setCellValue_cases [OF assms]
  by (auto simp: agreesOnGivens_def cellAt_update)

lemma overlay_same [simp]: "overlay (\<lambda>old new. new) xs xs = xs"
  by (induction xs) auto

lemma writtenGrid_same [simp]: "writtenGrid g g = g"
  unfolding writtenGrid_def by (induction g) auto

lemma writtenGrids_same [simp]: "writtenGrids gs gs = gs"
  unfolding writtenGrids_def by (induction gs) auto

lemma kept_refl [simp]: "kept ctx ctx"
  by (simp add: kept_def)

lemma kept_trans: "kept a b \<Longrightarrow> kept b c \<Longrightarrow> kept a c"
  by (auto simp: kept_def)

lemma kept_countBacktrack [simp]: "kept ctx (countBacktrack ctx)"
  by (simp add: kept_def countBacktrack_def)

lemma kept_countAssignment [simp]: "kept ctx (countAssignment ctx)"
  by (simp add: kept_def countAssignment_def)

lemma kept_bump [simp]: "kept ctx (bumpRecursionCounter ctx)"
  by (simp add: kept_def bumpRecursionCounter_def split: option.splits)

lemma kept_interrupted [simp]: "kept ctx (ctx'\<lparr>interrupted := b\<rparr>) = kept ctx ctx'"
  by (simp add: kept_def)

lemma kept_timedOut: "timedOut ctx = (b, ctx') \<Longrightarrow> kept ctx ctx'"
  by (auto simp: timedOut_def kept_def split: option.splits if_splits)

lemma leavesSolutions_written:
  "leavesSolutions (Some f) \<Longrightarrow> f k ev grids = (answer, written) \<Longrightarrow> written = grids"
  by (auto simp: leavesSolutions_def dest: spec [of _ k] arg_cong [of _ _ snd])

lemma kept_notify:
  assumes "notify ctx ev = (r, ctx')"
  shows "kept ctx ctx'"
proof (cases "onProgress ctx")
  case None
  with assms show ?thesis by (simp add: notify_def)
next
  case (Some f)
  obtain answer written where f: "f (progressCalls ctx) ev (solutions ctx) = (answer, written)"
    by (cases "f (progressCalls ctx) ev (solutions ctx)")
  from assms Some f
  have ctx': "ctx' = ctx\<lparr>progressCalls := progressCalls ctx + 1,
                           solutions := writtenGrids (solutions ctx) written\<rparr>"
    by (auto simp: notify_def Let_def split: sum.splits)
  have "leavesSolutions (onProgress ctx) \<Longrightarrow> written = solutions ctx"
    using leavesSolutions_written [of f "progressCalls ctx" ev "solutions ctx" answer written]
      f Some by simp
  with ctx' Some show ?thesis by (auto simp: kept_def)
qed

lemma kept_callGetCandidates: "callGetCandidates ctx row col = (r, ctx') \<Longrightarrow> kept ctx ctx'"
  by (auto simp: callGetCandidates_def kept_def)

lemma kept_candidateInfos: "candidateInfos ctx ps = (r, ctx') \<Longrightarrow> kept ctx ctx'"
proof (induction ps arbitrary: ctx r ctx')
  case Nil
  then show ?case by simp
next
  case (Cons p ps)
  obtain row col where p: "p = (row, col)" by (cases p)
  obtain r1 ctx1 where c: "callGetCandidates ctx row col = (r1, ctx1)"
    by (cases "callGetCandidates ctx row col")
  note k1 = kept_callGetCandidates [OF c]
  show ?case
  proof (cases r1)
    case (Inl e)
    with Cons.prems p c k1 show ?thesis by simp
  next
    case (Inr cs)
    obtain r2 ctx2 where i: "candidateInfos ctx1 ps = (r2, ctx2)"
      by (cases "candidateInfos ctx1 ps")
    from kept_trans [OF k1 Cons.IH [OF i]] have "kept ctx ctx2" .
    with Cons.prems p c Inr i show ?thesis
      by (auto split: sum.splits)
  qed
qed

lemma kept_selectCellWithMRV: "selectCellWithMRV grid ctx = (r, ctx') \<Longrightarrow> kept ctx ctx'"
  by (auto simp: selectCellWithMRV_def getAllEmptyCellsCandidates_def Let_def
      dest!: kept_candidateInfos split: prod.splits sum.splits list.splits if_splits)

lemma grows_kept: "kept ctx ctx' \<Longrightarrow> grows g ctx ctx'"
  by (auto simp: grows_def kept_def)

lemma grows_trans: "grows g a b \<Longrightarrow> grows g b c \<Longrightarrow> grows g a c"
  by (auto simp: grows_def)

lemma kept_grows: "kept a b \<Longrightarrow> grows g b c \<Longrightarrow> grows g a c"
  by (auto simp: grows_def kept_def)

lemma grows_weaken: "grows g' a b \<Longrightarrow> agreesOnGivens g g' \<Longrightarrow> grows g a b"
  by (auto simp: grows_def intro: agreesOnGivens_trans)

lemma grows_interrupted [simp]: "grows g ctx (ctx'\<lparr>interrupted := b\<rparr>) = grows g ctx ctx'"
  by (simp add: grows_def)

lemma grows_countBacktrack [simp]: "grows g ctx (countBacktrack ctx') = grows g ctx ctx'"
  by (simp add: grows_def countBacktrack_def)

lemma grows_recordSolution: "recordSolution b grid ctx = (r, ctx') \<Longrightarrow> grows grid ctx ctx'"
proof (cases "validateAllRegions grid (regions (config ctx))")
  case (Inl e)
  assume "recordSolution b grid ctx = (r, ctx')"
  with Inl show ?thesis by (simp add: recordSolution_def grows_kept)
next
  case (Inr validation)
  assume rs: "recordSolution b grid ctx = (r, ctx')"
  show ?thesis
  proof (cases "isValid validation")
    case False
    with Inr rs show ?thesis by (auto simp: recordSolution_def grows_kept)
  next
    case True
    let ?ctx1 = "ctx\<lparr>solutions := solutions ctx @ [grid]\<rparr>"
    obtain r2 ctx2 where n: "notify ?ctx1 (SolutionEvent grid) = (r2, ctx2)"
      by (cases "notify ?ctx1 (SolutionEvent grid)")
    have g1: "grows grid ctx ?ctx1" by (simp add: grows_def)
    from kept_notify [OF n] have "grows grid ?ctx1 ctx2" by (rule grows_kept)
    with g1 have g2: "grows grid ctx ctx2" by (rule grows_trans)
    from Inr True rs n have "ctx' = ctx2 \<or> ctx' = ctx2\<lparr>interrupted := True\<rparr>"
      by (auto simp: recordSolution_def Let_def split: sum.splits if_splits)
    with g2 show ?thesis by auto
  qed
qed

lemma solve_grows:
  "grows grid ctx (snd (solveWithBacktracking stack grid ctx))"
  "grows grid ctx (snd (tryCandidates stack grid row col vs ctx))"
proof (induction stack grid ctx and stack grid row col vs ctx
       rule: solveWithBacktracking_tryCandidates.induct)
  case (1 grid ctx)
  then show ?case by (simp add: grows_kept)
next
  case (2 stack grid ctx)
  obtain b ctx1 where t: "timedOut (bumpRecursionCounter ctx) = (b, ctx1)"
    by (cases "timedOut (bumpRecursionCounter ctx)")
  from kept_trans [OF kept_bump kept_timedOut [OF t]] have k1: "kept ctx ctx1" .
  obtain r2 ctx2 where m: "selectCellWithMRV grid ctx1 = (r2, ctx2)"
    by (cases "selectCellWithMRV grid ctx1")
  from kept_trans [OF k1 kept_selectCellWithMRV [OF m]] have k2: "kept ctx ctx2" .
  show ?case
  proof (cases "b \<or> interrupted ctx1")
    case True
    with t k1 show ?thesis by (auto simp: grows_kept split: bool.splits)
  next
    case False
    show ?thesis
    proof (cases r2)
      case (Inl e)
      with False t m k2 show ?thesis by (auto simp: grows_kept)
    next
      case (Inr sel)
      show ?thesis
      proof (cases sel)
        case None
        obtain r3 ctx3 where rs: "recordSolution True grid ctx2 = (r3, ctx3)"
          by (cases "recordSolution True grid ctx2")
        from kept_grows [OF k2 grows_recordSolution [OF rs]] have "grows grid ctx ctx3" .
        with False t m Inr None rs show ?thesis by simp
      next
        case (Some x2)
        obtain row col cands where x2: "x2 = (row, col, cands)" by (cases x2)
        show ?thesis
        proof (cases "length cands = 0")
          case True
          with False t m Inr Some x2 k2 show ?thesis by (auto simp: grows_kept)
        next
          case nz: False
          from False have "b = False" "\<not> interrupted ctx1" by auto
          from "2.IH" [OF t [symmetric] this m [symmetric] Inr Some x2 [symmetric] refl nz]
          have "grows grid ctx2 (snd (tryCandidates stack grid row col cands ctx2))" .
          with k2 have "grows grid ctx (snd (tryCandidates stack grid row col cands ctx2))"
            by (rule kept_grows)
          with False t m Inr Some x2 nz show ?thesis by simp
        qed
      qed
    qed
  qed
next
  case (3 stack grid row col ctx)
  then show ?case by (simp add: grows_kept)
next
  case (4 stack grid row col v rest ctx)
  show ?case
  proof (cases "setCellValue grid row col v False")
    case (Inl e)
    then show ?thesis by (simp add: grows_kept)
  next
    case (Inr newGrid)
    note fr = setCellValue_frame [OF Inr]
    obtain r1 ctx1 where n: "notify (countAssignment ctx) (StepEvent row col v) = (r1, ctx1)"
      by (cases "notify (countAssignment ctx) (StepEvent row col v)")
    from kept_trans [OF kept_countAssignment kept_notify [OF n]] have k1: "kept ctx ctx1" .
    show ?thesis
    proof (cases r1)
      case (Inl e)
      with Inr n k1 show ?thesis by (simp add: grows_kept)
    next
      case go: (Inr shouldContinue)
      show ?thesis
      proof (cases shouldContinue)
        case False
        with Inr n go k1 show ?thesis by (simp add: grows_kept)
      next
        case True
        obtain r2 ctx2 where sv: "solveWithBacktracking stack newGrid ctx1 = (r2, ctx2)"
          by (cases "solveWithBacktracking stack newGrid ctx1")
        from True have nn: "\<not> \<not> shouldContinue" by simp
        from "4.IH"(1) [OF Inr n [symmetric] go nn] sv
        have g1: "grows newGrid ctx1 ctx2" by simp
        from kept_grows [OF k1 grows_weaken [OF g1 fr]] have g2: "grows grid ctx ctx2" .
        show ?thesis
        proof (cases r2)
          case (Inl e)
          with Inr n go True sv g2 show ?thesis by simp
        next
          case solved: (Inr bb)
          show ?thesis
          proof (cases "(bb \<and> \<not> findAllSolutions ctx2) \<or> interrupted ctx2
                         \<or> maxSolutions ctx2 \<le> int (length (solutions ctx2))")
            case True
            with Inr n go \<open>shouldContinue\<close> sv solved g2 show ?thesis by auto
          next
            case False
            then have a: "\<not> (bb \<and> \<not> findAllSolutions ctx2)"
              and b: "\<not> (interrupted ctx2 \<or> maxSolutions ctx2 \<le> int (length (solutions ctx2)))"
              by auto
            from "4.IH"(2) [OF Inr n [symmetric] go nn sv [symmetric] solved a b]
            have "grows grid ctx2 (snd (tryCandidates stack grid row col rest ctx2))" .
            with g2 have "grows grid ctx (snd (tryCandidates stack grid row col rest ctx2))"
              by (rule grows_trans)
            with Inr n go \<open>shouldContinue\<close> sv solved False show ?thesis by auto
          qed
        qed
      qed
    qed
  qed
qed

lemma simple_grows:
  "grows grid ctx (snd (solveWithSimpleBacktracking stack grid ctx))"
  "grows grid ctx (snd (tryNumbers stack grid row col nums ctx))"
proof (induction stack grid ctx and stack grid row col nums ctx
       rule: solveWithSimpleBacktracking_tryNumbers.induct)
  case (1 grid ctx)
  then show ?case by (simp add: grows_kept)
next
  case (2 stack grid ctx)
  obtain b ctx1 where t: "timedOut (bumpRecursionCounter ctx) = (b, ctx1)"
    by (cases "timedOut (bumpRecursionCounter ctx)")
  from kept_trans [OF kept_bump kept_timedOut [OF t]] have k1: "kept ctx ctx1" .
  show ?case
  proof (cases "b \<or> interrupted ctx1")
    case True
    with t k1 show ?thesis by (auto simp: grows_kept split: bool.splits)
  next
    case False
    then have nb: "b = False" and ni: "\<not> interrupted ctx1" by auto
    show ?thesis
    proof (cases "validateAllRegions grid (regions (config ctx1))")
      case (Inl e)
      with False t k1 show ?thesis by (auto simp: grows_kept)
    next
      case (Inr validation)
      show ?thesis
      proof (cases "isValid validation")
        case False
        with nb ni t k1 Inr show ?thesis by (auto simp: grows_kept)
      next
        case True
        show ?thesis
        proof (cases "emptyCoords grid")
          case Nil
          obtain r3 ctx3 where rs: "recordSolution False grid ctx1 = (r3, ctx3)"
            by (cases "recordSolution False grid ctx1")
          from kept_grows [OF k1 grows_recordSolution [OF rs]] have "grows grid ctx ctx3" .
          with nb ni t Inr True Nil rs show ?thesis by simp
        next
          case (Cons p ps)
          obtain row col where p: "p = (row, col)" by (cases p)
          from True have nn: "\<not> \<not> isValid validation" by simp
          from "2.IH" [OF t [symmetric] nb ni Inr nn Cons p [symmetric]]
          have "grows grid ctx1 (snd (tryNumbers stack grid row col [1..gsize (config ctx1)] ctx1))" .
          with k1 have "grows grid ctx (snd (tryNumbers stack grid row col [1..gsize (config ctx1)] ctx1))"
            by (rule kept_grows)
          with nb ni t Inr True Cons p show ?thesis by simp
        qed
      qed
    qed
  qed
next
  case (3 stack grid row col ctx)
  then show ?case by (simp add: grows_kept)
next
  case (4 stack grid row col num rest ctx)
  obtain r0 ctx0 where c: "callGetCandidates ctx row col = (r0, ctx0)"
    by (cases "callGetCandidates ctx row col")
  note k0 = kept_callGetCandidates [OF c]
  show ?case
  proof (cases r0)
    case (Inl e)
    with c k0 show ?thesis by (simp add: grows_kept)
  next
    case cands: (Inr candidates)
    show ?thesis
    proof (cases "num \<in> set candidates")
      case False
      from "4.IH"(1) [OF c [symmetric] cands False]
      have "grows grid ctx0 (snd (tryNumbers stack grid row col rest ctx0))" .
      with k0 have "grows grid ctx (snd (tryNumbers stack grid row col rest ctx0))"
        by (rule kept_grows)
      with c cands False show ?thesis by simp
    next
      case mem: True
      then have nm: "\<not> num \<notin> set candidates" by simp
      show ?thesis
      proof (cases "setCellValue grid row col num False")
        case (Inl e)
        with c cands mem k0 show ?thesis by (simp add: grows_kept)
      next
        case (Inr newGrid)
        note fr = setCellValue_frame [OF Inr]
        obtain r1 ctx1 where n: "notify (countAssignment ctx0) (StepEvent row col num) = (r1, ctx1)"
          by (cases "notify (countAssignment ctx0) (StepEvent row col num)")
        from kept_trans [OF k0 kept_trans [OF kept_countAssignment kept_notify [OF n]]]
        have k1: "kept ctx ctx1" .
        show ?thesis
        proof (cases r1)
          case (Inl e)
          with c cands mem Inr n k1 show ?thesis by (simp add: grows_kept)
        next
          case go: (Inr shouldContinue)
          show ?thesis
          proof (cases shouldContinue)
            case False
            with c cands mem Inr n go k1 show ?thesis by (simp add: grows_kept)
          next
            case True
            then have nn: "\<not> \<not> shouldContinue" by simp
            obtain r2 ctx2 where sv: "solveWithSimpleBacktracking stack newGrid ctx1 = (r2, ctx2)"
              by (cases "solveWithSimpleBacktracking stack newGrid ctx1")
            from "4.IH"(2) [OF c [symmetric] cands nm Inr n [symmetric] go nn] sv
            have g1: "grows newGrid ctx1 ctx2" by simp
            from kept_grows [OF k1 grows_weaken [OF g1 fr]] have g2: "grows grid ctx ctx2" .
            show ?thesis
            proof (cases r2)
              case (Inl e)
              with c cands mem Inr n go True sv g2 show ?thesis by simp
            next
              case solved: (Inr bc)
              show ?thesis
              proof (cases "bc \<or> interrupted ctx2
                             \<or> maxSolutions ctx2 \<le> int (length (solutions ctx2))")
                case True
                with c cands mem Inr n go \<open>shouldContinue\<close> sv solved g2 show ?thesis by auto
              next
                case False
                then have a: "\<not> bc"
                  and b: "\<not> (interrupted ctx2 \<or> maxSolutions ctx2 \<le> int (length (solutions ctx2)))"
                  by auto
                from "4.IH"(3) [OF c [symmetric] cands nm Inr n [symmetric] go nn
                    sv [symmetric] solved a b]
                have "grows grid ctx2 (snd (tryNumbers stack grid row col rest ctx2))" .
                with g2 have "grows grid ctx (snd (tryNumbers stack grid row col rest ctx2))"
                  by (rule grows_trans)
                with c cands mem Inr n go \<open>shouldContinue\<close> sv solved False show ?thesis by auto
              qed
            qed
          qed
        qed
      qed
    qed
  qed
qed

lemma classifyOutcome_solutions:
  "classifyOutcome cfg ctx result = (raised, result', ctx') \<Longrightarrow>
   set (resSolutions result') \<subseteq> set (solutions ctx)"
  by (auto simp: classifyOutcome_def Let_def dest: in_set_butlastD
      split: if_splits sum.splits option.splits)

text \<open>What \<open>solveSudoku\<close> returns when the callback leaves the solutions as they are.\<close>

lemma solveSudoku_agreesOnGivens:
  assumes "leavesSolutions (optOnProgress options)"
    and "h \<in> set (resSolutions (solveSudoku now stack grid cfg options))"
  shows "agreesOnGivens grid h"
proof -
  define strategy where "strategy = (case optStrategy options of None \<Rightarrow> Fastest | Some s \<Rightarrow> s)"
  have key: "set (resSolutions result') \<subseteq> {h. agreesOnGivens grid h}"
    if "solveSudokuTry stack grid cfg strategy ctx result = (raised, result', ctx')"
      and "solutions ctx = []" and "resSolutions result = []"
      and "leavesSolutions (onProgress ctx)"
    for ctx result raised result' ctx'
  proof (cases "validateAllRegions grid (regions cfg)")
    case (Inl e)
    with that show ?thesis by (simp add: solveSudokuTry_def)
  next
    case (Inr initialValidation)
    show ?thesis
    proof (cases "isValid initialValidation")
      case False
      with Inr that show ?thesis by (auto simp: solveSudokuTry_def)
    next
      case True
      define run where "run = (if strategy = Fastest
                   then solveWithBacktracking stack (cloneGrid grid) ctx
                   else solveWithSimpleBacktracking stack (cloneGrid grid) ctx)"
      obtain r1 ctx1 where run1: "run = (r1, ctx1)" by (cases run)
      have "grows grid ctx ctx1"
        using solve_grows(1) [of grid ctx stack] simple_grows(1) [of grid ctx stack] run1
        by (auto simp: run_def split: if_splits)
      with that(2,4) have sol: "set (solutions ctx1) \<subseteq> {h. agreesOnGivens grid h}"
        by (auto simp: grows_def)
      show ?thesis
      proof (cases r1)
        case (Inl e)
        with Inr True run1 that show ?thesis
          by (simp add: solveSudokuTry_def run_def)
      next
        case solved: (Inr b)
        with Inr True run1 that(1)
        have "classifyOutcome cfg ctx1 result = (raised, result', ctx')"
          by (simp add: solveSudokuTry_def run_def)
        from classifyOutcome_solutions [OF this] sol show ?thesis by blast
      qed
    qed
  qed
  define ctx0 where "ctx0 =
     \<lparr>config = cfg, onProgress = optOnProgress options,
      findAllSolutions = (case optFindAllSolutions options of None \<Rightarrow> False | Some b \<Rightarrow> b),
      maxSolutions = (case optMaxSolutions options of None \<Rightarrow> 1 | Some n \<Rightarrow> n),
      timeoutTimestamp =
        (if (case optTimeoutMs options of None \<Rightarrow> 30000 | Some t \<Rightarrow> t) \<noteq> 0
         then Some (now 0 + (case optTimeoutMs options of None \<Rightarrow> 30000 | Some t \<Rightarrow> t))
         else None),
      solutions = [], interrupted = False, stats = createDefaultSolverStats,
      getCandidatesForCell = solverCandidates grid cfg,
      recursionCounter = Some 0, dateNow = now, clockReads = 1, progressCalls = 0\<rparr>"
  define result0 where "result0 =
     \<lparr>success = False, resSolutions = [], resStats = None,
      finishReason = FinishError, failReason = None\<rparr>"
  obtain raised result ctx where
    tr: "solveSudokuTry stack grid cfg strategy ctx0 result0 = (raised, result, ctx)"
    by (cases "solveSudokuTry stack grid cfg strategy ctx0 result0") auto
  have "resSolutions (solveSudoku now stack grid cfg options) = resSolutions result"
    unfolding solveSudoku_def Let_def strategy_def [symmetric] ctx0_def [symmetric]
      result0_def [symmetric] tr
    by (simp split: option.splits)
  moreover have "set (resSolutions result) \<subseteq> {h. agreesOnGivens grid h}"
    by (rule key [OF tr]) (simp_all add: ctx0_def result0_def assms(1))
  ultimately show ?thesis using assms(2) by auto
qed

section \<open>The generator: what a run is made of\<close>

text \<open>\<open>generateSudoku\<close> in terms of its \<open>try\<close> block, with the options, the result record
  and the state the block starts from.\<close>

lemma generateSudoku_eq:
  "generateSudoku stack env cfg options =
     (case generateSudokuTry stack (callbackEnv env options) cfg (digOptionsOf env cfg options)
             emptyResult initialGeneratorState of
        (raised, result, st) \<Rightarrow>
          (case raised of
             None \<Rightarrow> result
           | Some e \<Rightarrow> result\<lparr>genFinishReason := GenError, errorMessage := Some e\<rparr>)
          \<lparr>genStats := (runStats st)
             \<lparr>genTimeMs := genNow env (genClockReads st) - genNow env 0\<rparr>\<rparr>)"
  by (simp add: generateSudoku_def Let_def digOptionsOf_def emptyResult_def
      initialGeneratorState_def callbackEnv_def)

lemma genOnProgress_callbackEnv [simp]:
  "genOnProgress (callbackEnv env options) = optGenOnProgress options"
  by (simp add: callbackEnv_def)

lemma genNow_callbackEnv [simp]: "genNow (callbackEnv env options) = genNow env"
  by (simp add: callbackEnv_def)

lemma generateSudokuTry_code [code]:
  "generateSudokuTry stack env cfg options result st =
     afterFill env cfg options result
       (fullGridAttempts 10 stack env cfg (digTimeoutTimestamp options)
          (genFinishReason result) st)"
proof -
  obtain r1 st1 where fa: "fullGridAttempts 10 stack env cfg (digTimeoutTimestamp options)
             (genFinishReason result) st = (r1, st1)"
    by (cases "fullGridAttempts 10 stack env cfg (digTimeoutTimestamp options)
             (genFinishReason result) st")
  show ?thesis
  proof (cases r1)
    case (Inl e)
    with fa show ?thesis by (simp add: generateSudokuTry_def)
  next
    case (Inr p)
    obtain g reason where p: "p = (g, reason)" by (cases p)
    show ?thesis
    proof (cases g)
      case None
      with fa Inr p show ?thesis by (simp add: generateSudokuTry_def)
    next
      case (Some filledGrid)
      let ?st2 = "st1\<lparr>runStats := (runStats st1)
                          \<lparr>fullGridsGenerated := fullGridsGenerated (runStats st1) + 1\<rparr>\<rparr>"
      obtain r3 st3 where dh:
        "digHoles env cfg (markGivens filledGrid) filledGrid options ?st2 = (r3, st3)"
        by (cases "digHoles env cfg (markGivens filledGrid) filledGrid options ?st2")
      from fa Inr p Some dh show ?thesis
        by (cases r3) (simp_all add: generateSudokuTry_def Let_def)
    qed
  qed
qed

section \<open>The generator with a callback that leaves the grids as they are\<close>

lemma genNotify_leaves:
  assumes "leavesGrid (genOnProgress env)"
    and "genNotify env phase grid st = (r, g', st')"
  shows "g' = grid"
proof (cases "genOnProgress env")
  case None
  with assms(2) show ?thesis by (simp add: genNotify_def)
next
  case (Some f)
  obtain answer written where f: "f (genProgressCalls st) phase grid = (answer, written)"
    by (cases "f (genProgressCalls st) phase grid")
  from assms(1) Some have "snd (f (genProgressCalls st) phase grid) = grid"
    by (simp add: leavesGrid_def)
  with f have "written = grid" by simp
  with assms(2) Some f show ?thesis
    by (auto simp: genNotify_def Let_def split: sum.splits)
qed

lemma noGivens_update:
  assumes "noGivens g" "\<not> isPuzzle x"
  shows "noGivens (g[row := (g ! row)[col := x]])"
  unfolding noGivens_def
proof (intro ballI)
  fix r cell
  assume r: "r \<in> set (g[row := (g ! row)[col := x]])" and cell: "cell \<in> set r"
  show "\<not> isPuzzle cell"
  proof (cases "row < length g")
    case False
    then have "length g \<le> row" by simp
    then have "g[row := (g ! row)[col := x]] = g" by (rule list_update_beyond)
    with r cell assms(1) show ?thesis by (auto simp: noGivens_def)
  next
    case True
    from r set_update_subset_insert [of g row "(g ! row)[col := x]"]
    have "r = (g ! row)[col := x] \<or> r \<in> set g" by blast
    then show ?thesis
    proof
      assume "r \<in> set g"
      with cell assms(1) show ?thesis by (auto simp: noGivens_def)
    next
      assume "r = (g ! row)[col := x]"
      with cell set_update_subset_insert [of "g ! row" col x]
      have "cell = x \<or> cell \<in> set (g ! row)" by blast
      moreover from True have "g ! row \<in> set g" by simp
      ultimately show ?thesis using assms by (auto simp: noGivens_def)
    qed
  qed
qed

lemma noGivens_setCellValue:
  assumes "setCellValue g row col v False = Inr h" "noGivens g"
  shows "noGivens h"
proof -
  from setCellValue_cases [OF assms(1)] show ?thesis
  proof
    assume "h = g"
    with assms(2) show ?thesis by simp
  next
    assume "\<exists>cell. cellAt g row col = Inr cell \<and> \<not> isPuzzle cell
            \<and> row < length g \<and> col < length (g ! row)
            \<and> h = g[row := (g ! row)[col := filledCell cell v]]"
    then obtain cell where "h = g[row := (g ! row)[col := filledCell cell v]]" by blast
    moreover have "\<not> isPuzzle (filledCell cell v)" by (simp add: filledCell_def)
    ultimately show ?thesis using noGivens_update [OF assms(2)] by simp
  qed
qed

lemma noGivens_fill:
  "leavesGrid (genOnProgress env) \<Longrightarrow> noGivens grid \<Longrightarrow>
   fillGridWithBacktracking stack env cfg grid startRow startCol st = (Inr (b, g'), st') \<Longrightarrow>
   noGivens g'"
  "leavesGrid (genOnProgress env) \<Longrightarrow> noGivens grid \<Longrightarrow>
   fillNumbers stack env cfg grid row col nums st = (Inr (b, g'), st') \<Longrightarrow> noGivens g'"
proof (induction stack env cfg grid startRow startCol st and stack env cfg grid row col nums st
       arbitrary: b g' st' and b g' st' rule: fillGridWithBacktracking_fillNumbers.induct)
  case (1 env cfg grid startRow startCol st)
  then show ?case by simp
next
  case (2 stack env cfg grid startRow startCol st)
  from "2.prems"(3) obtain row col where
    ne: "nextEmptyCell grid (length grid) startRow startCol = Inr (row, col)"
    by (auto split: sum.splits)
  show ?case
  proof (cases "row \<ge> length grid")
    case True
    with "2.prems" ne show ?thesis by simp
  next
    case False
    obtain numbers st1 where
      sh: "shuffleArray env (map int [1..<length grid + 1]) st = (numbers, st1)"
      by (cases "shuffleArray env (map int [1..<length grid + 1]) st")
    from "2.prems"(3) ne False sh
    have "fillNumbers stack env cfg grid row col numbers st1 = (Inr (b, g'), st')"
      by simp
    from "2.IH" [OF ne refl False sh [symmetric] "2.prems"(1,2) this] show ?thesis .
  qed
next
  case (3 stack env cfg grid row col st)
  then show ?case by simp
next
  case (4 stack env cfg grid row col num rest st)
  note lv = "4.prems"(1)
  from "4.prems"(3) obtain tempGrid where sc: "setCellValue grid row col num False = Inr tempGrid"
    by (auto split: sum.splits)
  note ng = noGivens_setCellValue [OF sc "4.prems"(2)]
  from "4.prems"(3) sc obtain validation where
    va: "validateAllRegions tempGrid (regions cfg) = Inr validation"
    by (auto split: sum.splits)
  show ?case
  proof (cases "isValid validation")
    case False
    with "4.prems"(3) sc va
    have "fillNumbers stack env cfg grid row col rest st = (Inr (b, g'), st')" by simp
    from "4.IH"(3) [OF sc va False lv "4.prems"(2) this] show ?thesis .
  next
    case True
    obtain r1 tg1 st1 where n: "genNotify env GridPhase tempGrid st = (r1, tg1, st1)"
      by (cases "genNotify env GridPhase tempGrid st")
    from genNotify_leaves [OF lv n] have tg1: "tg1 = tempGrid" .
    from "4.prems"(3) sc va True n obtain shouldContinue where go: "r1 = Inr shouldContinue"
      by (cases r1) auto
    show ?thesis
    proof (cases shouldContinue)
      case False
      with "4.prems" sc va True n go tg1 ng show ?thesis by (auto split: if_splits)
    next
      case sc1: True
      then have nn: "\<not> \<not> shouldContinue" by simp
      let ?call = "fillGridWithBacktracking stack env cfg tg1
                     (if col + 1 \<ge> length grid then row + 1 else row)
                     ((col + 1) mod length grid) st1"
      obtain r2 st2 where rec: "?call = (r2, st2)" by (cases ?call)
      from "4.prems"(3) sc va True n go sc1 rec obtain filled tg where r2: "r2 = Inr (filled, tg)"
        by (cases r2) auto
      from ng tg1 have ng1: "noGivens tg1" by simp
      from "4.IH"(1) [OF sc va True n [symmetric] go refl nn lv ng1] rec r2
      have ngt: "noGivens tg" by simp
      show ?thesis
      proof (cases filled)
        case True
        with "4.prems"(3) sc va \<open>isValid validation\<close> n go sc1 rec r2 ngt show ?thesis by simp
      next
        case False
        let ?grid' = "if returnsItsGrid grid row col False then tg else grid"
        from False "4.prems"(3) sc va \<open>isValid validation\<close> n go sc1 rec r2
        have "fillNumbers stack env cfg ?grid' row col rest st2 = (Inr (b, g'), st')" by simp
        moreover from ngt "4.prems"(2) have "noGivens ?grid'" by simp
        ultimately show ?thesis
          using "4.IH"(2) [OF sc va \<open>isValid validation\<close> n [symmetric] go refl nn
              rec [symmetric] r2 refl False lv]
          by blast
      qed
    qed
  qed
qed

lemma noGivens_createEmptyGrid: "noGivens (createEmptyGrid n)"
  by (simp add: noGivens_def createEmptyGrid_def createEmptyCell_def)

lemma noGivens_generateFilledGrid:
  "leavesGrid (genOnProgress env) \<Longrightarrow>
   generateFilledGrid stack env cfg st = (Inr (Some g), st') \<Longrightarrow> noGivens g"
  using noGivens_fill(1) [OF _ noGivens_createEmptyGrid]
  by (auto simp: generateFilledGrid_def split: prod.splits sum.splits if_splits)

lemma noGivens_fullGridAttempts:
  "leavesGrid (genOnProgress env) \<Longrightarrow>
   fullGridAttempts k stack env cfg deadline reason st = (Inr (Some g, reason'), st') \<Longrightarrow>
   noGivens g"
proof (induction k arbitrary: st)
  case 0
  then show ?case by simp
next
  case (Suc k)
  then show ?case
    by (auto simp: Let_def dest: noGivens_generateFilledGrid
        split: if_splits prod.splits sum.splits option.splits)
qed

lemma dugFrom_markGivens: "noGivens sol \<Longrightarrow> dugFrom sol (markGivens sol)"
  unfolding dugFrom_def markGivens_def noGivens_def
  by (auto simp: list_all2_conv_all_nth holeOf_def) (meson nth_mem)

lemma dugFrom_writeCell:
  assumes "writeCell w r c (\<lambda>cell. cell\<lparr>cvalue := 0, isPuzzle := False\<rparr>) = Inr w'"
    and "dugFrom sol w"
  shows "dugFrom sol w'"
proof -
  from assms(1) have rng: "r < length w" "c < length (w ! r)"
    and w': "w' = w[r := (w ! r)[c := (w ! r ! c)\<lparr>cvalue := 0, isPuzzle := False\<rparr>]]"
    by (auto simp: writeCell_def cellAt_def split: if_splits)
  from assms(2) have rows: "list_all2 (list_all2 holeOf) sol w" by (simp add: dugFrom_def)
  with rng have row: "list_all2 holeOf (sol ! r) (w ! r)"
    by (simp add: list_all2_conv_all_nth)
  have "list_all2 holeOf ((sol ! r)[c := sol ! r ! c])
          ((w ! r)[c := (w ! r ! c)\<lparr>cvalue := 0, isPuzzle := False\<rparr>])"
    by (rule list_all2_update_cong [OF row]) (simp add: holeOf_def)
  then have row': "list_all2 holeOf (sol ! r)
          ((w ! r)[c := (w ! r ! c)\<lparr>cvalue := 0, isPuzzle := False\<rparr>])"
    by simp
  have "list_all2 (list_all2 holeOf) (sol[r := sol ! r]) w'"
    unfolding w' by (rule list_all2_update_cong [OF rows row'])
  then show ?thesis by (simp add: dugFrom_def)
qed

lemma dugFrom_clearForDig:
  assumes "clearForDig w row col options = Inr w'" and "dugFrom sol w"
  shows "dugFrom sol w'"
  using assms
  by (auto simp: clearForDig_def dest: dugFrom_writeCell
      split: sum.splits if_splits prod.splits)

lemma dugFrom_digLoop:
  "leavesGrid (genOnProgress env) \<Longrightarrow>
   digLoop env cfg sol options t ps w cr st = (Inr w', st') \<Longrightarrow> dugFrom s0 w \<Longrightarrow>
   dugFrom s0 w'"
proof (induction ps arbitrary: w cr st)
  case Nil
  then show ?case by simp
next
  case (Cons p ps)
  obtain row col where p: "p = (row, col)" by (cases p)
  from Cons.prems show ?case
    unfolding p
    by (auto simp: Let_def dest: dugFrom_clearForDig Cons.IH genNotify_leaves
        split: if_splits sum.splits prod.splits)
qed

lemma dugFrom_digHoles:
  "leavesGrid (genOnProgress env) \<Longrightarrow>
   digHoles env cfg grid sol options st = (Inr w', st') \<Longrightarrow> dugFrom s0 grid \<Longrightarrow>
   dugFrom s0 w'"
  by (auto simp: digHoles_def Let_def dest: dugFrom_digLoop split: prod.splits)

lemma generateSudokuTry_success:
  assumes "generateSudokuTry stack env cfg options result st = (raised, result', st')"
    and "\<not> genSuccess result" and "genSuccess result'"
    and lv: "leavesGrid (genOnProgress env)"
  shows "\<exists>p s. puzzle result' = Some p \<and> solution result' = Some s \<and> dugFrom s p"
proof -
  obtain r1 st1 where fa: "fullGridAttempts 10 stack env cfg (digTimeoutTimestamp options)
             (genFinishReason result) st = (r1, st1)"
    by (cases "fullGridAttempts 10 stack env cfg (digTimeoutTimestamp options)
             (genFinishReason result) st")
  from assms fa obtain filledGrid reason where r1: "r1 = Inr (Some filledGrid, reason)"
    by (auto simp: generateSudokuTry_def split: sum.splits option.splits prod.splits)
  from noGivens_fullGridAttempts [OF lv] fa r1 have ng: "noGivens filledGrid" by blast
  then have d0: "dugFrom filledGrid (markGivens filledGrid)" by (rule dugFrom_markGivens)
  let ?st2 = "st1\<lparr>runStats := (runStats st1)
                          \<lparr>fullGridsGenerated := fullGridsGenerated (runStats st1) + 1\<rparr>\<rparr>"
  obtain r3 st3 where dh: "digHoles env cfg (markGivens filledGrid) filledGrid options ?st2 = (r3, st3)"
    by (cases "digHoles env cfg (markGivens filledGrid) filledGrid options ?st2")
  from assms fa r1 dh obtain modifiedPuzzle where r3: "r3 = Inr modifiedPuzzle"
    by (cases r3) (auto simp: generateSudokuTry_def Let_def)
  from dugFrom_digHoles [OF lv] dh r3 d0 have "dugFrom filledGrid modifiedPuzzle" by blast
  with assms(1) fa r1 dh r3 show ?thesis
    by (auto simp: generateSudokuTry_def Let_def)
qed

text \<open>A successful run with such a callback: the puzzle is dug from the solution.\<close>

lemma generateSudoku_dugFrom:
  assumes "genSuccess (generateSudoku stack env cfg options)"
    and "leavesGrid (optGenOnProgress options)"
  shows "\<exists>p s. puzzle (generateSudoku stack env cfg options) = Some p
           \<and> solution (generateSudoku stack env cfg options) = Some s \<and> dugFrom s p"
proof -
  obtain raised result st where
    tr: "generateSudokuTry stack (callbackEnv env options) cfg (digOptionsOf env cfg options)
           emptyResult initialGeneratorState = (raised, result, st)"
    by (cases "generateSudokuTry stack (callbackEnv env options) cfg (digOptionsOf env cfg options)
           emptyResult initialGeneratorState") auto
  have fin: "genSuccess (generateSudoku stack env cfg options) = genSuccess result
        \<and> puzzle (generateSudoku stack env cfg options) = puzzle result
        \<and> solution (generateSudoku stack env cfg options) = solution result"
    unfolding generateSudoku_eq tr by (simp split: option.splits)
  with assms have "genSuccess result" by simp
  from generateSudokuTry_success [OF tr _ this] assms(2)
  obtain p s where "puzzle result = Some p" "solution result = Some s" "dugFrom s p"
    by (auto simp: emptyResult_def)
  with fin show ?thesis by simp
qed

section \<open>The target of the digging and where it stops\<close>

text \<open>The mantissas are those of the doubles nearest to the literals: each has 53 bits
  and is within half a unit of the literal scaled by \<open>2^54\<close>.\<close>

lemma double_constants_nearest:
  "\<bar>100 * double_0_45 - 45 * 2 ^ 54\<bar> * 2 \<le> 100"
  "\<bar>100 * double_0_35 - 35 * 2 ^ 54\<bar> * 2 \<le> 100"
  "\<bar>100 * double_0_3 - 30 * 2 ^ 54\<bar> * 2 \<le> 100"
  "100 * double_0_25 = 25 * 2 ^ 54"
  "2 ^ 52 \<le> double_0_45 \<and> double_0_45 < 2 ^ 53"
  "2 ^ 52 \<le> double_0_35 \<and> double_0_35 < 2 ^ 53"
  "2 ^ 52 \<le> double_0_3 \<and> double_0_3 < 2 ^ 53"
  by (simp_all add: double_0_45_def double_0_35_def double_0_3_def double_0_25_def)

lemma targets_upto_31:
  "list_all (\<lambda>n. list_all (\<lambda>d. targetGivensFor d (n * n) = (int (n * n) * difficultyPercent d) div 100)
                       [Easy, Medium, Hard, Expert]) [0..<32]"
  by code_simp

lemma target_exact:
  assumes "n \<le> 31"
  shows "targetGivensFor d (n * n) = (int (n * n) * difficultyPercent d) div 100"
proof -
  from assms have "n \<in> set [0..<32]" by simp
  moreover have "d \<in> set [Easy, Medium, Hard, Expert]" by (cases d) simp_all
  ultimately show ?thesis
    using targets_upto_31 unfolding list_all_iff by blast
qed

lemma count_row_update:
  assumes "c < length row"
  shows "int (length (filter P (row[c := x])))
         = int (length (filter P row)) - of_bool (P (row ! c)) + of_bool (P x)"
proof -
  from assms have "row = take c row @ row ! c # drop (Suc c) row"
    by (simp add: id_take_nth_drop)
  then have "length (filter P row)
      = length (filter P (take c row @ row ! c # drop (Suc c) row))" by simp
  then have a: "int (length (filter P row))
      = int (length (filter P (take c row))) + of_bool (P (row ! c))
        + int (length (filter P (drop (Suc c) row)))"
    by simp
  from assms have "row[c := x] = take c row @ x # drop (Suc c) row"
    by (simp add: upd_conv_take_nth_drop)
  then have b: "int (length (filter P (row[c := x])))
      = int (length (filter P (take c row))) + of_bool (P x)
        + int (length (filter P (drop (Suc c) row)))"
    by simp
  from a b show ?thesis by simp
qed

lemma countGivens_rows:
  "int (countGivens w) = (\<Sum>row\<leftarrow>w. int (length (filter (\<lambda>cell. cvalue cell \<noteq> 0) row)))"
  unfolding countGivens_def by (induction w) auto

lemma countGivens_row_update:
  assumes "r < length w"
  shows "int (countGivens (w[r := row']))
         = int (countGivens w) - int (length (filter (\<lambda>cell. cvalue cell \<noteq> 0) (w ! r)))
           + int (length (filter (\<lambda>cell. cvalue cell \<noteq> 0) row'))"
proof -
  from assms have a: "w = take r w @ w ! r # drop (Suc r) w"
    by (simp add: id_take_nth_drop)
  from assms have b: "w[r := row'] = take r w @ row' # drop (Suc r) w"
    by (simp add: upd_conv_take_nth_drop)
  have "int (countGivens w) = int (countGivens (take r w @ w ! r # drop (Suc r) w))"
    using a by simp
  then show ?thesis
    unfolding b by (simp add: countGivens_rows)
qed

lemma countGivens_cell_update:
  assumes "r < length w" "c < length (w ! r)"
  shows "int (countGivens (w[r := (w ! r)[c := x]]))
         = int (countGivens w) - of_bool (cvalue (w ! r ! c) \<noteq> 0) + of_bool (cvalue x \<noteq> 0)"
  using countGivens_row_update [OF assms(1), of "(w ! r)[c := x]"]
    count_row_update [OF assms(2), of "\<lambda>cell. cvalue cell \<noteq> 0" x]
  by simp

lemma countGivens_writeCell_clear:
  assumes "writeCell w r c (\<lambda>cell. cell\<lparr>cvalue := 0, isPuzzle := False\<rparr>) = Inr w'"
  shows "int (countGivens w') = int (countGivens w) - of_bool (cvalue (w ! r ! c) \<noteq> 0)"
proof -
  from assms have rng: "r < length w" "c < length (w ! r)"
    and w': "w' = w[r := (w ! r)[c := (w ! r ! c)\<lparr>cvalue := 0, isPuzzle := False\<rparr>]]"
    by (auto simp: writeCell_def cellAt_def split: if_splits)
  from countGivens_cell_update [OF rng] w' show ?thesis by simp
qed

lemma countGivens_clearForDig:
  assumes "clearForDig w row col options = Inr w'"
  shows "int (countGivens w) - (if digSymmetrical options then 2 else 1) \<le> int (countGivens w')"
  using assms
  by (auto simp: clearForDig_def dest!: countGivens_writeCell_clear
      split: sum.splits if_splits prod.splits)


lemma digLoop_step:
  assumes "digLoop env cfg sol options t ((row, col) # ps) w cr st = (Inr w', st')"
  shows "(digTimeoutTimestamp options < genNow env (genClockReads st) \<and> w' = w)
       \<or> (\<exists>cell st1. cellAt w row col = Inr cell
             \<and> (cvalue cell = 0 \<or> (int row, int col) \<in> set cr)
             \<and> digLoop env cfg sol options t ps w cr st1 = (Inr w', st'))
       \<or> (\<exists>cell. cellAt w row col = Inr cell \<and> cvalue cell \<noteq> 0
             \<and> int (countGivens w) \<le> t \<and> w' = w)
       \<or> (\<exists>cell tempGrid cr' st3. cellAt w row col = Inr cell \<and> cvalue cell \<noteq> 0
             \<and> t < int (countGivens w) \<and> clearForDig w row col options = Inr tempGrid
             \<and> digUniqueSolution options
             \<and> digLoop env cfg sol options t ps w cr' st3 = (Inr w', st'))
       \<or> (\<exists>cell tempGrid st3 go w1 st4. cellAt w row col = Inr cell \<and> cvalue cell \<noteq> 0
             \<and> (int row, int col) \<notin> set cr
             \<and> t < int (countGivens w) \<and> clearForDig w row col options = Inr tempGrid
             \<and> genNotify env PuzzlePhase tempGrid st3 = (Inr go, w1, st4)
             \<and> (if go then digLoop env cfg sol options t ps w1 cr st4 = (Inr w', st')
                 else w' = w1))"
  using assms
  apply (simp add: Let_def split: if_splits sum.splits prod.splits)
     apply blast+
  done


lemma digLoop_cases [consumes 1, case_names late skip reached kept removed]:
  assumes "digLoop env cfg sol options t ((row, col) # ps) w cr st = (Inr w', st')"
  obtains
    (late) "digTimeoutTimestamp options < genNow env (genClockReads st)" "w' = w"
  | (skip) cell st1 where "cellAt w row col = Inr cell"
      "cvalue cell = 0 \<or> (int row, int col) \<in> set cr"
      "digLoop env cfg sol options t ps w cr st1 = (Inr w', st')"
  | (reached) cell where "cellAt w row col = Inr cell" "cvalue cell \<noteq> 0"
      "int (countGivens w) \<le> t" "w' = w"
  | (kept) cell tempGrid cr' st3 where "cellAt w row col = Inr cell" "cvalue cell \<noteq> 0"
      "t < int (countGivens w)" "clearForDig w row col options = Inr tempGrid"
      "digUniqueSolution options"
      "digLoop env cfg sol options t ps w cr' st3 = (Inr w', st')"
  | (removed) cell tempGrid st3 go w1 st4 where "cellAt w row col = Inr cell"
      "cvalue cell \<noteq> 0" "(int row, int col) \<notin> set cr"
      "t < int (countGivens w)" "clearForDig w row col options = Inr tempGrid"
      "genNotify env PuzzlePhase tempGrid st3 = (Inr go, w1, st4)"
      "if go then digLoop env cfg sol options t ps w1 cr st4 = (Inr w', st') else w' = w1"
  using digLoop_step [OF assms] by blast

lemma digLoop_bound:
  assumes "leavesGrid (genOnProgress env)"
    and "b \<le> t - (if digSymmetrical options then 1 else 0)"
  shows "digLoop env cfg sol options t ps w cr st = (Inr w', st') \<Longrightarrow>
         b \<le> int (countGivens w) \<Longrightarrow> b \<le> int (countGivens w')"
proof (induction ps arbitrary: w cr st)
  case Nil
  then show ?case by simp
next
  case (Cons p ps)
  obtain row col where p: "p = (row, col)" by (cases p)
  from Cons.prems(1) [unfolded p] show ?case
  proof (cases rule: digLoop_cases)
    case late
    with Cons.prems(2) show ?thesis by simp
  next
    case (skip cell st1)
    from Cons.IH [OF skip(3) Cons.prems(2)] show ?thesis .
  next
    case (reached cell)
    with Cons.prems(2) show ?thesis by simp
  next
    case (kept cell tempGrid cr' st3)
    from Cons.IH [OF kept(6) Cons.prems(2)] show ?thesis .
  next
    case (removed cell tempGrid st3 go w1 st4)
    from genNotify_leaves [OF assms(1) removed(6)] have w1: "w1 = tempGrid" .
    from countGivens_clearForDig [OF removed(5)] removed(4) assms(2)
    have bt: "b \<le> int (countGivens tempGrid)" by (auto split: if_splits)
    show ?thesis
    proof (cases go)
      case True
      with removed(7) w1
      have "digLoop env cfg sol options t ps tempGrid cr st4 = (Inr w', st')" by simp
      from Cons.IH [OF this bt] show ?thesis .
    next
      case False
      with removed(7) w1 bt show ?thesis by simp
    qed
  qed
qed

text \<open>Without the uniqueness check, symmetry, a deadline that passes and a callback, the
  loop clears cells until the target is reached.\<close>

lemma digLoop_reaches:
  assumes "\<not> digUniqueSolution options" "\<not> digSymmetrical options"
    and "genOnProgress env = None"
    and "\<forall>k. genNow env k \<le> digTimeoutTimestamp options"
  shows "digLoop env cfg sol options t ps w [] st = (Inr w', st') \<Longrightarrow>
         (\<forall>r < length w. \<forall>c < length (w ! r). cvalue (w ! r ! c) \<noteq> 0 \<longrightarrow> (r, c) \<in> set ps) \<Longrightarrow>
         int (countGivens w') = min (int (countGivens w)) (max t 0)"
proof (induction ps arbitrary: w st)
  case Nil
  from Nil.prems(2) have "\<forall>row \<in> set w. \<forall>cell \<in> set row. cvalue cell = 0"
    by (auto simp: in_set_conv_nth)
  then have "filter (\<lambda>cell. cvalue cell \<noteq> 0) (concat w) = []"
    by (auto simp: filter_empty_conv)
  then have "countGivens w = 0" by (simp add: countGivens_def)
  with Nil.prems(1) show ?case by simp
next
  case (Cons p ps)
  obtain row col where p: "p = (row, col)" by (cases p)
  from Cons.prems(1) [unfolded p] show ?case
  proof (cases rule: digLoop_cases)
    case late
    with assms(4) show ?thesis by (auto simp: not_le [symmetric])
  next
    case (skip cell st1)
    from skip(1) have "cell = w ! row ! col" by (auto simp: cellAt_def split: if_splits)
    with skip(2) Cons.prems(2) p
    have "\<forall>r < length w. \<forall>c < length (w ! r). cvalue (w ! r ! c) \<noteq> 0 \<longrightarrow> (r, c) \<in> set ps"
      by auto
    from Cons.IH [OF skip(3) this] show ?thesis .
  next
    case (reached cell)
    then show ?thesis by simp
  next
    case (kept cell tempGrid cr' st3)
    with assms(1) show ?thesis by simp
  next
    case (removed cell tempGrid st3 go w1 st4)
    from removed(6) assms(3) have go: "go" and w1: "w1 = tempGrid"
      by (simp_all add: genNotify_def)
    from removed(1) have rng: "row < length w" "col < length (w ! row)"
      and c: "cell = w ! row ! col"
      by (auto simp: cellAt_def split: if_splits)
    from removed(5) assms(2) rng c
    have tg: "tempGrid = w[row := (w ! row)[col := cell\<lparr>cvalue := 0, isPuzzle := False\<rparr>]]"
      by (auto simp: clearForDig_def writeCell_def cellAt_def split: if_splits)
    from countGivens_cell_update [OF rng, of "cell\<lparr>cvalue := 0, isPuzzle := False\<rparr>"] tg c
      removed(2)
    have cnt: "int (countGivens tempGrid) = int (countGivens w) - 1" by simp
    have inv: "\<forall>r < length tempGrid. \<forall>c < length (tempGrid ! r).
                 cvalue (tempGrid ! r ! c) \<noteq> 0 \<longrightarrow> (r, c) \<in> set ps"
    proof (intro allI impI)
      fix r c
      assume r: "r < length tempGrid" and c': "c < length (tempGrid ! r)"
        and v: "cvalue (tempGrid ! r ! c) \<noteq> 0"
      from r tg have r': "r < length w" by simp
      from c' tg r' have c'': "c < length (w ! r)"
        by (cases "r = row") (simp_all add: nth_list_update)
      have ne: "(r, c) \<noteq> (row, col)"
      proof
        assume "(r, c) = (row, col)"
        with tg rng have "cvalue (tempGrid ! r ! c) = 0" by simp
        with v show False by simp
      qed
      with tg r' c'' have "tempGrid ! r ! c = w ! r ! c"
        by (cases "r = row") (auto simp: nth_list_update)
      with v Cons.prems(2) r' c'' have "(r, c) \<in> set (p # ps)" by auto
      with ne p show "(r, c) \<in> set ps" by auto
    qed
    from removed(7) go w1
    have "digLoop env cfg sol options t ps tempGrid [] st4 = (Inr w', st')" by simp
    from Cons.IH [OF this inv] cnt removed(4) show ?thesis by auto
  qed
qed


lemma set_shuffleFrom:
  "i < length xs \<or> i = 0 \<Longrightarrow> set (fst (shuffleFrom env i xs st)) = set xs"
proof (induction i arbitrary: xs st)
  case 0
  then show ?case by simp
next
  case (Suc i)
  then have len: "Suc i < length xs" by simp
  let ?j = "genRandom env (randomCalls st) mod (Suc i + 1)"
  have "?j < Suc i + 1" by simp
  with len have j: "?j < length xs" by linarith
  have "set (xs[Suc i := xs ! ?j, ?j := xs ! Suc i]) = set xs"
    using set_swap [OF len j] .
  moreover have "i < length (xs[Suc i := xs ! ?j, ?j := xs ! Suc i])" using len by simp
  ultimately show ?case using Suc.IH [of "xs[Suc i := xs ! ?j, ?j := xs ! Suc i]"]
    by (simp add: Let_def)
qed

lemma set_shuffleArray: "set (fst (shuffleArray env xs st)) = set xs"
  unfolding shuffleArray_def by (rule set_shuffleFrom) (cases xs; simp)

lemma digHoles_digLoop:
  assumes "digHoles env cfg grid sol options st = (r, st')"
  obtains ps st1 where
    "set ps = {(row, col). row < length grid \<and> col < length grid}"
    "digLoop env cfg sol options (clampedTarget options (length grid * length grid)) ps grid []
       st1 = (r, st')"
proof -
  let ?positions = "concat (map (\<lambda>row. map (\<lambda>col. (row, col)) [0..<length grid]) [0..<length grid])"
  obtain ps st1 where sh: "shuffleArray env ?positions st = (ps, st1)"
    by (cases "shuffleArray env ?positions st")
  have "set ?positions = {(row, col). row < length grid \<and> col < length grid}" by auto
  with set_shuffleArray [of env ?positions st] sh
  have "set ps = {(row, col). row < length grid \<and> col < length grid}" by simp
  moreover from assms sh
  have "digLoop env cfg sol options (clampedTarget options (length grid * length grid)) ps grid []
       st1 = (r, st')"
    by (simp add: digHoles_def Let_def)
  ultimately show ?thesis by (rule that)
qed

text \<open>
  Claim C8.  For a digging run of \<open>digHoles\<close> on a grid of at most 31 rows (the bound on the
  size of a configuration) whose callback, if there is one, leaves the grid as it is:
  the target of the run is the floor of the fraction of the cells for the difficulty (45,
  35, 30 or 25 percent), clamped by the bounds as \<open>max minGivens (min target maxGivens)\<close>;
  the run never clears a clue of a grid that has reached the target, so the grid it
  returns, also after a timeout or a cancellation, has at least as many givens as the
  smaller of the target and the givens it started with (one less than the target under
  symmetry, where one step clears two cells); and without the uniqueness check, symmetry,
  a passing deadline and a callback, the run on a square grid ends with exactly the
  target, or with the givens it started with if those were fewer.
\<close>

theorem dig_target_and_stop:
  assumes "length grid \<le> 31"
    and "leavesGrid (genOnProgress env)"
    and "digHoles env cfg grid sol options st = (Inr dug, st')"
  shows "clampedTarget options (length grid * length grid) =
           max (digMinGivens options)
             (min ((int (length grid * length grid) * difficultyPercent (digDifficulty options)) div 100)
                  (digMaxGivens options))
         \<and> min (int (countGivens grid))
               (clampedTarget options (length grid * length grid)
                  - (if digSymmetrical options then 1 else 0))
             \<le> int (countGivens dug)
         \<and> (\<not> digUniqueSolution options \<and> \<not> digSymmetrical options \<and> genOnProgress env = None
              \<and> (\<forall>k. genNow env k \<le> digTimeoutTimestamp options)
              \<and> (\<forall>row \<in> set grid. length row = length grid)
            \<longrightarrow> int (countGivens dug)
                  = min (int (countGivens grid))
                      (max (clampedTarget options (length grid * length grid)) 0))"
proof (intro conjI impI)
  show "clampedTarget options (length grid * length grid) =
           max (digMinGivens options)
             (min ((int (length grid * length grid) * difficultyPercent (digDifficulty options)) div 100)
                  (digMaxGivens options))"
    using target_exact [OF assms(1)] by (simp add: clampedTarget_def)
next
  let ?t = "clampedTarget options (length grid * length grid)"
  from assms(3) obtain ps st1 where
    ps: "set ps = {(row, col). row < length grid \<and> col < length grid}"
    and loop: "digLoop env cfg sol options ?t ps grid [] st1 = (Inr dug, st')"
    by (rule digHoles_digLoop)
  show "min (int (countGivens grid)) (?t - (if digSymmetrical options then 1 else 0))
          \<le> int (countGivens dug)"
    by (rule digLoop_bound [OF assms(2) _ loop]) simp_all
next
  let ?t = "clampedTarget options (length grid * length grid)"
  assume a: "\<not> digUniqueSolution options \<and> \<not> digSymmetrical options \<and> genOnProgress env = None
              \<and> (\<forall>k. genNow env k \<le> digTimeoutTimestamp options)
              \<and> (\<forall>row \<in> set grid. length row = length grid)"
  from assms(3) obtain ps st1 where
    ps: "set ps = {(row, col). row < length grid \<and> col < length grid}"
    and loop: "digLoop env cfg sol options ?t ps grid [] st1 = (Inr dug, st')"
    by (rule digHoles_digLoop)
  from a ps have "\<forall>r < length grid. \<forall>c < length (grid ! r).
                    cvalue (grid ! r ! c) \<noteq> 0 \<longrightarrow> (r, c) \<in> set ps"
    by auto
  with a loop show "int (countGivens dug) = min (int (countGivens grid)) (max ?t 0)"
    using digLoop_reaches [of options env cfg sol ?t ps grid st1 dug st'] by blast
qed

text \<open>A run without the uniqueness check on a full 2 by 2 grid, target 1: one clue is
  left.\<close>

theorem dig_target_and_stop_witness:
  "length (gridOfValues [[2, 1], [1, 2]]) \<le> 31
   \<and> leavesGrid (genOnProgress stillEnv)
   \<and> \<not> digUniqueSolution plainDigOptions \<and> \<not> digSymmetrical plainDigOptions
   \<and> genOnProgress stillEnv = None
   \<and> (\<forall>k. genNow stillEnv k \<le> digTimeoutTimestamp plainDigOptions)
   \<and> list_all (\<lambda>row. length row = length (gridOfValues [[2, 1], [1, 2]]))
        (gridOfValues [[2, 1], [1, 2]])
   \<and> clampedTarget plainDigOptions 4 = 1
   \<and> countGivens (gridOfValues [[2, 1], [1, 2]]) = 4
   \<and> (\<exists>dug st'. digHoles stillEnv (latinConfig 2) (gridOfValues [[2, 1], [1, 2]])
                    (gridOfValues [[2, 1], [1, 2]]) plainDigOptions initialGeneratorState
                  = (Inr dug, st')
                \<and> map (map cvalue) dug = [[2, 0], [0, 0]]
                \<and> int (countGivens dug) = 1)"
proof -
  let ?g = "gridOfValues [[2, 1], [1, 2]]"
  let ?run = "digHoles stillEnv (latinConfig 2) ?g ?g plainDigOptions initialGeneratorState"
  have a: "length ?g \<le> 31" by code_simp
  have lv: "leavesGrid (genOnProgress stillEnv)" by (simp add: leavesGrid_def stillEnv_def)
  have o: "\<not> digUniqueSolution plainDigOptions \<and> \<not> digSymmetrical plainDigOptions"
    by (simp add: plainDigOptions_def mediumDigOptions_def)
  have cb: "genOnProgress stillEnv = None" by (simp add: stillEnv_def)
  have clock: "\<forall>k. genNow stillEnv k \<le> digTimeoutTimestamp plainDigOptions"
    by (simp add: stillEnv_def plainDigOptions_def mediumDigOptions_def)
  have sq: "\<forall>row \<in> set ?g. length row = length ?g" by code_simp
  have t: "clampedTarget plainDigOptions 4 = 1" by code_simp
  have len: "length ?g * length ?g = 4" by code_simp
  have cnt: "countGivens ?g = 4" by code_simp
  have ev: "(case ?run of (Inr g, s) \<Rightarrow> map (map cvalue) g | (Inl e, s) \<Rightarrow> [])
            = [[2, 0], [0, 0]]"
    by code_simp
  then obtain dug st' where run: "?run = (Inr dug, st')"
    and vals: "map (map cvalue) dug = [[2, 0], [0, 0]]"
    by (cases ?run; cases "fst ?run") auto
  from dig_target_and_stop [OF a lv run] o cb clock sq
  have "int (countGivens dug)
        = min (int (countGivens ?g)) (max (clampedTarget plainDigOptions (length ?g * length ?g)) 0)"
    by blast
  with len t cnt have "int (countGivens dug) = 1" by simp
  with run vals have "\<exists>dug st'. ?run = (Inr dug, st')
                \<and> map (map cvalue) dug = [[2, 0], [0, 0]] \<and> int (countGivens dug) = 1"
    by - (rule exI, rule exI, intro conjI, assumption+)
  with a lv o cb clock sq t cnt show ?thesis
    unfolding list_all_iff by simp
qed

section \<open>The puzzle is the solution with cells cleared\<close>

text \<open>
  Claim C10.  When \<open>generateSudoku\<close> reports success and its callback, if there is one,
  leaves the grids it is handed as they are, it returns a puzzle and a solution of the
  same shape, and cell by cell the puzzle is the solution with cells cleared: a puzzle
  cell with a non-zero value holds the value of the solution's cell and has
  \<open>isPuzzle = true\<close>; every other puzzle cell has value 0 and \<open>isPuzzle = false\<close>.  This
  holds for every configuration, option record, clock, random sequence and stack depth.
\<close>

theorem generated_puzzle_is_dug_solution:
  assumes "genSuccess (generateSudoku stack env cfg options)"
    and "leavesGrid (optGenOnProgress options)"
  shows "\<exists>p s. puzzle (generateSudoku stack env cfg options) = Some p
           \<and> solution (generateSudoku stack env cfg options) = Some s
           \<and> length p = length s
           \<and> (\<forall>r < length s. length (p ! r) = length (s ! r)
                \<and> (\<forall>c < length (s ! r).
                     (cvalue (p ! r ! c) \<noteq> 0 \<longrightarrow>
                        cvalue (p ! r ! c) = cvalue (s ! r ! c) \<and> isPuzzle (p ! r ! c))
                     \<and> (cvalue (p ! r ! c) = 0 \<longrightarrow> \<not> isPuzzle (p ! r ! c))))"
proof -
  from generateSudoku_dugFrom [OF assms]
  obtain p s where ps: "puzzle (generateSudoku stack env cfg options) = Some p"
    "solution (generateSudoku stack env cfg options) = Some s" "dugFrom s p"
    by blast
  from ps(3) have "length p = length s
           \<and> (\<forall>r < length s. length (p ! r) = length (s ! r)
                \<and> (\<forall>c < length (s ! r).
                     (cvalue (p ! r ! c) \<noteq> 0 \<longrightarrow>
                        cvalue (p ! r ! c) = cvalue (s ! r ! c) \<and> isPuzzle (p ! r ! c))
                     \<and> (cvalue (p ! r ! c) = 0 \<longrightarrow> \<not> isPuzzle (p ! r ! c))))"
    by (auto simp: dugFrom_def list_all2_conv_all_nth holeOf_def)
  with ps(1,2) show ?thesis by simp
qed

text \<open>The run on the 2 by 2 Latin square with \<open>Math.random()\<close> always 0 and no callback:
  the puzzle keeps one clue of the solution.\<close>

theorem generated_puzzle_is_dug_solution_witness:
  "genSuccess (generateSudoku 100 stillEnv (latinConfig 2) defaultGeneratorOptions)
   \<and> leavesGrid (optGenOnProgress defaultGeneratorOptions)
   \<and> map_option (map (map cvalue))
        (puzzle (generateSudoku 100 stillEnv (latinConfig 2) defaultGeneratorOptions))
       = Some [[2, 0], [0, 0]]
   \<and> map_option (map (map isPuzzle))
        (puzzle (generateSudoku 100 stillEnv (latinConfig 2) defaultGeneratorOptions))
       = Some [[True, False], [False, False]]
   \<and> map_option (map (map cvalue))
        (solution (generateSudoku 100 stillEnv (latinConfig 2) defaultGeneratorOptions))
       = Some [[2, 1], [1, 2]]"
proof -
  let ?res = "generateSudoku 100 stillEnv (latinConfig 2) defaultGeneratorOptions"
  have run: "(let r = ?res
              in (genSuccess r, map_option (map (map cvalue)) (puzzle r),
                  map_option (map (map isPuzzle)) (puzzle r),
                  map_option (map (map cvalue)) (solution r)))
             = (True, Some [[2, 0], [0, 0]], Some [[True, False], [False, False]],
                Some [[2, 1], [1, 2]])"
    by code_simp
  then have a: "genSuccess ?res" by (simp add: Let_def)
  have lv: "leavesGrid (optGenOnProgress defaultGeneratorOptions)"
    by (simp add: leavesGrid_def defaultGeneratorOptions_def)
  from generated_puzzle_is_dug_solution [OF a lv] run lv show ?thesis by (simp add: Let_def)
qed

text \<open>The same run with a callback that writes 1 into the top left cell of every puzzle it
  is handed: the run succeeds, and its puzzle holds 1 where its solution holds 2.\<close>

theorem generated_puzzle_is_dug_solution_counterexample:
  "genSuccess (generateSudoku 100 stillEnv (latinConfig 2) scribbledGeneratorOptions)
   \<and> map_option (map (map cvalue))
        (puzzle (generateSudoku 100 stillEnv (latinConfig 2) scribbledGeneratorOptions))
       = Some [[1, 0], [0, 2]]
   \<and> map_option (map (map cvalue))
        (solution (generateSudoku 100 stillEnv (latinConfig 2) scribbledGeneratorOptions))
       = Some [[2, 1], [1, 2]]"
proof -
  let ?res = "generateSudoku 100 stillEnv (latinConfig 2) scribbledGeneratorOptions"
  have run: "(let r = ?res
              in (genSuccess r, map_option (map (map cvalue)) (puzzle r),
                  map_option (map (map cvalue)) (solution r)))
             = (True, Some [[1, 0], [0, 2]], Some [[2, 1], [1, 2]])"
    by code_simp
  then show ?thesis by (simp add: Let_def)
qed

section \<open>Givens: what the solver and the generator keep\<close>

text \<open>
  Claim C6.  On a cell marked as a given, \<open>setCellValue\<close> outside editing mode returns the
  grid it was given.  Every solution grid \<open>solveSudoku\<close> returns holds, at every given
  cell of the input grid, the very cell of the input, for both strategies, every clock and
  every stack depth, if the callback leaves the solutions it is handed as they are.  The
  generator does clear cells it has marked as givens, that is what digging is; in the
  puzzle of a successful run whose callback leaves the grids as they are, every cell still
  marked as a given holds the value of the solution, which is not 0.
\<close>

theorem givens_never_altered:
  "(cellAt grid row col = Inr cell \<and> isPuzzle cell \<longrightarrow>
      setCellValue grid row col v False = Inr grid)
   \<and> (leavesSolutions (optOnProgress options) \<longrightarrow>
        (\<forall>h \<in> set (resSolutions (solveSudoku now stack grid cfg options)).
           \<forall>r c given. cellAt grid r c = Inr given \<and> isPuzzle given \<longrightarrow> cellAt h r c = Inr given))
   \<and> (leavesGrid (optGenOnProgress genOptions)
        \<and> genSuccess (generateSudoku genStack env genCfg genOptions) \<longrightarrow>
        (\<exists>p s. puzzle (generateSudoku genStack env genCfg genOptions) = Some p
           \<and> solution (generateSudoku genStack env genCfg genOptions) = Some s
           \<and> (\<forall>r < length p. \<forall>c < length (p ! r).
                 isPuzzle (p ! r ! c) \<longrightarrow>
                   cvalue (p ! r ! c) = cvalue (s ! r ! c) \<and> cvalue (p ! r ! c) \<noteq> 0)))"
proof (intro conjI impI)
  assume "cellAt grid row col = Inr cell \<and> isPuzzle cell"
  then show "setCellValue grid row col v False = Inr grid"
    by (auto intro: setCellValue_given)
next
  assume "leavesSolutions (optOnProgress options)"
  from solveSudoku_agreesOnGivens [OF this]
  show "\<forall>h \<in> set (resSolutions (solveSudoku now stack grid cfg options)).
           \<forall>r c given. cellAt grid r c = Inr given \<and> isPuzzle given \<longrightarrow> cellAt h r c = Inr given"
    by (auto simp: agreesOnGivens_def)
next
  assume a: "leavesGrid (optGenOnProgress genOptions)
        \<and> genSuccess (generateSudoku genStack env genCfg genOptions)"
  then obtain p s where ps: "puzzle (generateSudoku genStack env genCfg genOptions) = Some p"
    "solution (generateSudoku genStack env genCfg genOptions) = Some s" "dugFrom s p"
    using generateSudoku_dugFrom by blast
  have "\<forall>r < length p. \<forall>c < length (p ! r).
                 isPuzzle (p ! r ! c) \<longrightarrow>
                   cvalue (p ! r ! c) = cvalue (s ! r ! c) \<and> cvalue (p ! r ! c) \<noteq> 0"
  proof (intro allI impI)
    fix r c
    assume r: "r < length p" and c: "c < length (p ! r)" and g: "isPuzzle (p ! r ! c)"
    from ps(3) r have "list_all2 holeOf (s ! r) (p ! r)"
      by (simp add: dugFrom_def list_all2_nthD2)
    from list_all2_nthD2 [OF this c] have "holeOf (s ! r ! c) (p ! r ! c)" .
    with g show "cvalue (p ! r ! c) = cvalue (s ! r ! c) \<and> cvalue (p ! r ! c) \<noteq> 0"
      by (auto simp: holeOf_def)
  qed
  with ps(1,2)
  show "\<exists>p s. puzzle (generateSudoku genStack env genCfg genOptions) = Some p
           \<and> solution (generateSudoku genStack env genCfg genOptions) = Some s
           \<and> (\<forall>r < length p. \<forall>c < length (p ! r).
                 isPuzzle (p ! r ! c) \<longrightarrow>
                   cvalue (p ! r ! c) = cvalue (s ! r ! c) \<and> cvalue (p ! r ! c) \<noteq> 0)"
    by blast
qed

text \<open>The grid with the given 1 in its corner: \<open>setCellValue\<close> returns it, and the one
  solution found without a callback holds the given.  The generator's run on the 2 by 2 Latin
  square: the one cell still marked as a given holds the 2 of the solution.\<close>

theorem givens_never_altered_witness:
  "cellAt oneGivenGrid 0 0 = Inr (oneGivenGrid ! 0 ! 0) \<and> isPuzzle (oneGivenGrid ! 0 ! 0)
   \<and> setCellValue oneGivenGrid 0 0 2 False = Inr oneGivenGrid
   \<and> leavesSolutions (optOnProgress defaultSolverOptions)
   \<and> length (resSolutions
        (solveSudoku (\<lambda>k. 0) 10 oneGivenGrid (latinConfig 2) defaultSolverOptions)) = 1
   \<and> cellAt (hd (resSolutions
        (solveSudoku (\<lambda>k. 0) 10 oneGivenGrid (latinConfig 2) defaultSolverOptions))) 0 0
      = Inr (oneGivenGrid ! 0 ! 0)
   \<and> leavesGrid (optGenOnProgress defaultGeneratorOptions)
   \<and> genSuccess (generateSudoku 100 stillEnv (latinConfig 2) defaultGeneratorOptions)
   \<and> (\<exists>p s. puzzle (generateSudoku 100 stillEnv (latinConfig 2) defaultGeneratorOptions) = Some p
          \<and> solution (generateSudoku 100 stillEnv (latinConfig 2) defaultGeneratorOptions) = Some s
          \<and> 0 < length p \<and> 0 < length (p ! 0) \<and> isPuzzle (p ! 0 ! 0)
          \<and> cvalue (p ! 0 ! 0) = cvalue (s ! 0 ! 0) \<and> cvalue (p ! 0 ! 0) \<noteq> 0)"
proof -
  let ?res = "solveSudoku (\<lambda>k. 0) 10 oneGivenGrid (latinConfig 2) defaultSolverOptions"
  let ?gen = "generateSudoku 100 stillEnv (latinConfig 2) defaultGeneratorOptions"
  have a: "cellAt oneGivenGrid 0 0 = Inr (oneGivenGrid ! 0 ! 0)"
    by code_simp
  have b: "isPuzzle (oneGivenGrid ! 0 ! 0)"
    by code_simp
  have q: "leavesSolutions (optOnProgress defaultSolverOptions)"
    by (simp add: leavesSolutions_def defaultSolverOptions_def)
  have l: "length (resSolutions ?res) = 1"
    by code_simp
  then have mem: "hd (resSolutions ?res) \<in> set (resSolutions ?res)"
    by (cases "resSolutions ?res") auto
  have lv: "leavesGrid (optGenOnProgress defaultGeneratorOptions)"
    by (simp add: leavesGrid_def defaultGeneratorOptions_def)
  have run: "(let r = ?gen
              in (genSuccess r,
                  map_option (\<lambda>p. (0 < length p, 0 < length (p ! 0), isPuzzle (p ! 0 ! 0)))
                    (puzzle r)))
             = (True, Some (True, True, True))"
    by code_simp
  then have ok: "genSuccess ?gen" by (simp add: Let_def)
  note inst = givens_never_altered [of oneGivenGrid 0 0 "oneGivenGrid ! 0 ! 0" 2
      defaultSolverOptions "\<lambda>k. 0" 10 "latinConfig 2" defaultGeneratorOptions 100 stillEnv
      "latinConfig 2"]
  from inst a b
  have s: "setCellValue oneGivenGrid 0 0 2 False = Inr oneGivenGrid" by blast
  from inst q
  have all: "\<forall>h \<in> set (resSolutions ?res). \<forall>r c given.
        cellAt oneGivenGrid r c = Inr given \<and> isPuzzle given \<longrightarrow> cellAt h r c = Inr given"
    by blast
  from all mem a b have c: "cellAt (hd (resSolutions ?res)) 0 0 = Inr (oneGivenGrid ! 0 ! 0)"
    by blast
  from inst lv ok obtain p s where ps: "puzzle ?gen = Some p" "solution ?gen = Some s"
    and cells: "\<forall>r < length p. \<forall>c < length (p ! r).
                 isPuzzle (p ! r ! c) \<longrightarrow>
                   cvalue (p ! r ! c) = cvalue (s ! r ! c) \<and> cvalue (p ! r ! c) \<noteq> 0"
    by blast
  from run ps(1) have shape: "0 < length p" "0 < length (p ! 0)" "isPuzzle (p ! 0 ! 0)"
    by (simp_all add: Let_def)
  with cells have "cvalue (p ! 0 ! 0) = cvalue (s ! 0 ! 0) \<and> cvalue (p ! 0 ! 0) \<noteq> 0"
    by blast
  with ps shape
  have g: "\<exists>p s. puzzle ?gen = Some p \<and> solution ?gen = Some s
          \<and> 0 < length p \<and> 0 < length (p ! 0) \<and> isPuzzle (p ! 0 ! 0)
          \<and> cvalue (p ! 0 ! 0) = cvalue (s ! 0 ! 0) \<and> cvalue (p ! 0 ! 0) \<noteq> 0"
    by - (rule exI, rule exI, intro conjI, (elim conjE, assumption)+)
  from a b s q l c lv ok g show ?thesis by simp
qed

text \<open>With the callback that writes 9 into the top left cell of the solutions it is
  handed, the solver reports success with a solution that holds 9 where the input grid
  has the given 1.  And the digging of the generator, given a full grid whose cells are
  all marked as givens, returns a grid in which the given at row 0, column 1 is cleared.\<close>

theorem givens_never_altered_counterexample:
  "isPuzzle (oneGivenGrid ! 0 ! 0) \<and> cvalue (oneGivenGrid ! 0 ! 0) = 1
   \<and> success (solveSudoku (\<lambda>k. 0) 10 oneGivenGrid (latinConfig 2) scribbledSolverOptions)
   \<and> finishReason (solveSudoku (\<lambda>k. 0) 10 oneGivenGrid (latinConfig 2) scribbledSolverOptions)
       = Solved
   \<and> map (map (map cvalue))
        (resSolutions (solveSudoku (\<lambda>k. 0) 10 oneGivenGrid (latinConfig 2) scribbledSolverOptions))
       = [[[9, 2], [2, 1]]]
   \<and> isPuzzle (gridOfValues [[2, 1], [1, 2]] ! 0 ! 1)
   \<and> cvalue (gridOfValues [[2, 1], [1, 2]] ! 0 ! 1) = 1
   \<and> (case fst (digHoles stillEnv (latinConfig 2) (gridOfValues [[2, 1], [1, 2]])
                  (gridOfValues [[2, 1], [1, 2]]) smallDigOptions initialGeneratorState) of
         Inl e \<Rightarrow> []
       | Inr dug \<Rightarrow> map (map cvalue) dug) = [[2, 0], [0, 0]]"
proof -
  let ?res = "solveSudoku (\<lambda>k. 0) 10 oneGivenGrid (latinConfig 2) scribbledSolverOptions"
  have a: "isPuzzle (oneGivenGrid ! 0 ! 0) \<and> cvalue (oneGivenGrid ! 0 ! 0) = 1"
    by code_simp
  have run: "(let r = ?res in (success r, finishReason r, map (map (map cvalue)) (resSolutions r)))
             = (True, Solved, [[[9, 2], [2, 1]]])"
    by code_simp
  have b: "isPuzzle (gridOfValues [[2, 1], [1, 2]] ! 0 ! 1)
           \<and> cvalue (gridOfValues [[2, 1], [1, 2]] ! 0 ! 1) = 1"
    by code_simp
  have dig: "(case fst (digHoles stillEnv (latinConfig 2) (gridOfValues [[2, 1], [1, 2]])
                  (gridOfValues [[2, 1], [1, 2]]) smallDigOptions initialGeneratorState) of
         Inl e \<Rightarrow> []
       | Inr dug \<Rightarrow> map (map cvalue) dug) = [[2, 0], [0, 0]]"
    by code_simp
  from a run b dig show ?thesis by (simp add: Let_def)
qed

section \<open>The finish reason of the generator is never \<open>timeout\<close>\<close>

lemma fullGridAttempts_reason:
  "fullGridAttempts k stack env cfg deadline reason st = (Inr (Some g, reason'), st') \<Longrightarrow>
   reason' = reason"
proof (induction k arbitrary: st)
  case 0
  then show ?case by simp
next
  case (Suc k)
  then show ?case
    by (auto simp: Let_def split: if_splits prod.splits sum.splits option.splits)
qed

lemma generateSudokuTry_reason:
  assumes "generateSudokuTry stack env cfg options result st = (None, result', st')"
    and "genFinishReason result \<noteq> GenTimeout"
  shows "genFinishReason result' \<noteq> GenTimeout"
proof -
  obtain r1 st1 where fa: "fullGridAttempts 10 stack env cfg (digTimeoutTimestamp options)
             (genFinishReason result) st = (r1, st1)"
    by (cases "fullGridAttempts 10 stack env cfg (digTimeoutTimestamp options)
             (genFinishReason result) st")
  from assms fa show ?thesis
    by (auto simp: generateSudokuTry_def Let_def
        split: sum.splits option.splits prod.splits)
qed

text \<open>
  Claim C5 is not what the code does.  \<open>generateSudoku\<close> never returns the finish reason
  \<open>timeout\<close>, whatever the clock: the loop that asks for a full grid sets \<open>timeout\<close> when the
  deadline has passed and leaves the loop, and the test that follows overwrites it with
  \<open>error\<close>; the digging loop leaves at the deadline without a word, and the run ends as a
  success.
\<close>

theorem timeout_never_reported:
  "genFinishReason (generateSudoku stack env cfg options) \<noteq> GenTimeout"
proof -
  obtain raised result st where
    tr: "generateSudokuTry stack (callbackEnv env options) cfg (digOptionsOf env cfg options)
           emptyResult initialGeneratorState = (raised, result, st)"
    by (cases "generateSudokuTry stack (callbackEnv env options) cfg (digOptionsOf env cfg options)
           emptyResult initialGeneratorState") auto
  have fin: "genFinishReason (generateSudoku stack env cfg options)
             = (case raised of None \<Rightarrow> genFinishReason result | Some e \<Rightarrow> GenError)"
    unfolding generateSudoku_eq tr by (simp split: option.splits)
  show ?thesis
  proof (cases raised)
    case None
    with generateSudokuTry_reason [of stack _ cfg _ emptyResult initialGeneratorState result st] tr
    have "genFinishReason result \<noteq> GenTimeout" by (simp add: emptyResult_def)
    with fin None show ?thesis by simp
  next
    case (Some e)
    with fin show ?thesis by simp
  qed
qed

text \<open>Two runs on the 2 by 2 Latin square with the default timeout of 30000 ms.  In the
  first the clock shows 40000 ms at the first reading after the start: the run fails with
  the finish reason \<open>error\<close>, without a message and after one attempt.  In the second the
  clock passes the deadline at the first reading of the digging loop: the run is reported
  as a success, with the full grid as its puzzle.\<close>

theorem timeout_never_reported_counterexample:
  "genNow lateEnv 0 + 30000 < genNow lateEnv 1
   \<and> \<not> genSuccess (generateSudoku 100 lateEnv (latinConfig 2) defaultGeneratorOptions)
   \<and> genFinishReason (generateSudoku 100 lateEnv (latinConfig 2) defaultGeneratorOptions)
       = GenError
   \<and> errorMessage (generateSudoku 100 lateEnv (latinConfig 2) defaultGeneratorOptions) = None
   \<and> attempts (genStats (generateSudoku 100 lateEnv (latinConfig 2) defaultGeneratorOptions)) = 1
   \<and> genNow lateDigEnv 0 + 30000 < genNow lateDigEnv 2
   \<and> genSuccess (generateSudoku 100 lateDigEnv (latinConfig 2) defaultGeneratorOptions)
   \<and> genFinishReason (generateSudoku 100 lateDigEnv (latinConfig 2) defaultGeneratorOptions)
       = GenSuccess
   \<and> map_option (map (map cvalue))
        (puzzle (generateSudoku 100 lateDigEnv (latinConfig 2) defaultGeneratorOptions))
       = Some [[2, 1], [1, 2]]
   \<and> digAttempts (genStats (generateSudoku 100 lateDigEnv (latinConfig 2) defaultGeneratorOptions))
       = 0"
proof -
  have clock: "genNow lateEnv 0 + 30000 < genNow lateEnv 1
               \<and> genNow lateDigEnv 0 + 30000 < genNow lateDigEnv 2"
    by (simp add: lateEnv_def lateDigEnv_def)
  have fill: "(let r = generateSudoku 100 lateEnv (latinConfig 2) defaultGeneratorOptions
    in (genSuccess r, genFinishReason r, errorMessage r, attempts (genStats r)))
   = (False, GenError, None, 1)"
    by code_simp
  have dig: "(let r = generateSudoku 100 lateDigEnv (latinConfig 2) defaultGeneratorOptions
    in (genSuccess r, genFinishReason r, map_option (map (map cvalue)) (puzzle r),
        digAttempts (genStats r)))
   = (True, GenSuccess, Some [[2, 1], [1, 2]], 0)"
    by code_simp
  from clock fill dig show ?thesis by (simp add: Let_def)
qed

section \<open>Exceptions end at the boundary\<close>

text \<open>\<open>solveSudoku\<close> in terms of its \<open>try\<close> block.\<close>

lemma solveSudoku_eq:
  "solveSudoku now stack grid cfg options =
     (case solveSudokuTry stack grid cfg (strategyOf options) (contextOf now grid cfg options)
             emptySolverResult of
        (raised, result, ctx) \<Rightarrow>
          (case raised of
             None \<Rightarrow> result
           | Some e \<Rightarrow> result\<lparr>finishReason := FinishError, failReason := Some (ErrorMessage e)\<rparr>)
          \<lparr>resStats :=
             (if (case optCollectStats options of None \<Rightarrow> True | Some b \<Rightarrow> b)
              then Some ((stats ctx)\<lparr>timeMs := now (clockReads ctx) - now 0\<rparr>) else None)\<rparr>)"
  by (simp add: solveSudoku_def Let_def strategyOf_def contextOf_def emptySolverResult_def)

lemma solveSudoku_raised:
  assumes "fst (solveSudokuTry stack grid cfg (strategyOf options)
                  (contextOf now grid cfg options) emptySolverResult) = Some e"
  shows "finishReason (solveSudoku now stack grid cfg options) = FinishError
         \<and> failReason (solveSudoku now stack grid cfg options) = Some (ErrorMessage e)"
  using assms unfolding solveSudoku_eq
  by (cases "solveSudokuTry stack grid cfg (strategyOf options)
               (contextOf now grid cfg options) emptySolverResult") simp

lemma generateSudoku_raised:
  assumes "fst (generateSudokuTry stack (callbackEnv env options) cfg
                  (digOptionsOf env cfg options) emptyResult initialGeneratorState) = Some e"
  shows "genFinishReason (generateSudoku stack env cfg options) = GenError
         \<and> errorMessage (generateSudoku stack env cfg options) = Some e"
  using assms unfolding generateSudoku_eq
  by (cases "generateSudokuTry stack (callbackEnv env options) cfg
               (digOptionsOf env cfg options) emptyResult initialGeneratorState") simp

text \<open>
  Claim C4.  \<open>solveSudoku\<close> and \<open>generateSudoku\<close> return a result record for every input:
  the model functions are total, the exceptions of the code they call being values that
  end in the \<open>catch\<close> block.  An exception raised in the \<open>try\<close> block of either gives the
  finish reason \<open>error\<close> with the message of the exception; in particular one raised by the
  validation of the initial grid, by the search (where the candidates are computed, the
  grids validated and the callback called, and where the stack can run out), by the
  filling of the full grid and by the digging.
\<close>

theorem exceptions_become_error_results:
  "(fst (solveSudokuTry stack grid cfg (strategyOf options)
           (contextOf now grid cfg options) emptySolverResult) = Some e
       \<or> validateAllRegions grid (regions cfg) = Inl e
       \<or> (\<exists>validation. validateAllRegions grid (regions cfg) = Inr validation
             \<and> isValid validation
             \<and> fst (if strategyOf options = Fastest
                     then solveWithBacktracking stack grid (contextOf now grid cfg options)
                     else solveWithSimpleBacktracking stack grid (contextOf now grid cfg options))
                 = Inl e)
     \<longrightarrow> finishReason (solveSudoku now stack grid cfg options) = FinishError
         \<and> failReason (solveSudoku now stack grid cfg options) = Some (ErrorMessage e))
   \<and> (fst (generateSudokuTry genStack (callbackEnv env genOptions) genCfg
              (digOptionsOf env genCfg genOptions) emptyResult initialGeneratorState) = Some e'
       \<or> fst (fullGridAttempts 10 genStack (callbackEnv env genOptions) genCfg
                 (digTimeoutTimestamp (digOptionsOf env genCfg genOptions)) GenError
                 initialGeneratorState) = Inl e'
     \<longrightarrow> genFinishReason (generateSudoku genStack env genCfg genOptions) = GenError
         \<and> errorMessage (generateSudoku genStack env genCfg genOptions) = Some e')"
proof (intro conjI impI)
  let ?block = "solveSudokuTry stack grid cfg (strategyOf options)
           (contextOf now grid cfg options) emptySolverResult"
  assume a: "fst ?block = Some e
       \<or> validateAllRegions grid (regions cfg) = Inl e
       \<or> (\<exists>validation. validateAllRegions grid (regions cfg) = Inr validation
             \<and> isValid validation
             \<and> fst (if strategyOf options = Fastest
                     then solveWithBacktracking stack grid (contextOf now grid cfg options)
                     else solveWithSimpleBacktracking stack grid (contextOf now grid cfg options))
                 = Inl e)"
  have "fst ?block = Some e"
    using a
    by (auto simp: solveSudokuTry_def split: prod.splits sum.splits if_splits)
  from solveSudoku_raised [OF this]
  show "finishReason (solveSudoku now stack grid cfg options) = FinishError"
    and "failReason (solveSudoku now stack grid cfg options) = Some (ErrorMessage e)"
    by simp_all
next
  let ?block = "generateSudokuTry genStack (callbackEnv env genOptions) genCfg
              (digOptionsOf env genCfg genOptions) emptyResult initialGeneratorState"
  assume a: "fst ?block = Some e'
       \<or> fst (fullGridAttempts 10 genStack (callbackEnv env genOptions) genCfg
                 (digTimeoutTimestamp (digOptionsOf env genCfg genOptions)) GenError
                 initialGeneratorState) = Inl e'"
  have "fst ?block = Some e'"
    using a
    by (auto simp: generateSudokuTry_def emptyResult_def split: prod.splits sum.splits)
  from generateSudoku_raised [OF this]
  show "genFinishReason (generateSudoku genStack env genCfg genOptions) = GenError"
    and "errorMessage (generateSudoku genStack env genCfg genOptions) = Some e'"
    by simp_all
qed

text \<open>The solver on a grid without rows, whose validation reads a cell that is not there;
  the solver with no stack left for the search; the generator on a configuration whose
  regions reach outside the grid.\<close>

theorem exceptions_become_error_results_witness:
  "validateAllRegions [] (regions (latinConfig 2)) = Inl TypeError
   \<and> finishReason (solveSudoku (\<lambda>k. 0) 10 [] (latinConfig 2) defaultSolverOptions) = FinishError
   \<and> failReason (solveSudoku (\<lambda>k. 0) 10 [] (latinConfig 2) defaultSolverOptions)
       = Some (ErrorMessage TypeError)
   \<and> fst (solveSudokuTry 0 oneGivenGrid (latinConfig 2) (strategyOf defaultSolverOptions)
             (contextOf (\<lambda>k. 0) oneGivenGrid (latinConfig 2) defaultSolverOptions)
             emptySolverResult) = Some StackOverflow
   \<and> finishReason (solveSudoku (\<lambda>k. 0) 0 oneGivenGrid (latinConfig 2) defaultSolverOptions)
       = FinishError
   \<and> failReason (solveSudoku (\<lambda>k. 0) 0 oneGivenGrid (latinConfig 2) defaultSolverOptions)
       = Some (ErrorMessage StackOverflow)
   \<and> fst (fullGridAttempts 10 100 (callbackEnv stillEnv defaultGeneratorOptions) brokenConfig
             (digTimeoutTimestamp (digOptionsOf stillEnv brokenConfig defaultGeneratorOptions))
             GenError initialGeneratorState) = Inl TypeError
   \<and> genFinishReason (generateSudoku 100 stillEnv brokenConfig defaultGeneratorOptions) = GenError
   \<and> errorMessage (generateSudoku 100 stillEnv brokenConfig defaultGeneratorOptions)
       = Some TypeError"
proof -
  have a: "validateAllRegions [] (regions (latinConfig 2)) = Inl TypeError"
    by code_simp
  have b: "fst (solveSudokuTry 0 oneGivenGrid (latinConfig 2) (strategyOf defaultSolverOptions)
             (contextOf (\<lambda>k. 0) oneGivenGrid (latinConfig 2) defaultSolverOptions)
             emptySolverResult) = Some StackOverflow"
    by code_simp
  have c: "fst (fullGridAttempts 10 100 (callbackEnv stillEnv defaultGeneratorOptions) brokenConfig
             (digTimeoutTimestamp (digOptionsOf stillEnv brokenConfig defaultGeneratorOptions))
             GenError initialGeneratorState) = Inl TypeError"
    by code_simp
  from exceptions_become_error_results [of 10 "[]" "latinConfig 2" defaultSolverOptions
      "\<lambda>k. 0" TypeError 100 stillEnv defaultGeneratorOptions brokenConfig TypeError] a c
  have r1: "finishReason (solveSudoku (\<lambda>k. 0) 10 [] (latinConfig 2) defaultSolverOptions)
              = FinishError
            \<and> failReason (solveSudoku (\<lambda>k. 0) 10 [] (latinConfig 2) defaultSolverOptions)
              = Some (ErrorMessage TypeError)"
    and r3: "genFinishReason (generateSudoku 100 stillEnv brokenConfig defaultGeneratorOptions)
              = GenError
            \<and> errorMessage (generateSudoku 100 stillEnv brokenConfig defaultGeneratorOptions)
              = Some TypeError"
    by blast+
  from exceptions_become_error_results [of 0 oneGivenGrid "latinConfig 2" defaultSolverOptions
      "\<lambda>k. 0" StackOverflow] b
  have r2: "finishReason (solveSudoku (\<lambda>k. 0) 0 oneGivenGrid (latinConfig 2) defaultSolverOptions)
              = FinishError
            \<and> failReason (solveSudoku (\<lambda>k. 0) 0 oneGivenGrid (latinConfig 2) defaultSolverOptions)
              = Some (ErrorMessage StackOverflow)"
    by blast
  from a b c r1 r2 r3 show ?thesis by simp
qed

section \<open>The uniqueness check of the generator\<close>

text \<open>
  Claim C1 is not what the code does.  \<open>hasUniqueSolution\<close> is a placeholder (its comment
  says so): it looks at the first empty cell only and answers \<open>true\<close> when no value other
  than the solution's passes the region validation there.  On the standard 4 by 4
  configuration it accepts the puzzle with the five clues below, which has two solutions;
  this is the puzzle \<open>generateSudoku\<close> returns as a success, with \<open>uniqueSolution\<close> at its
  default \<open>true\<close>, when \<open>Math.random()\<close> always returns 0.
\<close>

theorem uniqueness_check_accepts_two_solutions:
  "fst (hasUniqueSolution (gridOfValues fiveClues) (gridOfValues firstSolution) standardConfig4
          initialGeneratorState) = Inr True
   \<and> solves standardConfig4 fiveClues firstSolution
   \<and> solves standardConfig4 fiveClues secondSolution
   \<and> firstSolution \<noteq> secondSolution"
proof -
  have a: "fst (hasUniqueSolution (gridOfValues fiveClues) (gridOfValues firstSolution)
                  standardConfig4 initialGeneratorState) = Inr True"
    by code_simp
  have b: "solves standardConfig4 fiveClues firstSolution"
    by code_simp
  have c: "solves standardConfig4 fiveClues secondSolution"
    by code_simp
  have d: "firstSolution \<noteq> secondSolution"
    by (simp add: firstSolution_def secondSolution_def)
  from a b c d show ?thesis by simp
qed

end
